(* ===== verification/Prelude.thy ===== *)
theory Prelude
  imports Main "HOL-Library.Word" "HOL-Library.Monad_Syntax" "HOL-Library.Multiset"
begin

text \<open>
  Shared vocabulary of the development: the widths of the Rust integers, the checked and
  saturating arithmetic of the Rust core library, indexed access to slices and vectors, the
  byte-copy loops that every transport segments with, and little-endian byte strings.

  A Rust panic (an arithmetic overflow in a build with overflow checks, an index out of range) is
  the value \<open>None\<close> of the option monad, so an operation that may panic has type \<open>'a option\<close>
  and the lemmas that say it returns are lemmas that it is \<open>Some\<close>. Where no overflow occurs,
  builds with and without overflow checks agree.
  The type \<open>usize\<close> of lengths and indices is \<^typ>\<open>nat\<close>.
\<close>

unbundle bit_operations_syntax

section \<open>Types\<close>

type_synonym u8 = "8 word"
type_synonym u16 = "16 word"
type_synonym u32 = "32 word"
type_synonym u64 = "64 word"
type_synonym bytes = "u8 list"

text \<open>
  \<open>arith_simps\<close> collects the facts that move word arithmetic to natural numbers,
  \<open>panic_simps\<close> the facts that evaluate the panicking operations when they succeed.
\<close>

named_theorems arith_simps
named_theorems panic_simps

section \<open>Machine arithmetic\<close>

definition checked_add :: "'a::len word \<Rightarrow> 'a word \<Rightarrow> 'a word option" where
  "checked_add a b = (if unat a + unat b < 2 ^ LENGTH('a) then Some (a + b) else None)"

definition checked_sub :: "'a::len word \<Rightarrow> 'a word \<Rightarrow> 'a word option" where
  "checked_sub a b = (if b \<le> a then Some (a - b) else None)"

definition checked_mul :: "'a::len word \<Rightarrow> 'a word \<Rightarrow> 'a word option" where
  "checked_mul a b = (if unat a * unat b < 2 ^ LENGTH('a) then Some (a * b) else None)"

definition saturating_add :: "'a::len word \<Rightarrow> 'a word \<Rightarrow> 'a word" where
  "saturating_add a b = (if unat a + unat b < 2 ^ LENGTH('a) then a + b else - 1)"

definition saturating_sub :: "'a::len word \<Rightarrow> 'a word \<Rightarrow> 'a word" where
  "saturating_sub a b = (if b \<le> a then a - b else 0)"

text \<open>\<open>div_ceil\<close> as in the Rust core library: the quotient, plus one when there is a remainder.\<close>

definition div_ceil :: "'a::len word \<Rightarrow> 'a word \<Rightarrow> 'a word" where
  "div_ceil a b = (if a mod b = 0 then a div b else a div b + 1)"

definition clamp :: "'a::linorder \<Rightarrow> 'a \<Rightarrow> 'a \<Rightarrow> 'a" where
  "clamp x lo hi = (if x < lo then lo else if hi < x then hi else x)"

lemma unat_max_word [arith_simps]: "unat (- 1 :: 'a::len word) = 2 ^ LENGTH('a) - 1"
  by (metis mask_eq_exp_minus_1 unsigned_minus_1_eq_mask)

lemma unat_bound [simp]: "unat (w :: 'a::len word) < 2 ^ LENGTH('a)"
  by (rule unsigned_less)

lemma unat_u8_less [simp]: "unat (w :: u8) < 256"
  using unat_bound [of w] by simp

lemma unat_u8_le [simp]: "unat (w :: u8) \<le> 255"
  using unat_u8_less [of w] by linarith

lemma unat_u32_less: "unat (w :: u32) < 4294967296"
  using unat_bound [of w] by simp

lemma unat_ucast_u8_u32 [simp]: "unat (ucast (b :: u8) :: u32) = unat b"
proof -
  have "unat b < 2 ^ 32" by (rule less_trans [OF unat_u8_less]) simp
  then show ?thesis by (simp add: unsigned_ucast_eq take_bit_nat_eq_self)
qed

lemma unat_ucast_u32_u8: "unat w < 256 \<Longrightarrow> unat (ucast (w :: u32) :: u8) = unat w"
  by (simp add: unsigned_ucast_eq take_bit_nat_eq_self)

lemma checked_add_eq_Some_iff:
  "checked_add a b = Some c \<longleftrightarrow> unat a + unat b < 2 ^ LENGTH('a) \<and> c = (a + b :: 'a::len word)"
  by (auto simp: checked_add_def)

lemma checked_sub_eq_Some_iff:
  "checked_sub a b = Some c \<longleftrightarrow> b \<le> a \<and> c = (a - b :: 'a::len word)"
  by (auto simp: checked_sub_def)

lemma checked_mul_eq_Some_iff:
  "checked_mul a b = Some c \<longleftrightarrow> unat a * unat b < 2 ^ LENGTH('a) \<and> c = (a * b :: 'a::len word)"
  by (auto simp: checked_mul_def)

lemma checked_add_Some [panic_simps]:
  "unat a + unat b < 2 ^ LENGTH('a) \<Longrightarrow> checked_add a b = Some (a + b :: 'a::len word)"
  by (simp add: checked_add_def)

lemma checked_sub_Some [panic_simps]:
  "unat b \<le> unat a \<Longrightarrow> checked_sub a b = Some (a - b :: 'a::len word)"
  by (simp add: checked_sub_def word_le_nat_alt)

lemma checked_mul_Some [panic_simps]:
  "unat a * unat b < 2 ^ LENGTH('a) \<Longrightarrow> checked_mul a b = Some (a * b :: 'a::len word)"
  by (simp add: checked_mul_def)

lemma unat_add_no_wrap [arith_simps]:
  "unat a + unat b < 2 ^ LENGTH('a) \<Longrightarrow> unat (a + b :: 'a::len word) = unat a + unat b"
  by (simp add: unat_word_ariths)

lemma unat_mult_no_wrap [arith_simps]:
  "unat a * unat b < 2 ^ LENGTH('a) \<Longrightarrow> unat (a * b :: 'a::len word) = unat a * unat b"
  by (simp add: unat_word_ariths)

lemma unat_sub_no_wrap [arith_simps]:
  "unat b \<le> unat a \<Longrightarrow> unat (a - b :: 'a::len word) = unat a - unat b"
  by (simp add: unat_sub word_le_nat_alt)

lemma unat_saturating_add [arith_simps]:
  "unat (saturating_add a b) = min (unat a + unat b) (2 ^ LENGTH('a) - 1)"
  for a b :: "'a::len word"
  by (auto simp: saturating_add_def arith_simps min_def)

lemma of_nat_unat_word: "unat w = n \<Longrightarrow> of_nat n = (w :: 'a::len word)"
  by auto

lemma unat_min: "unat (min a b) = min (unat a) (unat b)" for a b :: "'a::len word"
  by (simp add: min_def word_le_nat_alt)

lemma saturating_add_ge: "a \<le> saturating_add a b" for a :: "'a::len word"
proof -
  have "unat a \<le> 2 ^ LENGTH('a) - 1" using unat_bound [of a] by linarith
  then show ?thesis by (simp add: word_le_nat_alt arith_simps)
qed

lemma saturating_add_ge_right: "b \<le> saturating_add a b" for b :: "'a::len word"
  using saturating_add_ge [of b a] by (simp add: word_le_nat_alt unat_saturating_add add.commute)

lemma unat_saturating_sub [arith_simps]:
  "unat (saturating_sub a b) = unat a - unat b" for a b :: "'a::len word"
  by (auto simp: saturating_sub_def word_le_nat_alt arith_simps)

lemma div_ceil_nat_le: "(a :: nat) div b + 1 \<le> a" if "1 < b" "a mod b \<noteq> 0"
proof -
  have "a \<noteq> 0" using that(2) by (metis mod_0)
  then have "a div b < a" using that(1) by simp
  then show ?thesis by simp
qed

lemma nat_div_ceil:
  fixes a b :: nat
  assumes "0 < b" and "a mod b \<noteq> 0"
  shows "(a + b - 1) div b = a div b + 1"
proof -
  have "a + b - 1 = (a mod b - 1) + (b * (a div b) + b)"
    using assms mult_div_mod_eq [of b a] by linarith
  also have "\<dots> = (a mod b - 1) + b * (a div b + 1)" by simp
  also have "\<dots> div b = (a div b + 1) + (a mod b - 1) div b"
    using assms(1) by (intro div_mult_self2) simp
  also have "(a mod b - 1) div b = 0"
    using assms(1) mod_less_divisor [of b a] by (intro div_less) linarith
  finally show ?thesis by simp
qed

lemma unat_div_ceil [arith_simps]:
  fixes a b :: "'a::len word"
  assumes "1 < unat b"
  shows "unat (div_ceil a b) = (unat a + unat b - 1) div unat b"
proof (cases "unat a mod unat b = 0")
  case True
  then obtain q where q: "unat a = unat b * q" by auto
  have m: "a mod b = 0" using True by (simp add: unat_mod [symmetric] unat_eq_0 [symmetric])
  have "unat b * q + unat b - 1 = (unat b - 1) + unat b * q" using assms by linarith
  also have "\<dots> div unat b = q + (unat b - 1) div unat b"
    using assms by (intro div_mult_self2) simp
  finally have "(unat b * q + unat b - 1) div unat b = q" using assms by simp
  then show ?thesis using assms q m
    by (simp add: div_ceil_def unat_div)
next
  case False
  then have m: "a mod b \<noteq> 0" by (metis unat_0 unat_mod)
  have le: "unat a div unat b + 1 \<le> unat a" using assms False by (rule div_ceil_nat_le)
  have lt: "unat (a div b) + unat (1 :: 'a word) < 2 ^ LENGTH('a)"
    using le_less_trans [OF le unat_bound] by (simp add: unat_div)
  have r: "(unat a + unat b - 1) div unat b = unat a div unat b + 1"
    using False assms by (intro nat_div_ceil) simp_all
  show ?thesis unfolding r
    using m lt by (simp add: div_ceil_def unat_add_no_wrap unat_div)
qed

section \<open>Indexed access\<close>

definition index_get :: "'a list \<Rightarrow> nat \<Rightarrow> 'a option" where
  "index_get xs i = (if i < length xs then Some (xs ! i) else None)"

definition index_set :: "'a list \<Rightarrow> nat \<Rightarrow> 'a \<Rightarrow> 'a list option" where
  "index_set xs i v = (if i < length xs then Some (xs[i := v]) else None)"

text \<open>\<open>Iterator::position\<close>: the first index whose element satisfies the predicate.\<close>

primrec position :: "('a \<Rightarrow> bool) \<Rightarrow> 'a list \<Rightarrow> nat option" where
  "position P [] = None"
| "position P (x # xs) = (if P x then Some 0 else map_option Suc (position P xs))"

text \<open>\<open>Vec::swap_remove\<close>: the removed element and the vector with the last element in its place.\<close>

definition swap_remove :: "nat \<Rightarrow> 'a list \<Rightarrow> ('a \<times> 'a list) option" where
  "swap_remove i xs = (if i < length xs then Some (xs ! i, butlast (xs[i := last xs])) else None)"

lemma index_get_Some [panic_simps]: "i < length xs \<Longrightarrow> index_get xs i = Some (xs ! i)"
  by (simp add: index_get_def)

lemma index_set_Some [panic_simps]: "i < length xs \<Longrightarrow> index_set xs i v = Some (xs[i := v])"
  by (simp add: index_set_def)

lemma swap_remove_Some [panic_simps]:
  "i < length xs \<Longrightarrow> swap_remove i xs = Some (xs ! i, butlast (xs[i := last xs]))"
  by (simp add: swap_remove_def)

lemma position_SomeD: "position P xs = Some i \<Longrightarrow> i < length xs \<and> P (xs ! i)"
  by (induction xs arbitrary: i) (auto split: if_splits)

lemma position_Some_first: "position P xs = Some i \<Longrightarrow> j < i \<Longrightarrow> \<not> P (xs ! j)"
proof (induction xs arbitrary: i j)
  case (Cons x xs)
  then show ?case by (cases j) (auto split: if_splits)
qed simp

lemma position_None_iff: "position P xs = None \<longleftrightarrow> (\<forall>x \<in> set xs. \<not> P x)"
  by (induction xs) auto

lemma position_append:
  "position P (xs @ ys) = (case position P xs of Some i \<Rightarrow> Some i
     | None \<Rightarrow> map_option (\<lambda>i. i + length xs) (position P ys))"
  by (induction xs) (auto split: option.splits simp: option.map_comp comp_def option.map_ident)

text \<open>A predicate that says nothing but the key of an element finds the element.\<close>

lemma position_key:
  assumes "distinct (map f xs)" and "i < length xs" and "\<And>x. P x \<longleftrightarrow> f x = f (xs ! i)"
  shows "position P xs = Some i"
proof (cases "position P xs")
  case None
  then show ?thesis using assms(2,3) by (auto simp: position_None_iff)
next
  case (Some j)
  then have "j < length xs" "f (xs ! j) = f (xs ! i)" using position_SomeD [OF Some] assms(3) by auto
  then have "j = i" using assms(1,2) by (simp add: distinct_conv_nth nth_eq_iff_index_eq) (metis nth_map)
  then show ?thesis using Some by simp
qed

lemma mset_swap_remove:
  assumes "i < length xs"
  shows "mset (butlast (xs[i := last xs])) = mset xs - {# xs ! i #}"
proof (cases "i = length xs - 1")
  case True
  then have "xs[i := last xs] = xs" using assms
    by (metis last_conv_nth list_update_id list.size(3) not_less_zero)
  moreover have "xs = butlast xs @ [xs ! i]" using True assms
    by (metis append_butlast_last_id last_conv_nth list.size(3) not_less_zero)
  then have "mset xs = mset (butlast xs) + {# xs ! i #}" by (metis mset_append mset_single_iff_right)
  ultimately show ?thesis by simp
next
  case False
  then have i: "i < length (butlast xs)" using assms by simp
  have xs: "xs = butlast xs @ [last xs]" using assms by (metis append_butlast_last_id list.size(3) not_less_zero)
  have "butlast (xs[i := last xs]) = (butlast xs)[i := last xs]"
    using i by (metis butlast_snoc list_update_append1 xs)
  then have "mset (butlast (xs[i := last xs])) = add_mset (last xs) (mset (butlast xs) - {# butlast xs ! i #})"
    using i by (simp add: mset_update)
  moreover have "butlast xs ! i = xs ! i" using i by (simp add: nth_butlast)
  moreover have "xs ! i \<in># mset (butlast xs)" using i calculation(2) by (metis nth_mem set_mset_mset)
  moreover have "mset xs = add_mset (last xs) (mset (butlast xs))" by (subst xs) simp
  ultimately show ?thesis by (simp add: add_mset_remove_trivial_If)
qed

lemma length_swap_remove: "length (butlast (xs[i := last xs])) = length xs - 1"
  by simp

lemma set_swap_remove_subset:
  assumes "i < length xs"
  shows "set (butlast (xs[i := last xs])) \<subseteq> set xs"
  by (metis assms diff_subset_eq_self mset_swap_remove set_mset_mono set_mset_mset)

lemma distinct_map_swap_remove:
  assumes "i < length xs" and "distinct (map f xs)"
  shows "distinct (map f (butlast (xs[i := last xs])))"
proof -
  have "mset (map f (butlast (xs[i := last xs]))) = mset (map f xs) - {# f (xs ! i) #}"
    using assms(1) by (simp add: mset_swap_remove image_mset_Diff)
  then have "mset (map f (butlast (xs[i := last xs]))) = mset (remove1 (f (xs ! i)) (map f xs))"
    by simp
  then show ?thesis using assms(2) by (metis distinct_remove1 mset_eq_imp_distinct_iff)
qed

text \<open>The elements left after \<open>swap_remove\<close> are the others.\<close>

lemma set_swap_remove:
  assumes "i < length xs" and "distinct (map f xs)"
  shows "set (butlast (xs[i := last xs])) = {x \<in> set xs. f x \<noteq> f (xs ! i)}"
proof -
  have d: "distinct xs" using assms(2) by (simp add: distinct_map)
  have "set (butlast (xs[i := last xs])) = set_mset (mset xs - {# xs ! i #})"
    by (metis mset_swap_remove [OF assms(1)] set_mset_mset)
  also have "\<dots> = set xs - {xs ! i}" using d by (metis mset_remove1 set_mset_mset set_remove1_eq)
  also have "\<dots> = {x \<in> set xs. f x \<noteq> f (xs ! i)}"
    using assms by (auto simp: distinct_map inj_on_def)
  finally show ?thesis .
qed

text \<open>
  A loop that removes at its index and looks at the same index again still visits every element:
  what lies from the index on is, up to order, what came after the removed element.
\<close>

lemma swap_remove_rest:
  assumes "i < length xs"
  shows "take i (butlast (xs[i := last xs])) = take i xs"
    and "mset (drop i (butlast (xs[i := last xs]))) = mset (drop (Suc i) xs)"
proof -
  show t: "take i (butlast (xs[i := last xs])) = take i xs"
    using assms by (intro nth_equalityI) (auto simp: nth_butlast)
  have "mset xs = mset (take i xs) + (add_mset (xs ! i) (mset (drop (Suc i) xs)))"
    by (metis Cons_nth_drop_Suc append_take_drop_id assms mset.simps(2) mset_append)
  moreover have "mset (butlast (xs[i := last xs])) =
      mset (take i xs) + mset (drop i (butlast (xs[i := last xs])))"
    by (metis append_take_drop_id mset_append t)
  ultimately show "mset (drop i (butlast (xs[i := last xs]))) = mset (drop (Suc i) xs)"
    using mset_swap_remove [OF assms] by simp
qed

lemma mset_map_filter_cong: "mset xs = mset ys \<Longrightarrow> mset (List.map_filter g xs) = mset (List.map_filter g ys)"
proof -
  assume "mset xs = mset ys"
  then have "image_mset (the \<circ> g) (filter_mset (\<lambda>x. g x \<noteq> None) (mset xs)) =
      image_mset (the \<circ> g) (filter_mset (\<lambda>x. g x \<noteq> None) (mset ys))" by (rule arg_cong)
  then show ?thesis by (simp only: map_filter_def mset_map mset_filter)
qed

lemma mset_concat_map_cong: "mset xs = mset ys \<Longrightarrow> mset (concat (map g xs)) = mset (concat (map g ys))"
proof -
  assume "mset xs = mset ys"
  then have "sum_mset (image_mset (\<lambda>x. mset (g x)) (mset xs)) = sum_mset (image_mset (\<lambda>x. mset (g x)) (mset ys))"
    by (rule arg_cong)
  then show ?thesis by (simp add: mset_concat comp_def flip: sum_mset_sum_list mset_map)
qed

text \<open>Removing an element that has just been overwritten removes the place.\<close>

lemma swap_remove_update:
  assumes "i < length xs"
  shows "butlast (xs[i := last (xs[i := v])]) = butlast (xs[i := last xs])"
proof (cases "i = length xs - 1")
  case True
  have "butlast (xs[length xs - 1 := u]) = butlast xs" for u
    by (rule nth_equalityI) (auto simp: nth_butlast)
  then show ?thesis using True by simp
next
  case False
  then have "last (xs[i := v]) = last xs"
    using assms by (metis last_list_update length_greater_0_conv less_nat_zero_code list.size(3))
  then show ?thesis by simp
qed

lemma map_update_same: "f v = f (xs ! i) \<Longrightarrow> map f (xs[i := v]) = map f xs"
  by (metis list_update_id map_update)

section \<open>Copy loops\<close>

text \<open>
  Every transport copies payload bytes between a session buffer and the eight data bytes of a
  frame with the same two loops. Receiving, the byte \<open>i + hdr\<close> of the frame goes to position
  \<open>off + i\<close> of the buffer when that lies below the announced length; sending, the bytes go the
  other way. Both index with bounds checks.
\<close>

primrec copy_in :: "nat \<Rightarrow> nat \<Rightarrow> nat \<Rightarrow> 'a list \<Rightarrow> nat list \<Rightarrow> 'a list \<Rightarrow> 'a list option" where
  "copy_in hdr off tot src [] dst = Some dst"
| "copy_in hdr off tot src (i # is) dst =
     (if off + i < tot
      then do {
        b \<leftarrow> index_get src (i + hdr);
        dst' \<leftarrow> index_set dst (off + i) b;
        copy_in hdr off tot src is dst'
      }
      else copy_in hdr off tot src is dst)"

primrec copy_out :: "nat \<Rightarrow> nat \<Rightarrow> nat \<Rightarrow> 'a list \<Rightarrow> nat list \<Rightarrow> 'a list \<Rightarrow> 'a list option" where
  "copy_out hdr off tot src [] dst = Some dst"
| "copy_out hdr off tot src (j # js) dst =
     (if off + j < tot
      then do {
        b \<leftarrow> index_get src (off + j);
        dst' \<leftarrow> index_set dst (j + hdr) b;
        copy_out hdr off tot src js dst'
      }
      else copy_out hdr off tot src js dst)"

definition copied_in :: "nat \<Rightarrow> nat \<Rightarrow> nat \<Rightarrow> nat \<Rightarrow> 'a list \<Rightarrow> 'a list \<Rightarrow> 'a list" where
  "copied_in hdr off tot n src dst =
     map (\<lambda>k. if off \<le> k \<and> k < off + n \<and> k < tot then src ! (k - off + hdr) else dst ! k)
       [0..<length dst]"

definition copied_out :: "nat \<Rightarrow> nat \<Rightarrow> nat \<Rightarrow> nat \<Rightarrow> 'a list \<Rightarrow> 'a list \<Rightarrow> 'a list" where
  "copied_out hdr off tot n src dst =
     map (\<lambda>k. if hdr \<le> k \<and> k < hdr + n \<and> off + (k - hdr) < tot then src ! (off + (k - hdr))
              else dst ! k) [0..<length dst]"

lemma length_copied [simp]:
  "length (copied_in hdr off tot n src dst) = length dst"
  "length (copied_out hdr off tot n src dst) = length dst"
  by (simp_all add: copied_in_def copied_out_def)

lemma copy_in_append:
  "copy_in hdr off tot src (is @ js) dst =
     Option.bind (copy_in hdr off tot src is dst) (copy_in hdr off tot src js)"
  by (induction "is" arbitrary: dst) (auto split: Option.bind_splits)

lemma copy_out_append:
  "copy_out hdr off tot src (is @ js) dst =
     Option.bind (copy_out hdr off tot src is dst) (copy_out hdr off tot src js)"
  by (induction "is" arbitrary: dst) (auto split: Option.bind_splits)

text \<open>With buffers long enough both loops run to the end, and the copied range is exact.\<close>

lemma copy_in_eq [panic_simps]:
  assumes "n + hdr \<le> length src" and "tot \<le> length dst"
  shows "copy_in hdr off tot src [0..<n] dst = Some (copied_in hdr off tot n src dst)"
  using assms(1)
proof (induction n)
  case 0
  show ?case by (auto simp: copied_in_def intro!: nth_equalityI)
next
  case (Suc n)
  have len: "length (copied_in hdr off tot n src dst) = length dst" by simp
  have step: "(copied_in hdr off tot n src dst)[off + n := src ! (n + hdr)]
      = copied_in hdr off tot (Suc n) src dst" if "off + n < tot"
    by (rule nth_equalityI) (use that assms(2) in \<open>auto simp: copied_in_def nth_list_update\<close>)
  have skip: "copied_in hdr off tot n src dst = copied_in hdr off tot (Suc n) src dst"
    if "\<not> off + n < tot"
    by (rule nth_equalityI) (use that in \<open>auto simp: copied_in_def\<close>)
  show ?case
    using Suc assms(2) step skip
    by (auto simp: copy_in_append index_get_def index_set_def)
qed

lemma copy_out_eq [panic_simps]:
  assumes "n + hdr \<le> length dst" and "tot \<le> length src"
  shows "copy_out hdr off tot src [0..<n] dst = Some (copied_out hdr off tot n src dst)"
  using assms(1)
proof (induction n)
  case 0
  show ?case by (auto simp: copied_out_def intro!: nth_equalityI)
next
  case (Suc n)
  have step: "(copied_out hdr off tot n src dst)[n + hdr := src ! (off + n)]
      = copied_out hdr off tot (Suc n) src dst" if "off + n < tot"
    by (rule nth_equalityI) (use that Suc.prems in \<open>auto simp: copied_out_def nth_list_update\<close>)
  have skip: "copied_out hdr off tot n src dst = copied_out hdr off tot (Suc n) src dst"
    if "\<not> off + n < tot"
    by (rule nth_equalityI)
      (use that in \<open>auto simp: copied_out_def less_Suc_eq\<close>)
  show ?case
    using Suc assms(2) step skip
    by (auto simp: copy_out_append index_get_def index_set_def)
qed

text \<open>
  Reassembly: copying a chunk out of a payload and into a buffer that already holds the payload's
  prefix extends the prefix by the chunk. \<open>partial_copy\<close> is the buffer of a receiver that has
  the first \<open>n\<close> bytes of \<open>p\<close> and the fill byte everywhere else.
\<close>

definition partial_copy :: "'a \<Rightarrow> 'a list \<Rightarrow> nat \<Rightarrow> 'a list" where
  "partial_copy fill p n = take n p @ replicate (length p - n) fill"

lemma length_partial_copy [simp]: "length (partial_copy fill p n) = length p"
  by (simp add: partial_copy_def)

lemma partial_copy_0 [simp]: "partial_copy fill p 0 = replicate (length p) fill"
  by (simp add: partial_copy_def)

lemma partial_copy_all [simp]: "length p \<le> n \<Longrightarrow> partial_copy fill p n = p"
  by (simp add: partial_copy_def)

lemma nth_partial_copy:
  "k < length p \<Longrightarrow> partial_copy fill p n ! k = (if k < n then p ! k else fill)"
  by (auto simp: partial_copy_def nth_append min_def)

lemma copied_in_out:
  assumes "off \<le> length p" and "n + hdr \<le> length dst"
  shows "copied_in hdr off (length p) n (copied_out hdr off (length p) n p dst)
           (partial_copy fill p off) = partial_copy fill p (off + n)"
proof (rule nth_equalityI)
  fix k assume "k < length (copied_in hdr off (length p) n (copied_out hdr off (length p) n p dst)
           (partial_copy fill p off))"
  then have k: "k < length p" by simp
  then show "copied_in hdr off (length p) n (copied_out hdr off (length p) n p dst)
           (partial_copy fill p off) ! k = partial_copy fill p (off + n) ! k"
    using assms by (auto simp: copied_in_def copied_out_def nth_partial_copy)
qed simp

section \<open>Little-endian byte strings\<close>

definition to_le_bytes :: "nat \<Rightarrow> 'a::len word \<Rightarrow> bytes" where
  "to_le_bytes n w = map (\<lambda>i. ucast (drop_bit (8 * i) w)) [0..<n]"

primrec from_le_bytes :: "bytes \<Rightarrow> 'a::len word" where
  "from_le_bytes [] = 0"
| "from_le_bytes (b # bs) = ucast b OR push_bit 8 (from_le_bytes bs)"

lemma length_to_le_bytes [simp]: "length (to_le_bytes n w) = n"
  by (simp add: to_le_bytes_def)

lemma nth_to_le_bytes: "i < n \<Longrightarrow> to_le_bytes n w ! i = ucast (drop_bit (8 * i) w)"
  by (simp add: to_le_bytes_def)

lemma bit_from_le_bytes:
  "bit (from_le_bytes bs :: 'a::len word) k \<longleftrightarrow>
     k < LENGTH('a) \<and> k < 8 * length bs \<and> bit (bs ! (k div 8)) (k mod 8)"
proof (induction bs arbitrary: k)
  case (Cons b bs)
  show ?case
  proof (cases "k < 8")
    case True
    then show ?thesis by (auto simp: bit_simps)
  next
    case False
    then obtain j where j: "k = 8 + j" by (metis le_Suc_ex not_less)
    have d: "(8 + j) div 8 = Suc (j div 8)" and m: "(8 + j) mod 8 = j mod 8" by simp_all
    show ?thesis using Cons.IH [of j] False
      unfolding j d m by (auto simp: bit_simps dest: bit_imp_le_length)
  qed
qed simp

lemma from_to_le_bytes [simp]:
  fixes w :: "'a::len word"
  assumes "LENGTH('a) \<le> 8 * n"
  shows "from_le_bytes (to_le_bytes n w) = w"
proof (rule bit_word_eqI)
  fix k assume k: "k < LENGTH('a)"
  then have "k div 8 < n" using assms by linarith
  then show "bit (from_le_bytes (to_le_bytes n w) :: 'a word) k = bit w k"
    using k assms by (simp add: bit_from_le_bytes nth_to_le_bytes bit_simps)
qed

lemma to_from_le_bytes:
  assumes "LENGTH('a) = 8 * length bs"
  shows "to_le_bytes (length bs) (from_le_bytes bs :: 'a::len word) = bs"
proof (rule nth_equalityI)
  fix i assume "i < length (to_le_bytes (length bs) (from_le_bytes bs :: 'a word))"
  then have i: "i < length bs" by simp
  have "bit (ucast (drop_bit (8 * i) (from_le_bytes bs :: 'a word)) :: u8) k = bit (bs ! i) k"
    if "k < 8" for k
    using i that assms by (simp add: bit_simps bit_from_le_bytes)
  then have "ucast (drop_bit (8 * i) (from_le_bytes bs :: 'a word)) = bs ! i"
    by (intro bit_word_eqI) simp
  then show "to_le_bytes (length bs) (from_le_bytes bs :: 'a word) ! i = bs ! i"
    using i by (simp add: nth_to_le_bytes)
qed simp

section \<open>Events\<close>

text \<open>An event object is modelled by the list of the values emitted on it, oldest first.\<close>

type_synonym 'a event = "'a list"

definition event_emit :: "'a event \<Rightarrow> 'a \<Rightarrow> 'a event" where
  "event_emit ev x = ev @ [x]"

section \<open>Runs of a component\<close>

text \<open>
  A component is driven by a sequence of inputs; a step may panic (\<open>None\<close>) and otherwise returns
  the new state with what it put out.  A run panics when one of its steps does.
\<close>

primrec run_inputs :: "('i \<Rightarrow> 's \<Rightarrow> ('s \<times> 'o list) option) \<Rightarrow> 'i list \<Rightarrow> 's \<Rightarrow> ('s \<times> 'o list) option" where
  "run_inputs step [] s = Some (s, [])"
| "run_inputs step (i # is) s = do {
     (s1, out1) \<leftarrow> step i s;
     (s2, out2) \<leftarrow> run_inputs step is s1;
     Some (s2, out1 @ out2)
   }"

text \<open>
  The contract a component gives its driver: from a state of the invariant every admissible input
  is handled without a panic, the invariant holds again, and what is put out is acceptable.
\<close>

locale safe_system =
  fixes step :: "'i \<Rightarrow> 's \<Rightarrow> ('s \<times> 'o list) option"
    and inv :: "'s \<Rightarrow> bool"
    and admissible :: "'i \<Rightarrow> bool"
    and acceptable :: "'o \<Rightarrow> bool"
  assumes safe_step: "inv s \<Longrightarrow> admissible i \<Longrightarrow>
    \<exists>s' out. step i s = Some (s', out) \<and> inv s' \<and> (\<forall>x \<in> set out. acceptable x)"
begin

lemma run_safe:
  assumes "inv s" and "\<forall>i \<in> set is. admissible i"
  shows "\<exists>s' out. run_inputs step is s = Some (s', out) \<and> inv s' \<and> (\<forall>x \<in> set out. acceptable x)"
  using assms
proof (induction "is" arbitrary: s)
  case (Cons i "is")
  then obtain s1 out1 where s1: "step i s = Some (s1, out1)" "inv s1" "\<forall>x \<in> set out1. acceptable x"
    using safe_step [of s i] by auto
  then show ?case using Cons.IH [OF s1(2)] Cons.prems by fastforce
qed simp

end

lemma run_inputs_append:
  "run_inputs step (is @ js) s = do {
     (s1, out1) \<leftarrow> run_inputs step is s;
     (s2, out2) \<leftarrow> run_inputs step js s1;
     Some (s2, out1 @ out2)
   }"
  by (induction "is" arbitrary: s) (auto split: bind_splits)

text \<open>
  A timed phase: while the accumulated time stays below the deadline, quiet inputs put out nothing
  and only let time pass.
\<close>

locale timed_phase =
  fixes step :: "'i \<Rightarrow> 's \<Rightarrow> ('s \<times> 'o list) option"
    and phase :: "nat \<Rightarrow> 's \<Rightarrow> bool"
    and quiet :: "'i \<Rightarrow> bool"
    and duration :: "'i \<Rightarrow> nat"
    and deadline :: nat
  assumes phase_step: "phase t s \<Longrightarrow> quiet i \<Longrightarrow> t + duration i < deadline \<Longrightarrow>
    \<exists>s'. step i s = Some (s', []) \<and> phase (t + duration i) s'"
begin

lemma phase_run:
  assumes "phase t s" and "\<forall>i \<in> set is. quiet i" and "t + sum_list (map duration is) < deadline"
  shows "\<exists>s'. run_inputs step is s = Some (s', []) \<and> phase (t + sum_list (map duration is)) s'"
  using assms
proof (induction "is" arbitrary: t s)
  case (Cons i "is")
  then obtain s1 where s1: "step i s = Some (s1, [])" "phase (t + duration i) s1"
    using phase_step [of t s i] by auto
  then show ?case using Cons.IH [OF s1(2)] Cons.prems by (auto simp: add.assoc)
qed simp

end

end
