(* ===== verification/Net_Base.thy ===== *)
theory Net_Base
  imports Prelude
begin

text \<open>
  Scalar types, protocol constants and errors shared by the whole stack
  (src/src/net/types.rs, src/src/net/constants.rs, src/src/net/error.rs), and the interface
  \<open>wire_enum\<close> that every enumeration with a byte encoding satisfies.
\<close>

section \<open>Enumerations with a byte encoding\<close>

locale wire_enum =
  fixes as_byte :: "'e \<Rightarrow> u8"
    and try_from_byte :: "u8 \<Rightarrow> 'e option"
  assumes decode_encode: "try_from_byte (as_byte e) = Some e"
    and encode_decode: "try_from_byte b = Some e \<Longrightarrow> as_byte e = b"
begin

lemma as_byte_inject: "as_byte e = as_byte e' \<longleftrightarrow> e = e'"
  by (metis decode_encode option.inject)

lemma decode_eq_Some_iff: "try_from_byte b = Some e \<longleftrightarrow> as_byte e = b"
  using decode_encode encode_decode by blast

lemma decode_eq_None_iff: "try_from_byte b = None \<longleftrightarrow> b \<notin> range as_byte"
  by (metis decode_encode encode_decode image_iff option.exhaust option.simps(3) rangeI)

end

section \<open>Scalar types\<close>

type_synonym address = u8
type_synonym pgn = u32

datatype priority = Highest | High | AboveNormal | Normal | BelowNormal | Low | Default | Lowest

primrec priority_as_u8 :: "priority \<Rightarrow> u8" where
  "priority_as_u8 Highest = 0"
| "priority_as_u8 High = 1"
| "priority_as_u8 AboveNormal = 2"
| "priority_as_u8 Normal = 3"
| "priority_as_u8 BelowNormal = 4"
| "priority_as_u8 Low = 5"
| "priority_as_u8 Default = 6"
| "priority_as_u8 Lowest = 7"

definition priority_from_u8 :: "u8 \<Rightarrow> priority" where
  "priority_from_u8 value =
     (if value = 0 then Highest else if value = 1 then High else if value = 2 then AboveNormal
      else if value = 3 then Normal else if value = 4 then BelowNormal else if value = 5 then Low
      else if value = 6 then Default else Lowest)"

definition priority_try_from_u8 :: "u8 \<Rightarrow> priority option" where
  "priority_try_from_u8 value =
     (if value = 0 then Some Highest else if value = 1 then Some High
      else if value = 2 then Some AboveNormal else if value = 3 then Some Normal
      else if value = 4 then Some BelowNormal else if value = 5 then Some Low
      else if value = 6 then Some Default else if value = 7 then Some Lowest else None)"

text \<open>The derived order of the Rust enumeration is the order of its discriminants.\<close>

instantiation priority :: linorder
begin

definition less_eq_priority :: "priority \<Rightarrow> priority \<Rightarrow> bool" where
  "less_eq_priority p q = (priority_as_u8 p \<le> priority_as_u8 q)"

definition less_priority :: "priority \<Rightarrow> priority \<Rightarrow> bool" where
  "less_priority p q = (priority_as_u8 p < priority_as_u8 q)"

instance
proof
  fix x y z :: priority
  show "(x < y) = (x \<le> y \<and> \<not> y \<le> x)" by (auto simp: less_eq_priority_def less_priority_def)
  show "x \<le> x" by (simp add: less_eq_priority_def)
  show "x \<le> y \<Longrightarrow> y \<le> z \<Longrightarrow> x \<le> z" by (auto simp: less_eq_priority_def)
  show "x \<le> y \<or> y \<le> x" by (auto simp: less_eq_priority_def)
  assume "x \<le> y" "y \<le> x"
  then have "priority_as_u8 x = priority_as_u8 y" by (auto simp: less_eq_priority_def)
  then show "x = y" by (cases x; cases y) simp_all
qed

end

interpretation priority_wire: wire_enum priority_as_u8 priority_try_from_u8
proof
  fix e show "priority_try_from_u8 (priority_as_u8 e) = Some e"
    by (cases e) (simp_all add: priority_try_from_u8_def)
next
  fix b e assume "priority_try_from_u8 b = Some e"
  then show "priority_as_u8 e = b" by (auto simp: priority_try_from_u8_def split: if_splits)
qed

lemma priority_as_u8_le: "priority_as_u8 p \<le> 7"
  by (cases p) simp_all

lemma priority_from_as_u8 [simp]: "priority_from_u8 (priority_as_u8 p) = p"
  by (cases p) (simp_all add: priority_from_u8_def)

section \<open>Protocol constants\<close>

definition NULL_ADDRESS :: address where "NULL_ADDRESS = 0xFE"
definition BROADCAST_ADDRESS :: address where "BROADCAST_ADDRESS = 0xFF"
definition MAX_ADDRESS :: address where "MAX_ADDRESS = 0xFD"

definition ADDRESS_CLAIM_TIMEOUT_MS :: u32 where "ADDRESS_CLAIM_TIMEOUT_MS = 250"
definition ADDRESS_CLAIM_RTXD_MAX_MS :: u32 where "ADDRESS_CLAIM_RTXD_MAX_MS = 153"
definition TP_TIMEOUT_T1_MS :: u32 where "TP_TIMEOUT_T1_MS = 750"
definition TP_TIMEOUT_T2_MS :: u32 where "TP_TIMEOUT_T2_MS = 1250"
definition TP_TIMEOUT_T3_MS :: u32 where "TP_TIMEOUT_T3_MS = 1250"
definition TP_TIMEOUT_T4_MS :: u32 where "TP_TIMEOUT_T4_MS = 1050"
definition TP_BAM_INTER_PACKET_MS :: u32 where "TP_BAM_INTER_PACKET_MS = 50"

definition CAN_DATA_LENGTH :: u32 where "CAN_DATA_LENGTH = 8"
definition TP_MAX_DATA_LENGTH :: u32 where "TP_MAX_DATA_LENGTH = 1785"
definition ETP_MAX_DATA_LENGTH :: u32 where "ETP_MAX_DATA_LENGTH = 117440505"
definition TP_BYTES_PER_FRAME :: u32 where "TP_BYTES_PER_FRAME = 7"
definition TP_MAX_PACKETS_PER_CTS :: u32 where "TP_MAX_PACKETS_PER_CTS = 16"
definition FAST_PACKET_MAX_DATA :: u32 where "FAST_PACKET_MAX_DATA = 223"

lemmas address_consts = NULL_ADDRESS_def BROADCAST_ADDRESS_def MAX_ADDRESS_def

lemmas timeout_consts = ADDRESS_CLAIM_TIMEOUT_MS_def ADDRESS_CLAIM_RTXD_MAX_MS_def
  TP_TIMEOUT_T1_MS_def TP_TIMEOUT_T2_MS_def TP_TIMEOUT_T3_MS_def TP_TIMEOUT_T4_MS_def
  TP_BAM_INTER_PACKET_MS_def

lemmas limit_consts = CAN_DATA_LENGTH_def TP_MAX_DATA_LENGTH_def ETP_MAX_DATA_LENGTH_def
  TP_BYTES_PER_FRAME_def TP_MAX_PACKETS_PER_CTS_def FAST_PACKET_MAX_DATA_def

section \<open>Errors\<close>

datatype error_code =
    Ok | Timeout | AddressClaimFailed | AddressConflict | TransportAborted | TransportTimeout
  | InvalidPgn | InvalidAddress | InvalidData | BufferOverflow | NotConnected | InvalidState
  | PoolError | PoolValidation | SessionExists | NoResources | DriverError | SocketError
  | InterfaceDown

primrec error_code_as_str :: "error_code \<Rightarrow> string" where
  "error_code_as_str Ok = ''ok''"
| "error_code_as_str Timeout = ''timeout''"
| "error_code_as_str AddressClaimFailed = ''address claim failed''"
| "error_code_as_str AddressConflict = ''address conflict''"
| "error_code_as_str TransportAborted = ''transport aborted''"
| "error_code_as_str TransportTimeout = ''transport timeout''"
| "error_code_as_str InvalidPgn = ''invalid PGN''"
| "error_code_as_str InvalidAddress = ''invalid address''"
| "error_code_as_str InvalidData = ''invalid data''"
| "error_code_as_str BufferOverflow = ''buffer overflow''"
| "error_code_as_str NotConnected = ''not connected''"
| "error_code_as_str InvalidState = ''invalid state''"
| "error_code_as_str PoolError = ''object pool error''"
| "error_code_as_str PoolValidation = ''object pool validation''"
| "error_code_as_str SessionExists = ''session already exists''"
| "error_code_as_str NoResources = ''no resources''"
| "error_code_as_str DriverError = ''driver error''"
| "error_code_as_str SocketError = ''socket error''"
| "error_code_as_str InterfaceDown = ''interface down''"

record net_error =
  err_code :: error_code
  err_message :: string

type_synonym 'a net_result = "net_error + 'a"

text \<open>The upper-case hexadecimal and decimal formatting of the error messages.\<close>

definition digit_char :: "nat \<Rightarrow> char" where
  "digit_char d = (if d < 10 then char_of (48 + d) else char_of (55 + d))"

fun show_base :: "nat \<Rightarrow> nat \<Rightarrow> string" where
  "show_base b n =
     (if b < 2 \<or> n < b then [digit_char n] else show_base b (n div b) @ [digit_char (n mod b)])"

declare show_base.simps [simp del]

definition hex_padded :: "nat \<Rightarrow> nat \<Rightarrow> string" where
  "hex_padded width n =
     (let ds = show_base 16 n in ''0x'' @ replicate (width - length ds) CHR ''0'' @ ds)"

definition error_new :: "error_code \<Rightarrow> net_error" where
  "error_new code = \<lparr>err_code = code, err_message = []\<rparr>"

definition error_with_message :: "error_code \<Rightarrow> string \<Rightarrow> net_error" where
  "error_with_message code msg = \<lparr>err_code = code, err_message = msg\<rparr>"

definition error_timeout :: net_error where
  "error_timeout = error_new Timeout"

definition error_invalid_pgn :: "pgn \<Rightarrow> net_error" where
  "error_invalid_pgn p =
     error_with_message InvalidPgn
       (hex_padded 4 (unat p) @ '' ('' @ show_base 10 (unat p) @ '')'')"

definition error_invalid_address :: "address \<Rightarrow> net_error" where
  "error_invalid_address a = error_with_message InvalidAddress (hex_padded 2 (unat a))"

definition error_not_connected :: net_error where
  "error_not_connected = error_new NotConnected"

definition error_invalid_state :: "string \<Rightarrow> net_error" where
  "error_invalid_state msg = error_with_message InvalidState msg"

definition error_invalid_data :: "string \<Rightarrow> net_error" where
  "error_invalid_data msg = error_with_message InvalidData msg"

definition error_transport_aborted :: "string \<Rightarrow> net_error" where
  "error_transport_aborted msg = error_with_message TransportAborted msg"

definition error_buffer_overflow :: net_error where
  "error_buffer_overflow = error_new BufferOverflow"

definition error_driver_error :: "string \<Rightarrow> net_error" where
  "error_driver_error msg = error_with_message DriverError msg"

definition error_socket_error :: "string \<Rightarrow> net_error" where
  "error_socket_error msg = error_with_message SocketError msg"

lemmas error_defs = error_new_def error_with_message_def error_timeout_def error_invalid_pgn_def
  error_invalid_address_def error_not_connected_def error_invalid_state_def error_invalid_data_def
  error_transport_aborted_def error_buffer_overflow_def error_driver_error_def
  error_socket_error_def

lemma error_codes [simp]:
  "err_code error_timeout = Timeout"
  "err_code (error_invalid_pgn p) = InvalidPgn"
  "err_code (error_invalid_address a) = InvalidAddress"
  "err_code error_not_connected = NotConnected"
  "err_code (error_invalid_state m) = InvalidState"
  "err_code (error_invalid_data m) = InvalidData"
  "err_code (error_transport_aborted m) = TransportAborted"
  "err_code error_buffer_overflow = BufferOverflow"
  "err_code (error_driver_error m) = DriverError"
  "err_code (error_socket_error m) = SocketError"
  "err_code (error_with_message c m) = c"
  by (simp_all add: error_defs)

end
