(* ===== verification/Can_Identifier.thy ===== *)
theory Can_Identifier
  imports Net_Base
begin

text \<open>
  Parameter group numbers and the 29-bit extended CAN identifier
  (src/src/net/pgn.rs, src/src/net/identifier.rs, with the group numbers the modelled code names
  from src/src/net/pgn_defs.rs). The lemmas give the identifier bit by bit and show that encoding
  and the accessors are inverse to each other.
\<close>

section \<open>Parameter group numbers\<close>

definition PGN_REQUEST :: pgn where "PGN_REQUEST = 0xEA00"
definition PGN_ADDRESS_CLAIMED :: pgn where "PGN_ADDRESS_CLAIMED = 0xEE00"
definition PGN_TP_CM :: pgn where "PGN_TP_CM = 0xEC00"
definition PGN_TP_DT :: pgn where "PGN_TP_DT = 0xEB00"

lemmas pgn_consts = PGN_REQUEST_def PGN_ADDRESS_CLAIMED_def PGN_TP_CM_def PGN_TP_DT_def

definition pgn_pdu_format :: "pgn \<Rightarrow> u8" where
  "pgn_pdu_format p = ucast (drop_bit 8 p AND 0xFF)"

definition pgn_is_pdu2 :: "pgn \<Rightarrow> bool" where
  "pgn_is_pdu2 p = (240 \<le> pgn_pdu_format p)"

definition pgn_is_valid :: "pgn \<Rightarrow> bool" where
  "pgn_is_valid p = (p \<le> 0x3FFFF)"

definition pgn_normalize :: "pgn \<Rightarrow> pgn" where
  "pgn_normalize p = (if pgn_pdu_format p < 240 then p AND NOT 0xFF else p)"

section \<open>Identifier\<close>

record can_identifier =
  raw :: u32

definition id_from_raw :: "u32 \<Rightarrow> can_identifier" where
  "id_from_raw i = \<lparr>raw = i AND 0x1FFFFFFF\<rparr>"

definition id_encode :: "priority \<Rightarrow> pgn \<Rightarrow> address \<Rightarrow> address \<Rightarrow> can_identifier" where
  "id_encode prio p0 src dst =
     (let p = pgn_normalize p0;
          i0 = push_bit 26 (ucast (priority_as_u8 prio) AND 0x07);
          edp = drop_bit 17 p AND 0x01;
          dp = drop_bit 16 p AND 0x01;
          pf = drop_bit 8 p AND 0xFF;
          ps = p AND 0xFF;
          i1 = i0 OR push_bit 25 edp OR push_bit 24 dp OR push_bit 16 pf;
          i2 = (if pf < 240 then i1 OR push_bit 8 (ucast dst) else i1 OR push_bit 8 ps);
          i3 = i2 OR ucast src
      in id_from_raw i3)"

definition id_try_encode :: "priority \<Rightarrow> pgn \<Rightarrow> address \<Rightarrow> address \<Rightarrow> can_identifier net_result" where
  "id_try_encode prio p src dst =
     (if \<not> pgn_is_valid p
      then Inl (error_invalid_data (''identifier PGN '' @ hex_padded 0 (unat p) @
             '' exceeds the 18-bit J1939/ISOBUS PGN range''))
      else Inr (id_encode prio p src dst))"

definition id_encode_default :: "pgn \<Rightarrow> address \<Rightarrow> can_identifier" where
  "id_encode_default p src = id_encode Default p src BROADCAST_ADDRESS"

definition id_try_encode_default :: "pgn \<Rightarrow> address \<Rightarrow> can_identifier net_result" where
  "id_try_encode_default p src = id_try_encode Default p src BROADCAST_ADDRESS"

definition id_priority :: "can_identifier \<Rightarrow> priority" where
  "id_priority i = priority_from_u8 (ucast (drop_bit 26 (raw i) AND 0x07))"

definition id_pdu_format :: "can_identifier \<Rightarrow> u8" where
  "id_pdu_format i = ucast (drop_bit 16 (raw i) AND 0xFF)"

definition id_pdu_specific :: "can_identifier \<Rightarrow> u8" where
  "id_pdu_specific i = ucast (drop_bit 8 (raw i) AND 0xFF)"

definition id_source :: "can_identifier \<Rightarrow> address" where
  "id_source i = ucast (raw i AND 0xFF)"

definition id_data_page :: "can_identifier \<Rightarrow> bool" where
  "id_data_page i = (drop_bit 24 (raw i) AND 0x01 \<noteq> 0)"

definition id_extended_data_page :: "can_identifier \<Rightarrow> bool" where
  "id_extended_data_page i = (drop_bit 25 (raw i) AND 0x01 \<noteq> 0)"

definition id_is_pdu2 :: "can_identifier \<Rightarrow> bool" where
  "id_is_pdu2 i = (240 \<le> id_pdu_format i)"

definition id_pgn :: "can_identifier \<Rightarrow> pgn" where
  "id_pgn i =
     (let dp = drop_bit 24 (raw i) AND 0x01;
          edp = drop_bit 25 (raw i) AND 0x01;
          pf = ucast (id_pdu_format i) :: u32
      in if pf < 240 then push_bit 17 edp OR push_bit 16 dp OR push_bit 8 pf
         else push_bit 17 edp OR push_bit 16 dp OR push_bit 8 pf OR ucast (id_pdu_specific i))"

definition id_destination :: "can_identifier \<Rightarrow> address" where
  "id_destination i = (if id_is_pdu2 i then BROADCAST_ADDRESS else id_pdu_specific i)"

definition id_is_broadcast :: "can_identifier \<Rightarrow> bool" where
  "id_is_broadcast i = (id_is_pdu2 i \<or> id_destination i = BROADCAST_ADDRESS)"

section \<open>The identifier bit by bit\<close>

text \<open>The literal masks of the source as \<open>mask\<close>s, which the bit lemmas evaluate.\<close>

lemma mask_literals:
  "(0x01 :: 'a::len word) = mask 1" "(0x07 :: 'a word) = mask 3" "(0xFF :: 'a word) = mask 8"
  "(0x1FFFFFFF :: 'a word) = mask 29" "(0x3FFFF :: 'a word) = mask 18"
  by (simp_all add: mask_eq_exp_minus_1)

lemma bit_priority_as_u8: "bit (priority_as_u8 p) k \<Longrightarrow> k < 3"
proof -
  assume b: "bit (priority_as_u8 p) k"
  have "priority_as_u8 p = priority_as_u8 p AND mask 3"
    by (cases p) (simp_all add: mask_eq_exp_minus_1)
  with b show ?thesis by (metis bit_and_iff bit_mask_iff)
qed

lemma bit_u8: "bit (b :: u8) k \<Longrightarrow> k < 8"
  using bit_imp_le_length [of b k] by simp

lemma pdu_format_word: "(drop_bit 8 p AND 0xFF :: u32) < 240 \<longleftrightarrow> pgn_pdu_format p < 240"
proof -
  have "unat (drop_bit 8 p AND mask 8 :: u32) < 256"
    using and_mask_less' [of 8 "drop_bit 8 p"] by (simp add: word_less_nat_alt)
  then have "unat (ucast (drop_bit 8 p AND mask 8) :: u8) = unat (drop_bit 8 p AND mask 8)"
    by (simp add: unsigned_ucast_eq take_bit_nat_eq_self_iff)
  then show ?thesis
    unfolding pgn_pdu_format_def mask_literals by (simp add: word_less_nat_alt)
qed

lemma bit_pgn_normalize:
  "bit (pgn_normalize p) k \<longleftrightarrow> bit p k \<and> (8 \<le> k \<or> pgn_is_pdu2 p)"
  unfolding pgn_normalize_def pgn_is_pdu2_def mask_literals
  by (auto simp: bit_simps not_less dest: bit_imp_le_length)

lemma pgn_pdu_format_normalize [simp]: "pgn_pdu_format (pgn_normalize p) = pgn_pdu_format p"
  unfolding pgn_pdu_format_def mask_literals
  by (rule bit_word_eqI) (auto simp: bit_simps bit_pgn_normalize)

lemma pgn_is_pdu2_normalize [simp]: "pgn_is_pdu2 (pgn_normalize p) = pgn_is_pdu2 p"
  by (simp add: pgn_is_pdu2_def)

lemma pgn_normalize_idem [simp]: "pgn_normalize (pgn_normalize p) = pgn_normalize p"
  by (rule bit_word_eqI) (simp add: bit_pgn_normalize)

lemma bit_raw_encode:
  "bit (raw (id_encode prio p src dst)) k \<longleftrightarrow>
     (k < 8 \<and> bit src k)
   \<or> (8 \<le> k \<and> k < 16 \<and> (if pgn_is_pdu2 p then bit p (k - 8) else bit dst (k - 8)))
   \<or> (16 \<le> k \<and> k < 26 \<and> bit p (k - 8))
   \<or> (26 \<le> k \<and> bit (priority_as_u8 prio) (k - 26))"
proof -
  have pf: "(drop_bit 8 (pgn_normalize p) AND 0xFF :: u32) < 240 \<longleftrightarrow> \<not> pgn_is_pdu2 p"
    by (simp only: pdu_format_word) (simp add: pgn_is_pdu2_def not_le)
  have eq: "raw (id_encode prio p src dst) =
      take_bit 29 (push_bit 26 (take_bit 3 (ucast (priority_as_u8 prio)))
        OR push_bit 25 (take_bit 1 (drop_bit 17 (pgn_normalize p)))
        OR push_bit 24 (take_bit 1 (drop_bit 16 (pgn_normalize p)))
        OR push_bit 16 (take_bit 8 (drop_bit 8 (pgn_normalize p)))
        OR push_bit 8 (if pgn_is_pdu2 p then take_bit 8 (pgn_normalize p) else ucast dst)
        OR ucast src)"
    unfolding id_encode_def Let_def pf
    unfolding id_from_raw_def mask_literals take_bit_eq_mask
    by (cases "pgn_is_pdu2 p")
      (simp_all only: if_True if_False simp_thms or.assoc can_identifier.simps)
  have "k < 8 \<or> 8 \<le> k \<and> k < 16 \<or> 16 \<le> k \<and> k < 24 \<or> k = 24 \<or> k = 25 \<or> 26 \<le> k \<and> k < 29 \<or> 29 \<le> k"
    by linarith
  then show ?thesis
    unfolding eq
    by (elim disjE; cases "pgn_is_pdu2 p")
      (auto simp: bit_simps bit_pgn_normalize simp flip: bit_iff_odd_drop_bit
        dest: bit_priority_as_u8 bit_u8)
qed

section \<open>Encoding and accessors\<close>

lemma id_source_encode [simp]: "id_source (id_encode prio p src dst) = src"
  unfolding id_source_def mask_literals
  by (rule bit_word_eqI) (auto simp: bit_simps bit_raw_encode)

lemma id_pdu_format_encode [simp]: "id_pdu_format (id_encode prio p src dst) = pgn_pdu_format p"
  unfolding id_pdu_format_def pgn_pdu_format_def mask_literals
  by (rule bit_word_eqI) (auto simp: bit_simps bit_raw_encode)

lemma id_is_pdu2_encode [simp]: "id_is_pdu2 (id_encode prio p src dst) = pgn_is_pdu2 p"
  by (simp add: id_is_pdu2_def pgn_is_pdu2_def)

lemma id_pdu_specific_encode:
  "id_pdu_specific (id_encode prio p src dst) = (if pgn_is_pdu2 p then ucast p else dst)"
  unfolding id_pdu_specific_def mask_literals
  by (rule bit_word_eqI) (auto simp: bit_simps bit_raw_encode)

lemma id_destination_encode [simp]:
  "id_destination (id_encode prio p src dst) = (if pgn_is_pdu2 p then BROADCAST_ADDRESS else dst)"
  by (simp add: id_destination_def id_pdu_specific_encode)

lemma id_priority_encode [simp]: "id_priority (id_encode prio p src dst) = prio"
proof -
  have "ucast (drop_bit 26 (raw (id_encode prio p src dst)) AND 0x07) = priority_as_u8 prio"
    unfolding mask_literals
    by (rule bit_word_eqI) (auto simp: bit_simps bit_raw_encode dest: bit_priority_as_u8)
  then show ?thesis by (simp add: id_priority_def)
qed

lemma ucast_pdu_format_less: "(ucast (f :: u8) :: u32) < 240 \<longleftrightarrow> f < 240"
  by (simp add: word_less_nat_alt)

lemma bit_id_pgn:
  "bit (id_pgn i) k \<longleftrightarrow> k < 18 \<and> bit (raw i) (k + 8) \<and> (8 \<le> k \<or> id_is_pdu2 i)"
proof -
  have eq: "id_pgn i = push_bit 17 (take_bit 1 (drop_bit 25 (raw i)))
      OR push_bit 16 (take_bit 1 (drop_bit 24 (raw i)))
      OR push_bit 8 (ucast (id_pdu_format i))
      OR (if id_is_pdu2 i then ucast (id_pdu_specific i) else 0)"
    unfolding id_pgn_def Let_def ucast_pdu_format_less id_is_pdu2_def not_less [symmetric]
    unfolding mask_literals take_bit_eq_mask
    by (cases "id_pdu_format i < 240") (simp_all only: if_True if_False simp_thms or.assoc or.right_neutral)
  have "k < 8 \<or> 8 \<le> k \<and> k < 16 \<or> k = 16 \<or> k = 17 \<or> 18 \<le> k" by linarith
  then show ?thesis
    unfolding eq id_pdu_format_def id_pdu_specific_def mask_literals
    by (elim disjE) (auto simp: bit_simps ac_simps simp flip: bit_iff_odd_drop_bit)
qed

lemma bit_pgn_valid: "pgn_is_valid p \<longleftrightarrow> (\<forall>k. bit p k \<longrightarrow> k < 18)"
proof
  assume "pgn_is_valid p"
  then have "p < 2 ^ 18" by (simp add: pgn_is_valid_def word_le_nat_alt word_less_nat_alt)
  then have "take_bit 18 p = p" by (simp add: less_mask_eq take_bit_eq_mask)
  then show "\<forall>k. bit p k \<longrightarrow> k < 18" by (metis bit_take_bit_iff)
next
  assume "\<forall>k. bit p k \<longrightarrow> k < 18"
  then have "take_bit 18 p = p" by (intro bit_word_eqI) (auto simp: bit_simps)
  then have "p \<le> mask 18" by (metis take_bit_eq_mask word_and_le1)
  then show "pgn_is_valid p" unfolding pgn_is_valid_def mask_literals .
qed

lemma id_pgn_valid [simp]: "pgn_is_valid (id_pgn i)"
  by (simp add: bit_pgn_valid bit_id_pgn)

lemma id_pgn_encode:
  assumes "pgn_is_valid p"
  shows "id_pgn (id_encode prio p src dst) = pgn_normalize p"
proof (rule bit_word_eqI)
  fix k :: nat assume "k < LENGTH(32)"
  show "bit (id_pgn (id_encode prio p src dst)) k = bit (pgn_normalize p) k"
    using assms bit_pgn_valid [of p]
    by (auto simp: bit_id_pgn bit_raw_encode bit_pgn_normalize)
qed

text \<open>A frame built for a destination-specific group reports exactly the destination it was given.\<close>

lemma pdu1_consts [simp]:
  "\<not> pgn_is_pdu2 PGN_TP_CM" "\<not> pgn_is_pdu2 PGN_TP_DT"
  "\<not> pgn_is_pdu2 PGN_REQUEST" "\<not> pgn_is_pdu2 PGN_ADDRESS_CLAIMED"
  by (simp_all add: pgn_is_pdu2_def pgn_pdu_format_def pgn_consts)

lemma pgn_consts_valid [simp]:
  "pgn_is_valid PGN_TP_CM" "pgn_is_valid PGN_TP_DT"
  "pgn_is_valid PGN_REQUEST" "pgn_is_valid PGN_ADDRESS_CLAIMED"
  by (simp_all add: pgn_is_valid_def pgn_consts)

lemma pgn_normalize_consts [simp]:
  "pgn_normalize PGN_TP_CM = PGN_TP_CM" "pgn_normalize PGN_TP_DT = PGN_TP_DT"
  "pgn_normalize PGN_REQUEST = PGN_REQUEST" "pgn_normalize PGN_ADDRESS_CLAIMED = PGN_ADDRESS_CLAIMED"
  by (simp_all add: pgn_normalize_def pgn_pdu_format_def pgn_consts)

lemma id_is_broadcast_encode:
  "id_is_broadcast (id_encode prio p src dst) \<longleftrightarrow> pgn_is_pdu2 p \<or> dst = BROADCAST_ADDRESS"
  by (auto simp: id_is_broadcast_def)

text \<open>Two of the accessors read back whatever 29 bits arrive on the bus.\<close>

lemma bit_raw_from_raw: "bit (raw (id_from_raw w)) k \<longleftrightarrow> bit w k \<and> k < 29"
  unfolding id_from_raw_def mask_literals by (auto simp: bit_simps)

lemma bit_priority_as_u8_id: "bit (priority_as_u8 (id_priority i)) k \<longleftrightarrow> k < 3 \<and> bit (raw i) (26 + k)"
proof -
  define b :: u8 where "b = ucast (drop_bit 26 (raw i) AND 0x07)"
  have "b \<le> 7"
  proof -
    have "b = b AND mask 3" unfolding b_def mask_literals
      by (rule bit_word_eqI) (auto simp: bit_simps)
    then show ?thesis by (metis mask_literals(2) word_and_le1)
  qed
  then have "priority_as_u8 (priority_from_u8 b) = b"
    by (auto simp: priority_from_u8_def word_le_nat_alt word_unat_eq_iff split: if_splits)
  then show ?thesis
    by (simp add: id_priority_def flip: b_def)
      (unfold b_def mask_literals, auto simp: bit_simps ac_simps)
qed

lemma id_encode_decode:
  assumes "raw i \<le> 0x1FFFFFFF"
  shows "id_encode (id_priority i) (id_pgn i) (id_source i) (id_destination i) = i"
proof -
  have "raw i < 2 ^ 29" using assms by (simp add: word_le_nat_alt word_less_nat_alt)
  then have "raw i = raw i AND mask 29" by (simp add: less_mask_eq)
  then have top: "bit (raw i) k \<Longrightarrow> k < 29" for k by (metis bit_and_iff bit_mask_iff)
  have pdu2: "pgn_is_pdu2 (id_pgn i) = id_is_pdu2 i"
  proof -
    have "pgn_pdu_format (id_pgn i) = id_pdu_format i"
      unfolding pgn_pdu_format_def id_pdu_format_def mask_literals
      by (rule bit_word_eqI) (auto simp: bit_simps bit_id_pgn ac_simps)
    then show ?thesis by (simp add: pgn_is_pdu2_def id_is_pdu2_def)
  qed
  have src: "bit (id_source i) k = bit (raw i) k" if "k < 8" for k
    using that unfolding id_source_def mask_literals by (auto simp: bit_simps)
  have ps: "bit (id_pdu_specific i) k = bit (raw i) (8 + k)" if "k < 8" for k
    using that unfolding id_pdu_specific_def mask_literals by (auto simp: bit_simps)
  have "bit (raw (id_encode (id_priority i) (id_pgn i) (id_source i) (id_destination i))) k
      = bit (raw i) k" for k
  proof -
    have "k < 8 \<or> 8 \<le> k \<and> k < 16 \<or> 16 \<le> k \<and> k < 26 \<or> 26 \<le> k \<and> k < 29 \<or> 29 \<le> k" by linarith
    then show ?thesis
      using top [of k] src [of k] ps [of "k - 8"]
      by (elim disjE)
        (auto simp: bit_raw_encode pdu2 bit_id_pgn bit_priority_as_u8_id id_destination_def)
  qed
  then have "raw (id_encode (id_priority i) (id_pgn i) (id_source i) (id_destination i)) = raw i"
    by (intro bit_word_eqI) simp
  then show ?thesis by simp
qed

section \<open>Properties\<close>

text \<open>C17: Encoding then decoding a 29-bit identifier returns what was encoded: the priority and the
  source unchanged, the canonical form of a valid PGN, and the destination for a PDU1 PGN or the
  broadcast address for a PDU2 one.\<close>

theorem identifier_encode_then_decode:
  assumes "pgn_is_valid p"
  shows "id_priority (id_encode prio p src dst) = prio \<and> id_source (id_encode prio p src dst) = src
    \<and> id_pgn (id_encode prio p src dst) = pgn_normalize p
    \<and> id_destination (id_encode prio p src dst) = (if pgn_is_pdu2 p then BROADCAST_ADDRESS else dst)"
  using assms by (simp add: id_pgn_encode)

theorem identifier_encode_then_decode_witness:
  "id_pgn (id_encode Low 0x1EF12 0x80 0x26) = 0x1EF00
   \<and> id_destination (id_encode Low 0x1EF12 0x80 0x26) = 0x26"
  using identifier_encode_then_decode [of "0x1EF12" Low "0x80" "0x26"]
  by (simp add: pgn_is_valid_def pgn_normalize_def pgn_is_pdu2_def pgn_pdu_format_def)

text \<open>Decoding then encoding is the identity on the 29-bit identifiers of the bus: no
  identifier is lost and two different ones are told apart by priority, PGN, source and
  destination.\<close>

theorem identifier_decode_then_encode:
  assumes "raw i \<le> 0x1FFFFFFF"
  shows "id_encode (id_priority i) (id_pgn i) (id_source i) (id_destination i) = i"
  using assms by (rule id_encode_decode)

theorem identifier_decode_then_encode_witness:
  "id_encode (id_priority \<lparr>raw = 0x18EA2680\<rparr>) (id_pgn \<lparr>raw = 0x18EA2680\<rparr>)
     (id_source \<lparr>raw = 0x18EA2680\<rparr>) (id_destination \<lparr>raw = 0x18EA2680\<rparr>) = \<lparr>raw = 0x18EA2680\<rparr>"
  using identifier_decode_then_encode [of "\<lparr>raw = 0x18EA2680\<rparr>"] by simp

end
