(* ===== verification/Pgn_Table.thy ===== *)
theory Pgn_Table
  imports Can_Identifier
begin

text \<open>
  The static PGN metadata table and its lookup (src/src/net/pgn.rs), over the PGN constants of
  src/src/net/pgn_defs.rs that it names.
\<close>

section \<open>PGN constants\<close>

definition PGN_COMMANDED_ADDRESS :: pgn where "PGN_COMMANDED_ADDRESS = 0xFED8"
definition PGN_ETP_CM :: pgn where "PGN_ETP_CM = 0xC800"
definition PGN_ETP_DT :: pgn where "PGN_ETP_DT = 0xC700"
definition PGN_ACKNOWLEDGMENT :: pgn where "PGN_ACKNOWLEDGMENT = 0xE800"
definition PGN_DM1 :: pgn where "PGN_DM1 = 0xFECA"
definition PGN_DM2 :: pgn where "PGN_DM2 = 0xFECB"
definition PGN_DM3 :: pgn where "PGN_DM3 = 0xFECC"
definition PGN_DM11 :: pgn where "PGN_DM11 = 0xFED3"
definition PGN_HEARTBEAT :: pgn where "PGN_HEARTBEAT = 0xF0E4"
definition PGN_TIME_DATE :: pgn where "PGN_TIME_DATE = 0xFEE6"
definition PGN_VEHICLE_SPEED :: pgn where "PGN_VEHICLE_SPEED = 0xFEF1"
definition PGN_WHEEL_SPEED :: pgn where "PGN_WHEEL_SPEED = 0xFE48"
definition PGN_GROUND_SPEED :: pgn where "PGN_GROUND_SPEED = 0xFE49"
definition PGN_MACHINE_SPEED :: pgn where "PGN_MACHINE_SPEED = 0xF022"
definition PGN_LANGUAGE_COMMAND :: pgn where "PGN_LANGUAGE_COMMAND = 0xFE0F"
definition PGN_MAINTAIN_POWER :: pgn where "PGN_MAINTAIN_POWER = 0xFE47"
definition PGN_SHORTCUT_BUTTON :: pgn where "PGN_SHORTCUT_BUTTON = 0xFD02"
definition PGN_VT_TO_ECU :: pgn where "PGN_VT_TO_ECU = 0xE600"
definition PGN_ECU_TO_VT :: pgn where "PGN_ECU_TO_VT = 0xE700"
definition PGN_TC_TO_ECU :: pgn where "PGN_TC_TO_ECU = 0xCB00"
definition PGN_ECU_TO_TC :: pgn where "PGN_ECU_TO_TC = 0xCC00"
definition PGN_WORKING_SET_MASTER :: pgn where "PGN_WORKING_SET_MASTER = 0xFE0D"
definition PGN_GNSS_POSITION :: pgn where "PGN_GNSS_POSITION = 129025"
definition PGN_GNSS_COG_SOG :: pgn where "PGN_GNSS_COG_SOG = 129026"
definition PGN_GNSS_POSITION_DETAIL :: pgn where "PGN_GNSS_POSITION_DETAIL = 129029"

lemmas pgn_table_consts = PGN_REQUEST_def PGN_ADDRESS_CLAIMED_def PGN_TP_CM_def PGN_TP_DT_def
  PGN_COMMANDED_ADDRESS_def PGN_ETP_CM_def PGN_ETP_DT_def PGN_ACKNOWLEDGMENT_def
  PGN_DM1_def PGN_DM2_def PGN_DM3_def PGN_DM11_def
  PGN_HEARTBEAT_def PGN_TIME_DATE_def PGN_VEHICLE_SPEED_def PGN_WHEEL_SPEED_def
  PGN_GROUND_SPEED_def PGN_MACHINE_SPEED_def PGN_LANGUAGE_COMMAND_def PGN_MAINTAIN_POWER_def
  PGN_SHORTCUT_BUTTON_def PGN_VT_TO_ECU_def PGN_ECU_TO_VT_def PGN_TC_TO_ECU_def
  PGN_ECU_TO_TC_def PGN_WORKING_SET_MASTER_def PGN_GNSS_POSITION_def PGN_GNSS_COG_SOG_def
  PGN_GNSS_POSITION_DETAIL_def

section \<open>The table\<close>

record pgn_info =
  pi_pgn :: pgn
  pi_name :: string
  pi_data_length :: u32
  pi_default_priority :: u32
  pi_is_broadcast :: bool

abbreviation (input) pgn_entry :: "pgn \<Rightarrow> string \<Rightarrow> u32 \<Rightarrow> u32 \<Rightarrow> bool \<Rightarrow> pgn_info" where
  "pgn_entry p nm len prio bc \<equiv> \<lparr>pi_pgn = p, pi_name = nm, pi_data_length = len,
     pi_default_priority = prio, pi_is_broadcast = bc\<rparr>"

definition PGN_TABLE_head :: "pgn_info list" where
  "PGN_TABLE_head = [pgn_entry PGN_REQUEST ''Request'' 3 6 False,
    pgn_entry PGN_ADDRESS_CLAIMED ''Address Claimed'' 8 6 True,
    pgn_entry PGN_COMMANDED_ADDRESS ''Commanded Address'' 9 6 False,
    pgn_entry PGN_TP_CM ''TP.CM'' 8 7 False,
    pgn_entry PGN_TP_DT ''TP.DT'' 8 7 False,
    pgn_entry PGN_ETP_CM ''ETP.CM'' 8 7 False,
    pgn_entry PGN_ETP_DT ''ETP.DT'' 8 7 False,
    pgn_entry PGN_ACKNOWLEDGMENT ''Acknowledgment'' 8 6 False,
    pgn_entry PGN_DM1 ''DM1'' 0 6 True,
    pgn_entry PGN_DM2 ''DM2'' 0 6 True,
    pgn_entry PGN_DM3 ''DM3'' 0 6 True,
    pgn_entry PGN_DM11 ''DM11'' 8 6 True,
    pgn_entry PGN_HEARTBEAT ''Heartbeat'' 1 6 True,
    pgn_entry PGN_TIME_DATE ''Time/Date'' 8 6 True,
    pgn_entry PGN_VEHICLE_SPEED ''Vehicle Speed'' 8 6 True,
    pgn_entry PGN_WHEEL_SPEED ''Wheel Speed'' 8 6 True,
    pgn_entry PGN_GROUND_SPEED ''Ground Speed'' 8 6 True]"

definition PGN_TABLE_tail :: "pgn_info list" where
  "PGN_TABLE_tail = [pgn_entry PGN_MACHINE_SPEED ''Machine Speed'' 8 6 True,
    pgn_entry PGN_LANGUAGE_COMMAND ''Language Command'' 8 6 True,
    pgn_entry PGN_MAINTAIN_POWER ''Maintain Power'' 8 6 True,
    pgn_entry PGN_SHORTCUT_BUTTON ''Shortcut Button'' 8 6 True,
    pgn_entry PGN_VT_TO_ECU ''VT to ECU'' 8 6 False,
    pgn_entry PGN_ECU_TO_VT ''ECU to VT'' 8 6 False,
    pgn_entry PGN_TC_TO_ECU ''TC to ECU'' 8 6 False,
    pgn_entry PGN_ECU_TO_TC ''ECU to TC'' 8 6 False,
    pgn_entry PGN_WORKING_SET_MASTER ''Working Set Master'' 8 6 True,
    pgn_entry PGN_GNSS_POSITION ''GNSS Position Rapid'' 8 2 True,
    pgn_entry PGN_GNSS_COG_SOG ''GNSS COG/SOG'' 8 2 True,
    pgn_entry PGN_GNSS_POSITION_DETAIL ''GNSS Position Data'' 0 6 True]"

definition PGN_TABLE :: "pgn_info list" where
  "PGN_TABLE = PGN_TABLE_head @ PGN_TABLE_tail"

definition pgn_lookup :: "pgn \<Rightarrow> pgn_info option" where
  "pgn_lookup p = List.find (\<lambda>info. pi_pgn info = p) PGN_TABLE"

lemmas pgn_table_defs = PGN_TABLE_def PGN_TABLE_head_def PGN_TABLE_tail_def

lemma find_distinct_key:
  "distinct (map f xs) \<Longrightarrow> x \<in> set xs \<Longrightarrow> List.find (\<lambda>y. f y = f x) xs = Some x"
  by (induction xs) auto

lemma distinct_pgn_table: "distinct (map pi_pgn PGN_TABLE)"
  by (simp add: pgn_table_defs pgn_table_consts)

lemma pgn_table_entries:
  "list_all (\<lambda>info. pgn_is_valid (pi_pgn info) \<and> pgn_normalize (pi_pgn info) = pi_pgn info
     \<and> pi_default_priority info \<le> 7 \<and> pi_data_length info \<le> 9) PGN_TABLE"
  by (simp add: pgn_table_defs pgn_table_consts pgn_is_valid_def pgn_normalize_def pgn_pdu_format_def)

section \<open>Properties\<close>

text \<open>C24: The PGN table is a map keyed by PGN: looking up the PGN of any entry returns that entry,
  and every entry is a valid canonical PGN with a CAN priority.\<close>

theorem pgn_lookup_complete:
  assumes "info \<in> set PGN_TABLE"
  shows "pgn_lookup (pi_pgn info) = Some info \<and> pgn_is_valid (pi_pgn info)
    \<and> pgn_normalize (pi_pgn info) = pi_pgn info \<and> pi_default_priority info \<le> 7"
  using assms find_distinct_key [OF distinct_pgn_table assms] pgn_table_entries
  by (auto simp: pgn_lookup_def list_all_iff)

theorem pgn_lookup_complete_witness:
  "pgn_lookup PGN_TP_CM = Some (pgn_entry PGN_TP_CM ''TP.CM'' 8 7 False)"
  using pgn_lookup_complete [of "pgn_entry PGN_TP_CM ''TP.CM'' 8 7 False"]
  by (simp add: pgn_table_defs)

end
