(* ===== verification/Timers.thy ===== *)
theory Timers
  imports Prelude
begin

text \<open>
  Polled timers (src/src/net/timer.rs): the periodic \<open>Timer\<close> and the one-shot \<open>Timeout\<close>.
  Updates return the fired flag with the new timer.  The run functions fold a sequence of polls;
  the lemmas count what a run fires.  \<open>Timer::progress\<close> (an \<open>f32\<close> quotient) is not modelled.
\<close>

section \<open>The periodic timer\<close>

record timer =
  tm_interval_ms :: u32
  tm_elapsed_ms :: u32
  tm_running :: bool
  tm_auto_reset :: bool

definition timer_new :: "u32 \<Rightarrow> bool \<Rightarrow> timer" where
  "timer_new interval auto =
     \<lparr>tm_interval_ms = interval, tm_elapsed_ms = 0, tm_running = False, tm_auto_reset = auto\<rparr>"

definition timer_set_interval :: "timer \<Rightarrow> u32 \<Rightarrow> timer" where
  "timer_set_interval t ms = t\<lparr>tm_interval_ms := ms\<rparr>"

definition timer_start :: "timer \<Rightarrow> timer" where
  "timer_start t = t\<lparr>tm_running := True, tm_elapsed_ms := 0\<rparr>"

definition timer_stop :: "timer \<Rightarrow> timer" where
  "timer_stop t = t\<lparr>tm_running := False\<rparr>"

definition timer_reset :: "timer \<Rightarrow> timer" where
  "timer_reset t = t\<lparr>tm_elapsed_ms := 0\<rparr>"

definition timer_update :: "timer \<Rightarrow> u32 \<Rightarrow> bool \<times> timer" where
  "timer_update t delta =
     (if \<not> tm_running t \<or> tm_interval_ms t = 0 then (False, t)
      else
        let e = saturating_add (tm_elapsed_ms t) delta
        in if tm_interval_ms t \<le> e
           then (True, if tm_auto_reset t then t\<lparr>tm_elapsed_ms := e - tm_interval_ms t\<rparr>
                       else t\<lparr>tm_elapsed_ms := e, tm_running := False\<rparr>)
           else (False, t\<lparr>tm_elapsed_ms := e\<rparr>))"

definition timer_remaining :: "timer \<Rightarrow> u32" where
  "timer_remaining t =
     (if \<not> tm_running t \<or> tm_interval_ms t \<le> tm_elapsed_ms t then 0
      else tm_interval_ms t - tm_elapsed_ms t)"

definition timer_expired :: "timer \<Rightarrow> bool" where
  "timer_expired t = (tm_running t \<and> tm_interval_ms t \<le> tm_elapsed_ms t)"

text \<open>The number of polls that fire in a run of updates, and the timer after it.\<close>

primrec timer_run :: "timer \<Rightarrow> u32 list \<Rightarrow> nat \<times> timer" where
  "timer_run t [] = (0, t)"
| "timer_run t (d # ds) =
     (let (fired, t') = timer_update t d; (n, t'') = timer_run t' ds
      in ((if fired then 1 else 0) + n, t''))"

section \<open>The one-shot timeout\<close>

record timeout =
  to_timeout_ms :: u32
  to_elapsed_ms :: u32
  to_active :: bool

definition timeout_new :: "u32 \<Rightarrow> timeout" where
  "timeout_new ms = \<lparr>to_timeout_ms = ms, to_elapsed_ms = 0, to_active = False\<rparr>"

definition timeout_start_with :: "timeout \<Rightarrow> u32 \<Rightarrow> timeout" where
  "timeout_start_with t ms = t\<lparr>to_timeout_ms := ms, to_elapsed_ms := 0, to_active := True\<rparr>"

definition timeout_start :: "timeout \<Rightarrow> timeout" where
  "timeout_start t = t\<lparr>to_elapsed_ms := 0, to_active := True\<rparr>"

definition timeout_cancel :: "timeout \<Rightarrow> timeout" where
  "timeout_cancel t = t\<lparr>to_active := False\<rparr>"

definition timeout_update :: "timeout \<Rightarrow> u32 \<Rightarrow> bool \<times> timeout" where
  "timeout_update t delta =
     (if \<not> to_active t then (False, t)
      else
        let e = saturating_add (to_elapsed_ms t) delta
        in if to_timeout_ms t \<le> e
           then (True, t\<lparr>to_elapsed_ms := e, to_active := False\<rparr>)
           else (False, t\<lparr>to_elapsed_ms := e\<rparr>))"

definition timeout_timed_out :: "timeout \<Rightarrow> bool" where
  "timeout_timed_out t = (\<not> to_active t \<and> to_timeout_ms t \<le> to_elapsed_ms t)"

primrec timeout_run :: "timeout \<Rightarrow> u32 list \<Rightarrow> nat \<times> timeout" where
  "timeout_run t [] = (0, t)"
| "timeout_run t (d # ds) =
     (let (fired, t') = timeout_update t d; (n, t'') = timeout_run t' ds
      in ((if fired then 1 else 0) + n, t''))"

section \<open>What a run fires\<close>

lemma timer_update_auto:
  assumes "tm_running t" and "tm_auto_reset t" and "tm_interval_ms t \<noteq> 0"
    and "unat (tm_elapsed_ms t) + unat d < 2 ^ 32"
  obtains f t' where "timer_update t d = (f, t')" and "tm_running t'" and "tm_auto_reset t'"
    and "tm_interval_ms t' = tm_interval_ms t"
    and "unat (tm_elapsed_ms t') + (if f then unat (tm_interval_ms t) else 0) =
         unat (tm_elapsed_ms t) + unat d"
    and "\<not> f \<longrightarrow> unat (tm_elapsed_ms t') < unat (tm_interval_ms t)"
proof -
  have e: "unat (saturating_add (tm_elapsed_ms t) d) = unat (tm_elapsed_ms t) + unat d"
    using assms(4) by (simp add: unat_saturating_add)
  show ?thesis
    using that [of "fst (timer_update t d)" "snd (timer_update t d)"] assms e
    by (auto simp: timer_update_def Let_def word_le_nat_alt unat_sub)
qed

text \<open>
  No tick is lost and none is invented: over any run of a started periodic timer whose total
  time stays below the counter's range, fired intervals plus carried time equal polled time.
\<close>

lemma timer_run_conserves:
  assumes "tm_running t" and "tm_auto_reset t" and "tm_interval_ms t \<noteq> 0"
    and "unat (tm_elapsed_ms t) + sum_list (map unat ds) < 2 ^ 32"
  shows "fst (timer_run t ds) * unat (tm_interval_ms t) + unat (tm_elapsed_ms (snd (timer_run t ds)))
    = unat (tm_elapsed_ms t) + sum_list (map unat ds)"
  using assms
proof (induction ds arbitrary: t)
  case (Cons d ds)
  have "unat (tm_elapsed_ms t) + unat d < 2 ^ 32" using Cons.prems(4) by simp
  from timer_update_auto [OF Cons.prems(1-3) this] obtain f t' where u:
    "timer_update t d = (f, t')" "tm_running t'" "tm_auto_reset t'"
    "tm_interval_ms t' = tm_interval_ms t"
    "unat (tm_elapsed_ms t') + (if f then unat (tm_interval_ms t) else 0) =
         unat (tm_elapsed_ms t) + unat d" by metis
  have "unat (tm_elapsed_ms t') + sum_list (map unat ds) < 2 ^ 32"
    using Cons.prems(4) u(5) by (simp split: if_splits)
  then show ?case
    using Cons.IH [of t'] Cons.prems(3) u by (simp add: split_beta Let_def split: if_splits)
qed simp

text \<open>Polled at least once per interval, the carried time stays below the interval.\<close>

lemma timer_run_phase:
  assumes "tm_running t" and "tm_auto_reset t" and "tm_interval_ms t \<noteq> 0"
    and "unat (tm_elapsed_ms t) < unat (tm_interval_ms t)"
    and "\<forall>d \<in> set ds. unat d \<le> unat (tm_interval_ms t)"
    and "2 * unat (tm_interval_ms t) \<le> 2 ^ 32"
  shows "fst (timer_run t ds) = (unat (tm_elapsed_ms t) + sum_list (map unat ds)) div unat (tm_interval_ms t)
    \<and> unat (tm_elapsed_ms (snd (timer_run t ds))) =
       (unat (tm_elapsed_ms t) + sum_list (map unat ds)) mod unat (tm_interval_ms t)"
  using assms
proof (induction ds arbitrary: t)
  case (Cons d ds)
  have dle: "unat d \<le> unat (tm_interval_ms t)" using Cons.prems(5) by simp
  then have "unat (tm_elapsed_ms t) + unat d < 2 ^ 32" using Cons.prems(4,6) by linarith
  from timer_update_auto [OF Cons.prems(1-3) this] obtain f t' where u:
    "timer_update t d = (f, t')" "tm_running t'" "tm_auto_reset t'"
    "tm_interval_ms t' = tm_interval_ms t"
    "unat (tm_elapsed_ms t') + (if f then unat (tm_interval_ms t) else 0) =
         unat (tm_elapsed_ms t) + unat d"
    "\<not> f \<longrightarrow> unat (tm_elapsed_ms t') < unat (tm_interval_ms t)" by metis
  have lt: "unat (tm_elapsed_ms t') < unat (tm_interval_ms t')"
    using u dle Cons.prems(4) by (cases f) auto
  have tot: "unat (tm_elapsed_ms t) + (unat d + sum_list (map unat ds)) =
      (if f then unat (tm_interval_ms t) else 0) + (unat (tm_elapsed_ms t') + sum_list (map unat ds))"
    using u(5) by linarith
  have "unat (tm_interval_ms t) \<noteq> 0" using Cons.prems(4) by linarith
  then have carry: "(unat (tm_interval_ms t) + x) div unat (tm_interval_ms t)
      = Suc (x div unat (tm_interval_ms t))" for x
    by (simp add: div_add_self1)
  show ?case
    using Cons.IH [of t'] Cons.prems u(1-4) lt
    by (simp add: split_beta Let_def tot carry split: if_splits)
qed simp

lemma timeout_run_inactive: "\<not> to_active t \<Longrightarrow> timeout_run t ds = (0, t)"
  by (induction ds) (auto simp: timeout_update_def)

text \<open>A started timeout fires exactly once, as soon as the polled time reaches the threshold.\<close>

lemma timeout_run_fires:
  assumes "to_active t" and "ds \<noteq> []"
    and "unat (to_elapsed_ms t) < unat (to_timeout_ms t) \<or> unat (to_timeout_ms t) = 0"
  shows "fst (timeout_run t ds) =
    (if unat (to_timeout_ms t) \<le> unat (to_elapsed_ms t) + sum_list (map unat ds) then 1 else 0)"
  using assms
proof (induction ds arbitrary: t)
  case (Cons d ds)
  show ?case
  proof (cases "to_timeout_ms t \<le> saturating_add (to_elapsed_ms t) d")
    case True
    then have "unat (to_timeout_ms t) \<le> unat (to_elapsed_ms t) + unat d"
      by (simp add: word_le_nat_alt unat_saturating_add split: if_splits)
    then show ?thesis
      using True Cons.prems(1) by (simp add: timeout_update_def Let_def timeout_run_inactive)
  next
    case False
    then have lt: "unat (saturating_add (to_elapsed_ms t) d) < unat (to_timeout_ms t)"
      by (simp add: word_le_nat_alt not_le)
    then have "unat (saturating_add (to_elapsed_ms t) d) < 4294967295"
      using unat_u32_less [of "to_timeout_ms t"] by linarith
    then have eq: "unat (saturating_add (to_elapsed_ms t) d) = unat (to_elapsed_ms t) + unat d"
      by (simp add: unat_saturating_add unat_max_word min_def split: if_splits)
    show ?thesis
      using False lt eq Cons.prems(1) Cons.IH [of "t\<lparr>to_elapsed_ms := saturating_add (to_elapsed_ms t) d\<rparr>"]
      by (cases ds) (simp_all add: timeout_update_def Let_def)
  qed
qed simp

section \<open>Properties\<close>

text \<open>C25: A started periodic timer polled at least once per interval neither drifts nor loses a
  tick: over any run of polls the number of fired polls is the whole number of intervals in the
  elapsed time and the carried time is the remainder.\<close>

theorem periodic_timer_never_drifts:
  assumes "tm_running t" and "tm_auto_reset t" and "tm_interval_ms t \<noteq> 0"
    and "unat (tm_elapsed_ms t) < unat (tm_interval_ms t)"
    and "\<forall>d \<in> set ds. unat d \<le> unat (tm_interval_ms t)"
    and "2 * unat (tm_interval_ms t) \<le> 2 ^ 32"
  shows "fst (timer_run t ds) = (unat (tm_elapsed_ms t) + sum_list (map unat ds)) div unat (tm_interval_ms t)
    \<and> unat (tm_elapsed_ms (snd (timer_run t ds))) =
       (unat (tm_elapsed_ms t) + sum_list (map unat ds)) mod unat (tm_interval_ms t)"
  using assms by (rule timer_run_phase)

theorem periodic_timer_never_drifts_witness:
  "fst (timer_run (timer_start (timer_new 100 True)) [30, 80, 95]) = 2
   \<and> unat (tm_elapsed_ms (snd (timer_run (timer_start (timer_new 100 True)) [30, 80, 95]))) = 5"
  using periodic_timer_never_drifts [of "timer_start (timer_new 100 True)" "[30, 80, 95]"]
  by (simp add: timer_start_def timer_new_def)

text \<open>C26: A poll that spans several intervals fires once and keeps the rest as a backlog that later
  polls fire one by one: after one poll of three intervals, two polls of zero time still fire.\<close>

theorem timer_backlog_fires_later:
  assumes "tm_running t" and "tm_auto_reset t" and "tm_elapsed_ms t = 0" and "0 < unat (tm_interval_ms t)"
    and "unat d = 3 * unat (tm_interval_ms t)"
  shows "fst (timer_run t [d]) = 1 \<and> fst (timer_run t [d, 0, 0]) = 3 \<and> fst (timer_run t [d, 0, 0, 0]) = 3"
proof -
  have ne: "tm_interval_ms t \<noteq> 0" using assms(4) by (auto simp: unat_gt_0)
  have up: "timer_update u 0 = (tm_interval_ms u \<le> tm_elapsed_ms u, if tm_interval_ms u \<le> tm_elapsed_ms u
      then u\<lparr>tm_elapsed_ms := tm_elapsed_ms u - tm_interval_ms u\<rparr> else u)"
    if "tm_running u" "tm_auto_reset u" "tm_interval_ms u \<noteq> 0" for u
    using that by (simp add: timer_update_def saturating_add_def unat_u32_less)
  have sat: "saturating_add 0 d = d" by (simp add: saturating_add_def unat_u32_less)
  have first: "timer_update t d = (True, t\<lparr>tm_elapsed_ms := d - tm_interval_ms t\<rparr>)"
    using assms ne sat by (simp add: timer_update_def word_le_nat_alt)
  define e1 e2 e3 where "e1 = d - tm_interval_ms t" and "e2 = e1 - tm_interval_ms t"
    and "e3 = e2 - tm_interval_ms t"
  have d1: "unat e1 = 2 * unat (tm_interval_ms t)"
    using assms(5) by (simp add: e1_def unat_sub_no_wrap)
  have d2: "unat e2 = unat (tm_interval_ms t)"
    using d1 by (simp add: e2_def unat_sub_no_wrap)
  have d3: "unat e3 = 0"
    using d2 by (simp add: e3_def unat_sub_no_wrap)
  show ?thesis
    using assms(1,2,4) ne first d1 d2 d3 e1_def [symmetric] e2_def [symmetric] e3_def [symmetric]
    by (simp add: up Let_def word_le_nat_alt)
qed

theorem timer_backlog_fires_later_witness:
  "fst (timer_run (timer_start (timer_new 100 True)) [300]) = 1
   \<and> fst (timer_run (timer_start (timer_new 100 True)) [300, 0, 0]) = 3"
  using timer_backlog_fires_later [of "timer_start (timer_new 100 True)" 300]
  by (simp add: timer_start_def timer_new_def)

end
