(* ===== verification/Device_Name.thy ===== *)
theory Device_Name
  imports Can_Identifier
begin

text \<open>
  The 64-bit ISO 11783-5 NAME (src/src/net/name.rs): its packed fields, its byte form and the order
  that decides address-claim arbitration. The interface \<open>name_field\<close> states once what an accessor
  and its setter promise; every field of the NAME is an instance of it.
\<close>

datatype device_name = Name (name_raw: u64)

definition name_from_raw :: "u64 \<Rightarrow> device_name" where
  "name_from_raw value = Name value"

section \<open>Field accessors\<close>

definition identity_number :: "device_name \<Rightarrow> u32" where
  "identity_number n = ucast (name_raw n AND 0x1FFFFF)"

definition manufacturer_code :: "device_name \<Rightarrow> u16" where
  "manufacturer_code n = ucast (drop_bit 21 (name_raw n) AND 0x7FF)"

definition ecu_instance :: "device_name \<Rightarrow> u8" where
  "ecu_instance n = ucast (drop_bit 32 (name_raw n) AND 0x07)"

definition function_instance :: "device_name \<Rightarrow> u8" where
  "function_instance n = ucast (drop_bit 35 (name_raw n) AND 0x1F)"

definition function_code :: "device_name \<Rightarrow> u8" where
  "function_code n = ucast (drop_bit 40 (name_raw n) AND 0xFF)"

definition device_class :: "device_name \<Rightarrow> u8" where
  "device_class n = ucast (drop_bit 49 (name_raw n) AND 0x7F)"

definition device_class_instance :: "device_name \<Rightarrow> u8" where
  "device_class_instance n = ucast (drop_bit 56 (name_raw n) AND 0x0F)"

definition industry_group :: "device_name \<Rightarrow> u8" where
  "industry_group n = ucast (drop_bit 60 (name_raw n) AND 0x07)"

definition self_configurable :: "device_name \<Rightarrow> bool" where
  "self_configurable n = (drop_bit 63 (name_raw n) AND 0x01 \<noteq> 0)"

section \<open>Setters\<close>

definition with_identity_number :: "device_name \<Rightarrow> u32 \<Rightarrow> device_name" where
  "with_identity_number n v = Name ((name_raw n AND NOT 0x1FFFFF) OR (ucast v AND 0x1FFFFF))"

definition with_manufacturer_code :: "device_name \<Rightarrow> u16 \<Rightarrow> device_name" where
  "with_manufacturer_code n v =
     Name ((name_raw n AND NOT (push_bit 21 0x7FF)) OR push_bit 21 (ucast v AND 0x7FF))"

definition with_ecu_instance :: "device_name \<Rightarrow> u8 \<Rightarrow> device_name" where
  "with_ecu_instance n v =
     Name ((name_raw n AND NOT (push_bit 32 0x07)) OR push_bit 32 (ucast v AND 0x07))"

definition with_function_instance :: "device_name \<Rightarrow> u8 \<Rightarrow> device_name" where
  "with_function_instance n v =
     Name ((name_raw n AND NOT (push_bit 35 0x1F)) OR push_bit 35 (ucast v AND 0x1F))"

definition with_function_code :: "device_name \<Rightarrow> u8 \<Rightarrow> device_name" where
  "with_function_code n v =
     Name ((name_raw n AND NOT (push_bit 40 0xFF)) OR push_bit 40 (ucast v AND 0xFF))"

definition with_device_class :: "device_name \<Rightarrow> u8 \<Rightarrow> device_name" where
  "with_device_class n v =
     Name ((name_raw n AND NOT (push_bit 49 0x7F)) OR push_bit 49 (ucast v AND 0x7F))"

definition with_device_class_instance :: "device_name \<Rightarrow> u8 \<Rightarrow> device_name" where
  "with_device_class_instance n v =
     Name ((name_raw n AND NOT (push_bit 56 0x0F)) OR push_bit 56 (ucast v AND 0x0F))"

definition with_industry_group :: "device_name \<Rightarrow> u8 \<Rightarrow> device_name" where
  "with_industry_group n v =
     Name ((name_raw n AND NOT (push_bit 60 0x07)) OR push_bit 60 (ucast v AND 0x07))"

definition with_self_configurable :: "device_name \<Rightarrow> bool \<Rightarrow> device_name" where
  "with_self_configurable n v =
     Name ((name_raw n AND NOT (push_bit 63 0x01)) OR push_bit 63 (of_bool v))"

section \<open>Byte form and order\<close>

definition name_to_bytes :: "device_name \<Rightarrow> bytes" where
  "name_to_bytes n = to_le_bytes 8 (name_raw n)"

definition name_from_bytes :: "bytes \<Rightarrow> device_name option" where
  "name_from_bytes data =
     (if length data \<noteq> 8 then None else Some (name_from_raw (from_le_bytes data)))"

instantiation device_name :: linorder
begin

definition less_eq_device_name :: "device_name \<Rightarrow> device_name \<Rightarrow> bool" where
  "less_eq_device_name a b = (name_raw a \<le> name_raw b)"

definition less_device_name :: "device_name \<Rightarrow> device_name \<Rightarrow> bool" where
  "less_device_name a b = (name_raw a < name_raw b)"

instance
proof
  fix x y z :: device_name
  show "(x < y) = (x \<le> y \<and> \<not> y \<le> x)" by (auto simp: less_eq_device_name_def less_device_name_def)
  show "x \<le> x" by (simp add: less_eq_device_name_def)
  show "x \<le> y \<Longrightarrow> y \<le> z \<Longrightarrow> x \<le> z" by (auto simp: less_eq_device_name_def)
  show "x \<le> y \<or> y \<le> x" by (auto simp: less_eq_device_name_def)
  show "x \<le> y \<Longrightarrow> y \<le> x \<Longrightarrow> x = y"
    by (cases x; cases y) (auto simp: less_eq_device_name_def)
qed

end

lemma name_bytes_roundtrip [simp]: "name_from_bytes (name_to_bytes n) = Some n"
  by (simp add: name_from_bytes_def name_to_bytes_def name_from_raw_def)

lemma length_name_to_bytes [simp]: "length (name_to_bytes n) = 8"
  by (simp add: name_to_bytes_def)

lemma name_from_bytes_eq_Some: "name_from_bytes data = Some n \<Longrightarrow> name_to_bytes n = data"
  using to_from_le_bytes [of data, where 'a = 64]
  by (auto simp: name_from_bytes_def name_to_bytes_def name_from_raw_def split: if_splits)

section \<open>What a field promises\<close>

locale name_field =
  fixes off width :: nat
    and get :: "device_name \<Rightarrow> 'v::len word"
    and put :: "device_name \<Rightarrow> 'v word \<Rightarrow> device_name"
  assumes fits: "off + width \<le> 64" and wide: "width \<le> LENGTH('v)"
    and bit_get: "bit (get n) k \<longleftrightarrow> k < width \<and> bit (name_raw n) (off + k)"
    and bit_put: "bit (name_raw (put n v)) k \<longleftrightarrow>
      (if off \<le> k \<and> k < off + width then bit v (k - off) else bit (name_raw n) k)"
begin

lemma get_put: "get (put n v) = take_bit width v"
  using wide by (intro bit_word_eqI) (auto simp: bit_get bit_put bit_simps)

lemma put_get: "put n (get n) = n"
proof -
  have "name_raw (put n (get n)) = name_raw n"
    by (rule bit_word_eqI) (auto simp: bit_get bit_put)
  then show ?thesis by (cases n; cases "put n (get n)") auto
qed

lemma put_put: "put (put n v) w = put n w"
proof -
  have "name_raw (put (put n v) w) = name_raw (put n w)"
    by (rule bit_word_eqI) (auto simp: bit_put)
  then show ?thesis by (cases "put n w"; cases "put (put n v) w") auto
qed

lemma get_bound: "unat (get n) < 2 ^ width"
proof -
  have "get n = take_bit width (get n)"
    by (rule bit_word_eqI) (auto simp: bit_simps bit_get)
  then have "unat (get n) = take_bit width (unat (get n))" by (metis unsigned_take_bit_eq)
  then show ?thesis by (metis take_bit_nat_less_exp)
qed

end

text \<open>Two fields that do not overlap are independent: writing one leaves the other unchanged.\<close>

locale disjoint_name_fields =
  f: name_field off width get put + g: name_field off' width' get' put'
  for off width :: nat and get :: "device_name \<Rightarrow> 'v::len word" and put
    and off' width' :: nat and get' :: "device_name \<Rightarrow> 'w::len word" and put' +
  assumes disjoint: "off + width \<le> off' \<or> off' + width' \<le> off"
begin

lemma get_put_other: "get (put' n v) = get n"
  using disjoint by (intro bit_word_eqI) (auto simp: f.bit_get g.bit_put)

lemma put_commute: "put (put' n v) w = put' (put n w) v"
proof -
  have "name_raw (put (put' n v) w) = name_raw (put' (put n w) v)"
    using disjoint by (intro bit_word_eqI) (auto simp: f.bit_put g.bit_put)
  then show ?thesis by (cases "put (put' n v) w"; cases "put' (put n w) v") auto
qed

end

section \<open>The fields of the NAME\<close>

lemma name_mask_literals:
  "(0x1FFFFF :: u64) = mask 21" "(0x7FF :: u64) = mask 11" "(0x1F :: u64) = mask 5"
  "(0x7F :: u64) = mask 7" "(0x0F :: u64) = mask 4"
  by (simp_all add: mask_eq_exp_minus_1)

lemmas name_masks = name_mask_literals mask_literals [where 'a = 64]

interpretation identity_number_field: name_field 0 21 identity_number with_identity_number
  by unfold_locales
    (unfold identity_number_def with_identity_number_def name_masks,
     auto simp: bit_simps dest: bit_imp_le_length)

interpretation manufacturer_code_field: name_field 21 11 manufacturer_code with_manufacturer_code
  by unfold_locales
    (unfold manufacturer_code_def with_manufacturer_code_def name_masks,
     auto simp: bit_simps dest: bit_imp_le_length)

interpretation ecu_instance_field: name_field 32 3 ecu_instance with_ecu_instance
  by unfold_locales
    (unfold ecu_instance_def with_ecu_instance_def name_masks,
     auto simp: bit_simps dest: bit_imp_le_length)

interpretation function_instance_field: name_field 35 5 function_instance with_function_instance
  by unfold_locales
    (unfold function_instance_def with_function_instance_def name_masks,
     auto simp: bit_simps dest: bit_imp_le_length)

interpretation function_code_field: name_field 40 8 function_code with_function_code
  by unfold_locales
    (unfold function_code_def with_function_code_def name_masks,
     auto simp: bit_simps dest: bit_imp_le_length)

interpretation device_class_field: name_field 49 7 device_class with_device_class
  by unfold_locales
    (unfold device_class_def with_device_class_def name_masks,
     auto simp: bit_simps dest: bit_imp_le_length)

interpretation device_class_instance_field:
  name_field 56 4 device_class_instance with_device_class_instance
  by unfold_locales
    (unfold device_class_instance_def with_device_class_instance_def name_masks,
     auto simp: bit_simps dest: bit_imp_le_length)

interpretation industry_group_field: name_field 60 3 industry_group with_industry_group
  by unfold_locales
    (unfold industry_group_def with_industry_group_def name_masks,
     auto simp: bit_simps dest: bit_imp_le_length)

text \<open>Neighbouring fields touch but do not overlap.\<close>

interpretation identity_manufacturer: disjoint_name_fields
  0 21 identity_number with_identity_number 21 11 manufacturer_code with_manufacturer_code
  by unfold_locales simp

interpretation manufacturer_ecu: disjoint_name_fields
  21 11 manufacturer_code with_manufacturer_code 32 3 ecu_instance with_ecu_instance
  by unfold_locales simp

interpretation ecu_function_instance: disjoint_name_fields
  32 3 ecu_instance with_ecu_instance 35 5 function_instance with_function_instance
  by unfold_locales simp

interpretation function_instance_code: disjoint_name_fields
  35 5 function_instance with_function_instance 40 8 function_code with_function_code
  by unfold_locales simp

interpretation function_class: disjoint_name_fields
  40 8 function_code with_function_code 49 7 device_class with_device_class
  by unfold_locales simp

interpretation class_class_inst: disjoint_name_fields
  49 7 device_class with_device_class 56 4 device_class_instance with_device_class_instance
  by unfold_locales simp

interpretation class_inst_group: disjoint_name_fields
  56 4 device_class_instance with_device_class_instance 60 3 industry_group with_industry_group
  by unfold_locales simp

lemma self_configurable_bit: "self_configurable n \<longleftrightarrow> bit (name_raw n) 63"
  unfolding self_configurable_def
  by (metis bit_iff_odd_drop_bit and_one_eq odd_iff_mod_2_eq_one even_iff_mod_2_eq_zero)

lemma bit_with_self_configurable:
  "bit (name_raw (with_self_configurable n v)) k \<longleftrightarrow> (if k = 63 then v else bit (name_raw n) k)"
proof -
  have one: "bit (push_bit 63 (of_bool b) :: u64) k \<longleftrightarrow> k = 63 \<and> b" for b k
    unfolding bit_push_bit_iff possible_bit_word by (auto simp: bit_of_bool_iff)
  have top: "bit (name_raw n) k \<Longrightarrow> k < 64" using bit_imp_le_length [of "name_raw n" k] by simp
  show ?thesis
    unfolding with_self_configurable_def device_name.sel bit_or_iff bit_and_iff bit_not_iff
      one [of True, simplified of_bool_eq] one
    using top by auto
qed

lemmas name_get_bits = identity_number_field.bit_get manufacturer_code_field.bit_get
  ecu_instance_field.bit_get function_instance_field.bit_get function_code_field.bit_get
  device_class_field.bit_get device_class_instance_field.bit_get industry_group_field.bit_get
  self_configurable_bit

lemmas name_put_bits = identity_number_field.bit_put manufacturer_code_field.bit_put
  ecu_instance_field.bit_put function_instance_field.bit_put function_code_field.bit_put
  device_class_field.bit_put device_class_instance_field.bit_put industry_group_field.bit_put
  bit_with_self_configurable

definition name_build ::
  "device_name \<Rightarrow> u32 \<Rightarrow> u16 \<Rightarrow> u8 \<Rightarrow> u8 \<Rightarrow> u8 \<Rightarrow> u8 \<Rightarrow> u8 \<Rightarrow> u8 \<Rightarrow> bool \<Rightarrow> device_name" where
  "name_build n0 idn man ecu finst fcode dc dci ig sc =
     with_self_configurable (with_industry_group (with_device_class_instance (with_device_class
       (with_function_code (with_function_instance (with_ecu_instance (with_manufacturer_code
         (with_identity_number n0 idn) man) ecu) finst) fcode) dc) dci) ig) sc"

lemma bit_name_build:
  "bit (name_raw (name_build n0 idn man ecu finst fcode dc dci ig sc)) k \<longleftrightarrow>
     (if k < 21 then bit idn k else if k < 32 then bit man (k - 21)
      else if k < 35 then bit ecu (k - 32) else if k < 40 then bit finst (k - 35)
      else if k < 48 then bit fcode (k - 40) else if k = 48 then bit (name_raw n0) 48
      else if k < 56 then bit dc (k - 49) else if k < 60 then bit dci (k - 56)
      else if k < 63 then bit ig (k - 60) else k = 63 \<and> sc)"
proof -
  have "bit (name_raw n0) k \<Longrightarrow> k < 64" using bit_imp_le_length [of "name_raw n0" k] by simp
  then show ?thesis
    unfolding name_build_def name_put_bits by auto
qed

lemma name_build_fields:
  fixes n0 idn man ecu finst fcode dc dci ig sc
  defines "n \<equiv> name_build n0 idn man ecu finst fcode dc dci ig sc"
  shows "identity_number n = take_bit 21 idn" "manufacturer_code n = take_bit 11 man"
    "ecu_instance n = take_bit 3 ecu" "function_instance n = take_bit 5 finst"
    "function_code n = fcode" "device_class n = take_bit 7 dc"
    "device_class_instance n = take_bit 4 dci" "industry_group n = take_bit 3 ig"
    "self_configurable n = sc"
  unfolding n_def
  by ((rule bit_word_eqI, simp add: name_get_bits bit_name_build bit_simps)+,
      simp add: name_get_bits bit_name_build)

text \<open>The nine fields and the reserved bit 48 determine the NAME.\<close>

lemma name_build_get:
  "name_build n (identity_number n) (manufacturer_code n) (ecu_instance n) (function_instance n)
     (function_code n) (device_class n) (device_class_instance n) (industry_group n)
     (self_configurable n) = n"
proof -
  have "bit (name_raw (name_build n (identity_number n) (manufacturer_code n) (ecu_instance n)
     (function_instance n) (function_code n) (device_class n) (device_class_instance n)
     (industry_group n) (self_configurable n))) k = bit (name_raw n) k" if "k < 64" for k
    unfolding bit_name_build name_get_bits using that by (cases "k = 63") auto
  then have "name_raw (name_build n (identity_number n) (manufacturer_code n) (ecu_instance n)
     (function_instance n) (function_code n) (device_class n) (device_class_instance n)
     (industry_group n) (self_configurable n)) = name_raw n"
    by (intro bit_word_eqI) simp
  then show ?thesis by (metis device_name.expand)
qed

section \<open>Properties\<close>

text \<open>C22: The nine fields of a NAME are independent and complete: setting them all and reading them
  back returns each value cut to its width, whatever the NAME held before; setting them to the
  values just read changes nothing; and the eight-byte wire form decodes to the same NAME.\<close>

theorem name_fields_round_trip:
  "identity_number (name_build n idn man ecu finst fcode dc dci ig sc) = take_bit 21 idn
   \<and> manufacturer_code (name_build n idn man ecu finst fcode dc dci ig sc) = take_bit 11 man
   \<and> ecu_instance (name_build n idn man ecu finst fcode dc dci ig sc) = take_bit 3 ecu
   \<and> function_instance (name_build n idn man ecu finst fcode dc dci ig sc) = take_bit 5 finst
   \<and> function_code (name_build n idn man ecu finst fcode dc dci ig sc) = fcode
   \<and> device_class (name_build n idn man ecu finst fcode dc dci ig sc) = take_bit 7 dc
   \<and> device_class_instance (name_build n idn man ecu finst fcode dc dci ig sc) = take_bit 4 dci
   \<and> industry_group (name_build n idn man ecu finst fcode dc dci ig sc) = take_bit 3 ig
   \<and> self_configurable (name_build n idn man ecu finst fcode dc dci ig sc) = sc
   \<and> name_build n (identity_number n) (manufacturer_code n) (ecu_instance n) (function_instance n)
       (function_code n) (device_class n) (device_class_instance n) (industry_group n)
       (self_configurable n) = n
   \<and> name_from_bytes (name_to_bytes n) = Some n"
  using name_build_fields name_build_get by simp

end
