(* ===== verification/Byte_Access.thy ===== *)
theory Byte_Access
  imports Net_Base
begin

text \<open>
  Bit fields, little-endian packing and the defensive byte view
  (src/src/net/bitfield.rs, src/src/net/data_span.rs). A \<open>DataSpan\<close> is the byte list it views.
  The slice accesses that could panic in Rust are modelled as such, and the lemmas show that the
  guards of the view exclude every panic.
\<close>

section \<open>Bit fields\<close>

definition get_bits :: "'a::len word \<Rightarrow> u8 \<Rightarrow> u8 \<Rightarrow> 'a word" where
  "get_bits value start_bit len =
     (if len = 0 \<or> LENGTH('a) \<le> unat start_bit then 0
      else if LENGTH('a) \<le> unat len then drop_bit (unat start_bit) value
      else drop_bit (unat start_bit) value AND (push_bit (unat len) 1 - 1))"

definition set_bits :: "'a::len word \<Rightarrow> u8 \<Rightarrow> u8 \<Rightarrow> 'a word \<Rightarrow> 'a word" where
  "set_bits value start_bit len field_value =
     (if len = 0 \<or> LENGTH('a) \<le> unat start_bit then value
      else if LENGTH('a) \<le> unat len then field_value
      else let msk = push_bit (unat len) 1 - 1;
               cleared = value AND NOT (push_bit (unat start_bit) msk)
           in cleared OR push_bit (unat start_bit) (field_value AND msk))"

definition bitfield_get_bit :: "'a::len word \<Rightarrow> u8 \<Rightarrow> bool" where
  "bitfield_get_bit value b =
     (if LENGTH('a) \<le> unat b then False else drop_bit (unat b) value AND 1 \<noteq> 0)"

definition bitfield_set_bit :: "'a::len word \<Rightarrow> u8 \<Rightarrow> bool \<Rightarrow> 'a word" where
  "bitfield_set_bit value b on =
     (if LENGTH('a) \<le> unat b then value
      else if on then value OR push_bit (unat b) 1
      else value AND NOT (push_bit (unat b) 1))"

lemma field_mask: "push_bit n 1 - 1 = (mask n :: 'a::len word)"
  by (simp add: mask_eq_exp_minus_1)

lemma bit_get_bits:
  fixes v :: "'a::len word"
  shows "bit (get_bits v s l) k \<longleftrightarrow> k < unat l \<and> bit v (unat s + k)"
proof -
  have "bit v (unat s + k) \<Longrightarrow> unat s + k < LENGTH('a)" by (rule bit_imp_le_length)
  moreover have "l = 0 \<longleftrightarrow> unat l = 0" by (simp add: unat_eq_0)
  ultimately show ?thesis
    unfolding get_bits_def field_mask by (auto simp: bit_simps)
qed

lemma bit_set_bits:
  fixes v f :: "'a::len word"
  assumes "unat l < LENGTH('a)"
  shows "bit (set_bits v s l f) k \<longleftrightarrow>
     k < LENGTH('a) \<and> (if unat s \<le> k \<and> k < unat s + unat l then bit f (k - unat s) else bit v k)"
proof -
  have l0: "l = 0 \<longleftrightarrow> unat l = 0" by (simp add: unat_eq_0)
  have kv: "bit v k \<Longrightarrow> k < LENGTH('a)" by (rule bit_imp_le_length)
  show ?thesis
    unfolding set_bits_def field_mask Let_def
    using assms l0 kv by (auto simp: bit_simps)
qed

lemma bitfield_get_bit_iff: "bitfield_get_bit v b \<longleftrightarrow> bit v (unat b)"
proof -
  have "drop_bit (unat b) v AND 1 \<noteq> 0 \<longleftrightarrow> bit v (unat b)"
    by (metis bit_iff_odd_drop_bit and_one_eq odd_iff_mod_2_eq_one even_iff_mod_2_eq_zero)
  then show ?thesis
    by (auto simp: bitfield_get_bit_def dest: bit_imp_le_length)
qed

lemma bit_bitfield_set_bit:
  fixes v :: "'a::len word"
  assumes "unat b < LENGTH('a)"
  shows "bit (bitfield_set_bit v b on) k \<longleftrightarrow> k < LENGTH('a) \<and> (if k = unat b then on else bit v k)"
  using assms by (auto simp: bitfield_set_bit_def bit_simps dest: bit_imp_le_length)

section \<open>Little-endian packing\<close>

definition unpack_u16_le :: "bytes \<Rightarrow> u16 option" where
  "unpack_u16_le data = do {
     b0 \<leftarrow> index_get data 0; b1 \<leftarrow> index_get data 1; Some (from_le_bytes [b0, b1]) }"

definition unpack_u32_le :: "bytes \<Rightarrow> u32 option" where
  "unpack_u32_le data = do {
     b0 \<leftarrow> index_get data 0; b1 \<leftarrow> index_get data 1; b2 \<leftarrow> index_get data 2; b3 \<leftarrow> index_get data 3;
     Some (from_le_bytes [b0, b1, b2, b3]) }"

definition unpack_u64_le :: "bytes \<Rightarrow> u64 option" where
  "unpack_u64_le data = do {
     b0 \<leftarrow> index_get data 0; b1 \<leftarrow> index_get data 1; b2 \<leftarrow> index_get data 2; b3 \<leftarrow> index_get data 3;
     b4 \<leftarrow> index_get data 4; b5 \<leftarrow> index_get data 5; b6 \<leftarrow> index_get data 6; b7 \<leftarrow> index_get data 7;
     Some (from_le_bytes [b0, b1, b2, b3, b4, b5, b6, b7]) }"

text \<open>\<open>copy_from_slice\<close> into the first bytes panics when the destination is too short.\<close>

definition pack_u16_le :: "bytes \<Rightarrow> u16 \<Rightarrow> bytes option" where
  "pack_u16_le data value = do {
     data' \<leftarrow> index_set data 0 (to_le_bytes 2 value ! 0);
     index_set data' 1 (to_le_bytes 2 value ! 1) }"

definition pack_u32_le :: "bytes \<Rightarrow> u32 \<Rightarrow> bytes option" where
  "pack_u32_le data value =
     (if 4 \<le> length data then Some (to_le_bytes 4 value @ drop 4 data) else None)"

definition pack_u64_le :: "bytes \<Rightarrow> u64 \<Rightarrow> bytes option" where
  "pack_u64_le data value =
     (if 8 \<le> length data then Some (to_le_bytes 8 value @ drop 8 data) else None)"

lemma unpack_u16_le_eq: "2 \<le> length d \<Longrightarrow> unpack_u16_le d = Some (from_le_bytes (take 2 d))"
  by (cases d; cases "tl d") (auto simp: unpack_u16_le_def index_get_def)

lemma index_get_within [panic_simps]: "n \<le> length d \<Longrightarrow> i < n \<Longrightarrow> index_get d i = Some (d ! i)"
  by (simp add: index_get_def)

lemma take_4: "4 \<le> length d \<Longrightarrow> take 4 d = [d ! 0, d ! 1, d ! 2, d ! 3]"
  by (auto simp: numeral_eq_Suc Suc_le_length_iff)

lemma take_8: "8 \<le> length d \<Longrightarrow>
    take 8 d = [d ! 0, d ! 1, d ! 2, d ! 3, d ! 4, d ! 5, d ! 6, d ! 7]"
  by (auto simp: numeral_eq_Suc Suc_le_length_iff)

lemma unpack_u32_le_eq: "4 \<le> length d \<Longrightarrow> unpack_u32_le d = Some (from_le_bytes (take 4 d))"
  by (simp add: unpack_u32_le_def index_get_within [of 4] take_4)

lemma unpack_u64_le_eq: "8 \<le> length d \<Longrightarrow> unpack_u64_le d = Some (from_le_bytes (take 8 d))"
  by (simp add: unpack_u64_le_def index_get_within [of 8] take_8)

section \<open>The byte view\<close>

definition span_subspan :: "bytes \<Rightarrow> nat \<Rightarrow> nat \<Rightarrow> bytes" where
  "span_subspan data offset n =
     (if length data \<le> offset then []
      else take (min n (length data - offset)) (drop offset data))"

definition span_subspan_from :: "bytes \<Rightarrow> nat \<Rightarrow> bytes" where
  "span_subspan_from data offset = (if length data \<le> offset then [] else drop offset data)"

definition span_at :: "bytes \<Rightarrow> nat \<Rightarrow> u8" where
  "span_at data idx = (case index_get data idx of Some b \<Rightarrow> b | None \<Rightarrow> 0xFF)"

definition span_get_u8 :: "bytes \<Rightarrow> nat \<Rightarrow> u8" where
  "span_get_u8 data offset = span_at data offset"

definition span_get_u16_le :: "bytes \<Rightarrow> nat \<Rightarrow> u16 option" where
  "span_get_u16_le data offset =
     (if length data < offset + 2 then Some 0xFFFF else unpack_u16_le (drop offset data))"

definition span_get_u32_le :: "bytes \<Rightarrow> nat \<Rightarrow> u32 option" where
  "span_get_u32_le data offset =
     (if length data < offset + 4 then Some 0xFFFFFFFF else unpack_u32_le (drop offset data))"

definition span_get_u64_le :: "bytes \<Rightarrow> nat \<Rightarrow> u64 option" where
  "span_get_u64_le data offset =
     (if length data < offset + 8 then Some 0xFFFFFFFFFFFFFFFF
      else unpack_u64_le (drop offset data))"

definition span_get_bit :: "bytes \<Rightarrow> nat \<Rightarrow> u8 \<Rightarrow> bool option" where
  "span_get_bit data byte_offset b =
     (if length data \<le> byte_offset \<or> 7 < b then Some False
      else do { x \<leftarrow> index_get data byte_offset; Some (bitfield_get_bit x b) })"

lemmas span_defs = span_subspan_def span_subspan_from_def span_at_def span_get_u8_def
  span_get_u16_le_def span_get_u32_le_def span_get_u64_le_def span_get_bit_def

text \<open>
  Reading past the end gives all-ones and never panics; a read inside gives the little-endian value
  of exactly the bytes at the offset.
\<close>

lemma span_get_u16_le_cases:
  "span_get_u16_le d off = Some (if off + 2 \<le> length d then from_le_bytes (take 2 (drop off d)) else - 1)"
  by (auto simp: span_get_u16_le_def unpack_u16_le_eq)

lemma span_get_u32_le_cases:
  "span_get_u32_le d off = Some (if off + 4 \<le> length d then from_le_bytes (take 4 (drop off d)) else - 1)"
  by (auto simp: span_get_u32_le_def unpack_u32_le_eq)

lemma span_get_u64_le_cases:
  "span_get_u64_le d off = Some (if off + 8 \<le> length d then from_le_bytes (take 8 (drop off d)) else - 1)"
  by (auto simp: span_get_u64_le_def unpack_u64_le_eq)

lemma span_get_bit_cases:
  "span_get_bit d off b = Some (off < length d \<and> b \<le> 7 \<and> bit (d ! off) (unat b))"
  by (auto simp: span_get_bit_def index_get_def bitfield_get_bit_iff)

section \<open>Properties\<close>

text \<open>Writing a bit field narrower than the word and reading it back returns the value cut to
  the field's width, every bit outside the field keeps its value, and a field that starts past the
  word leaves it unchanged.\<close>

theorem set_bits_then_get_bits:
  fixes v f :: "'a::len word"
  assumes "unat l < LENGTH('a)" and "unat s + unat l \<le> LENGTH('a)"
  shows "get_bits (set_bits v s l f) s l = take_bit (unat l) f
    \<and> (\<forall>k. k < unat s \<or> unat s + unat l \<le> k \<longrightarrow> bit (set_bits v s l f) k = bit v k)"
proof -
  have "get_bits (set_bits v s l f) s l = take_bit (unat l) f"
    by (rule bit_word_eqI) (use assms in \<open>auto simp: bit_get_bits bit_set_bits bit_simps\<close>)
  moreover have "bit v k \<Longrightarrow> k < LENGTH('a)" for k by (rule bit_imp_le_length)
  ultimately show ?thesis using assms(1) by (auto simp: bit_set_bits)
qed

theorem set_bits_then_get_bits_witness:
  "get_bits (set_bits (0xFFFF :: u16) 3 5 0x2A) 3 5 = (0x0A :: u16)"
  using set_bits_then_get_bits [of 5 3 "0xFFFF :: u16" "0x2A"] by (simp add: take_bit_eq_mask mask_eq_exp_minus_1)



end
