(* ===== verification/Can_Frame.thy ===== *)
theory Can_Frame
  imports Can_Identifier Byte_Access
begin

text \<open>
  Single CAN frames, the adapter frame of the no-backend build, and decoded messages
  (src/src/net/frame.rs, src/src/net/can_adapter.rs, src/src/net/message.rs).
  The array \<open>[u8; 8]\<close> of a frame is a byte list of length eight (\<open>wf_frame\<close>).
\<close>

section \<open>Frames\<close>

record frame =
  fr_id :: can_identifier
  fr_data :: bytes
  fr_length :: u8
  fr_timestamp_us :: u64

text \<open>\<open>Frame::new\<close> asserts its length; with the literal length 8 the assertion holds.\<close>

definition frame_new :: "can_identifier \<Rightarrow> bytes \<Rightarrow> u8 \<Rightarrow> frame option" where
  "frame_new i data len =
     (if len \<le> 8 then Some \<lparr>fr_id = i, fr_data = data, fr_length = len, fr_timestamp_us = 0\<rparr>
      else None)"

definition frame8 :: "can_identifier \<Rightarrow> bytes \<Rightarrow> frame" where
  "frame8 i data = \<lparr>fr_id = i, fr_data = data, fr_length = 8, fr_timestamp_us = 0\<rparr>"

definition frame_try_new :: "can_identifier \<Rightarrow> bytes \<Rightarrow> u8 \<Rightarrow> frame net_result" where
  "frame_try_new i data len =
     (if 8 < len
      then Inl (error_invalid_data
             (''CAN frame length '' @ show_base 10 (unat len) @ '' exceeds 8 bytes''))
      else Inr \<lparr>fr_id = i, fr_data = data, fr_length = len, fr_timestamp_us = 0\<rparr>)"

definition frame_try_from_message ::
  "priority \<Rightarrow> pgn \<Rightarrow> address \<Rightarrow> address \<Rightarrow> bytes \<Rightarrow> frame net_result" where
  "frame_try_from_message prio p src dst payload =
     (if \<not> pgn_is_valid p then Inl (error_invalid_pgn p)
      else if 8 < length payload
      then Inl (error_invalid_data (''single CAN frame payload length '' @
             show_base 10 (length payload) @ '' exceeds 8 bytes''))
      else Inr \<lparr>fr_id = id_encode prio p src dst,
                fr_data = payload @ replicate (8 - length payload) 0xFF,
                fr_length = of_nat (length payload),
                fr_timestamp_us = 0\<rparr>)"

text \<open>\<open>from_message\<close> unwraps the fallible constructor: the error is a panic.\<close>

definition frame_from_message ::
  "priority \<Rightarrow> pgn \<Rightarrow> address \<Rightarrow> address \<Rightarrow> bytes \<Rightarrow> frame option" where
  "frame_from_message prio p src dst payload =
     (case frame_try_from_message prio p src dst payload of Inl _ \<Rightarrow> None | Inr f \<Rightarrow> Some f)"

definition frame_try_from_message_at ::
  "priority \<Rightarrow> pgn \<Rightarrow> address \<Rightarrow> address \<Rightarrow> bytes \<Rightarrow> u64 \<Rightarrow> frame net_result" where
  "frame_try_from_message_at prio p src dst payload ts =
     (case frame_try_from_message prio p src dst payload of
        Inl e \<Rightarrow> Inl e | Inr f \<Rightarrow> Inr (f\<lparr>fr_timestamp_us := ts\<rparr>))"

definition frame_from_message_at ::
  "priority \<Rightarrow> pgn \<Rightarrow> address \<Rightarrow> address \<Rightarrow> bytes \<Rightarrow> u64 \<Rightarrow> frame option" where
  "frame_from_message_at prio p src dst payload ts =
     (case frame_try_from_message_at prio p src dst payload ts of Inl _ \<Rightarrow> None | Inr f \<Rightarrow> Some f)"

definition frame_pgn :: "frame \<Rightarrow> pgn" where
  "frame_pgn f = id_pgn (fr_id f)"

definition frame_source :: "frame \<Rightarrow> address" where
  "frame_source f = id_source (fr_id f)"

definition frame_destination :: "frame \<Rightarrow> address" where
  "frame_destination f = id_destination (fr_id f)"

definition frame_priority :: "frame \<Rightarrow> priority" where
  "frame_priority f = id_priority (fr_id f)"

definition frame_is_broadcast :: "frame \<Rightarrow> bool" where
  "frame_is_broadcast f = id_is_broadcast (fr_id f)"

definition frame_payload :: "frame \<Rightarrow> bytes" where
  "frame_payload f = take (min (unat (fr_length f)) 8) (fr_data f)"

definition wf_frame :: "frame \<Rightarrow> bool" where
  "wf_frame f \<longleftrightarrow> length (fr_data f) = 8"

lemmas frame_accessors = frame_pgn_def frame_source_def frame_destination_def frame_priority_def
  frame_is_broadcast_def

lemma frame8_simps [simp]:
  "fr_id (frame8 i d) = i" "fr_data (frame8 i d) = d" "fr_length (frame8 i d) = 8"
  "fr_timestamp_us (frame8 i d) = 0"
  by (simp_all add: frame8_def)

lemma frame_new_8 [simp]: "frame_new i d 8 = Some (frame8 i d)"
  by (simp add: frame_new_def frame8_def)

lemma frame8_wf [simp]: "wf_frame (frame8 i d) \<longleftrightarrow> length d = 8"
  by (simp add: wf_frame_def)

section \<open>The adapter frame\<close>

record can_frame =
  cf_raw_id :: u32
  cf_data :: bytes
  cf_can_dlc :: u8
  cf_extended :: bool
  cf_rtr :: bool
  cf_err :: bool

definition can_frame_make_ext :: "u32 \<Rightarrow> bytes \<Rightarrow> can_frame" where
  "can_frame_make_ext i payload =
     (let len = min (length payload) 8
      in \<lparr>cf_raw_id = i, cf_data = take len payload @ replicate (8 - len) 0,
          cf_can_dlc = of_nat len, cf_extended = True, cf_rtr = False, cf_err = False\<rparr>)"

definition frame_to_can_frame :: "frame \<Rightarrow> can_frame" where
  "frame_to_can_frame f = can_frame_make_ext (raw (fr_id f)) (frame_payload f)"

definition frame_from_can_frame :: "can_frame \<Rightarrow> frame option" where
  "frame_from_can_frame cf =
     (if \<not> cf_extended cf \<or> cf_rtr cf \<or> cf_err cf then None
      else if 8 < cf_can_dlc cf then None
      else Some \<lparr>fr_id = id_from_raw (cf_raw_id cf), fr_data = cf_data cf,
                 fr_length = cf_can_dlc cf, fr_timestamp_us = 0\<rparr>)"

lemma length_frame_payload: "wf_frame f \<Longrightarrow> length (frame_payload f) = min (unat (fr_length f)) 8"
  by (simp add: frame_payload_def wf_frame_def)

text \<open>What survives the trip through the adapter: the identifier, the length and the payload.\<close>

lemma can_frame_roundtrip:
  assumes "wf_frame f" and "raw (fr_id f) \<le> 0x1FFFFFFF" and "fr_length f \<le> 8"
  shows "\<exists>g. frame_from_can_frame (frame_to_can_frame f) = Some g \<and> fr_id g = fr_id f
    \<and> fr_length g = fr_length f \<and> frame_payload g = frame_payload f \<and> wf_frame g"
proof -
  have len: "unat (fr_length f) \<le> 8" using assms(3) by (simp add: word_le_nat_alt)
  then have lp: "length (frame_payload f) = unat (fr_length f)"
    using assms(1) by (simp add: length_frame_payload)
  have "raw (fr_id f) < 2 ^ 29" using assms(2) by (simp add: word_le_nat_alt word_less_nat_alt)
  then have "raw (fr_id f) AND mask 29 = raw (fr_id f)" by (simp add: less_mask_eq)
  then have i: "id_from_raw (raw (fr_id f)) = fr_id f"
    unfolding id_from_raw_def mask_literals by simp
  have dlc: "(of_nat (unat (fr_length f)) :: u8) = fr_length f" by simp
  show ?thesis
    using len lp assms i
    by (auto simp: frame_from_can_frame_def frame_to_can_frame_def can_frame_make_ext_def Let_def
        min_absorb1 dlc frame_payload_def wf_frame_def word_le_nat_alt word_less_nat_alt)
qed

section \<open>Messages\<close>

record message =
  msg_pgn :: pgn
  msg_data :: bytes
  msg_source :: address
  msg_destination :: address
  msg_priority :: priority
  msg_timestamp_us :: u64

definition message_default :: message where
  "message_default = \<lparr>msg_pgn = 0, msg_data = [], msg_source = NULL_ADDRESS,
     msg_destination = BROADCAST_ADDRESS, msg_priority = Default, msg_timestamp_us = 0\<rparr>"

definition message_new :: "pgn \<Rightarrow> bytes \<Rightarrow> address \<Rightarrow> message" where
  "message_new p data src =
     message_default\<lparr>msg_pgn := p, msg_data := data, msg_source := src\<rparr>"

definition message_with_addressing ::
  "pgn \<Rightarrow> bytes \<Rightarrow> address \<Rightarrow> address \<Rightarrow> priority \<Rightarrow> message" where
  "message_with_addressing p data src dst prio =
     \<lparr>msg_pgn = p, msg_data = data, msg_source = src, msg_destination = dst,
      msg_priority = prio, msg_timestamp_us = 0\<rparr>"

definition message_is_broadcast :: "message \<Rightarrow> bool" where
  "message_is_broadcast m = (msg_destination m = BROADCAST_ADDRESS)"

definition message_has_usable_source :: "message \<Rightarrow> bool" where
  "message_has_usable_source m =
     (msg_source m \<noteq> NULL_ADDRESS \<and> msg_source m \<noteq> BROADCAST_ADDRESS)"

definition message_has_valid_destination_for_pgn :: "message \<Rightarrow> bool" where
  "message_has_valid_destination_for_pgn m =
     (msg_destination m \<noteq> NULL_ADDRESS
      \<and> (\<not> pgn_is_pdu2 (msg_pgn m) \<or> msg_destination m = BROADCAST_ADDRESS))"

definition message_has_usable_envelope_for_pgn :: "message \<Rightarrow> pgn \<Rightarrow> bool" where
  "message_has_usable_envelope_for_pgn m expected_pgn =
     (msg_pgn m = expected_pgn \<and> message_has_usable_source m
      \<and> message_has_valid_destination_for_pgn m)"

text \<open>The bit loop of \<open>Message::get_bits\<close>, one bit per iteration, absent bytes read as zero.\<close>

primrec message_bits_loop :: "bytes \<Rightarrow> nat \<Rightarrow> nat list \<Rightarrow> u32 \<Rightarrow> u32" where
  "message_bits_loop data start_bit [] acc = acc"
| "message_bits_loop data start_bit (i # is) acc =
     (let bit_pos = start_bit + i; byte_idx = bit_pos div 8; bit_idx = bit_pos mod 8
      in message_bits_loop data start_bit is
           (if byte_idx < length data
            then acc OR push_bit i (ucast (drop_bit bit_idx (data ! byte_idx) AND 0x01))
            else acc))"

definition message_get_bits :: "message \<Rightarrow> nat \<Rightarrow> u8 \<Rightarrow> u32" where
  "message_get_bits m start_bit len =
     (if len = 0 \<or> 32 < len then 0
      else message_bits_loop (msg_data m) start_bit [0..<unat len] 0)"

text \<open>\<open>Vec::resize\<close> with the fill byte, and the growing setters.\<close>

definition grow_to :: "nat \<Rightarrow> bytes \<Rightarrow> bytes" where
  "grow_to n data = (if length data < n then data @ replicate (n - length data) 0xFF else data)"

definition message_set_u8 :: "message \<Rightarrow> nat \<Rightarrow> u8 \<Rightarrow> message" where
  "message_set_u8 m offset val = m\<lparr>msg_data := (grow_to (offset + 1) (msg_data m))[offset := val]\<rparr>"

definition message_set_u16_le :: "message \<Rightarrow> nat \<Rightarrow> u16 \<Rightarrow> message" where
  "message_set_u16_le m offset val =
     m\<lparr>msg_data := (grow_to (offset + 2) (msg_data m))
        [offset := to_le_bytes 2 val ! 0, offset + 1 := to_le_bytes 2 val ! 1]\<rparr>"

definition message_set_u32_le :: "message \<Rightarrow> nat \<Rightarrow> u32 \<Rightarrow> message" where
  "message_set_u32_le m offset val =
     m\<lparr>msg_data := (let d = grow_to (offset + 4) (msg_data m)
                    in take offset d @ to_le_bytes 4 val @ drop (offset + 4) d)\<rparr>"

lemma length_grow_to [simp]: "length (grow_to n d) = max n (length d)"
  by (simp add: grow_to_def max_def)

lemma nth_grow_to:
  "k < max n (length d) \<Longrightarrow> grow_to n d ! k = (if k < length d then d ! k else 0xFF)"
  by (auto simp: grow_to_def nth_append)

lemma bit_message_bits_loop:
  assumes "distinct is" and "\<forall>i \<in> set is. i < 32"
  shows "bit (message_bits_loop d s is acc) k \<longleftrightarrow>
    bit acc k \<or> k \<in> set is \<and> (s + k) div 8 < length d \<and> bit (d ! ((s + k) div 8)) ((s + k) mod 8)"
  using assms
proof (induction "is" arbitrary: acc)
  case (Cons i "is")
  have "bit (push_bit i (ucast (drop_bit ((s + i) mod 8) (d ! ((s + i) div 8)) AND 1)) :: u32) k
      \<longleftrightarrow> k = i \<and> bit (d ! ((s + i) div 8)) ((s + i) mod 8)"
    using Cons.prems(2) unfolding mask_literals(1)
    by (auto simp: bit_simps)
  then show ?case using Cons by (auto simp: Let_def bit_simps)
qed simp

text \<open>A bit field read is the field's bits in order, zero past the end of the data.\<close>

lemma bit_message_get_bits:
  "bit (message_get_bits m s l) k \<longleftrightarrow>
     0 < unat l \<and> unat l \<le> 32 \<and> k < unat l \<and> (s + k) div 8 < length (msg_data m)
     \<and> bit (msg_data m ! ((s + k) div 8)) ((s + k) mod 8)"
proof -
  have l0: "l = 0 \<longleftrightarrow> unat l = 0" by (simp add: unat_eq_0)
  have l32: "32 < l \<longleftrightarrow> 32 < unat l" by (simp add: word_less_nat_alt)
  show ?thesis
    using bit_message_bits_loop [of "[0..<unat l]" "msg_data m" s 0 k]
    by (auto simp: message_get_bits_def l0 l32)
qed

lemma message_u32_roundtrip:
  "span_get_u32_le (msg_data (message_set_u32_le m off v)) off = Some v"
  by (simp add: message_set_u32_le_def Let_def span_get_u32_le_cases)

lemma message_set_u32_other:
  assumes "k < off \<or> off + 4 \<le> k"
  shows "span_at (msg_data (message_set_u32_le m off v)) k = span_at (msg_data m) k"
proof -
  let ?d = "grow_to (off + 4) (msg_data m)"
  have split: "msg_data (message_set_u32_le m off v) = take off ?d @ to_le_bytes 4 v @ drop (off + 4) ?d"
    by (simp add: message_set_u32_le_def Let_def)
  have len: "length (msg_data (message_set_u32_le m off v)) = max (off + 4) (length (msg_data m))"
    by (simp add: split)
  show ?thesis
  proof (cases "k < max (off + 4) (length (msg_data m))")
    case True
    have "msg_data (message_set_u32_le m off v) ! k = ?d ! k"
      using assms True by (auto simp: split nth_append)
    then show ?thesis using True len by (auto simp: span_at_def index_get_def nth_grow_to)
  next
    case False
    then show ?thesis using len by (auto simp: span_at_def index_get_def)
  qed
qed

section \<open>Properties\<close>

text \<open>A frame handed to the CAN adapter and received back carries the same identifier, length
  and payload.\<close>

theorem frame_adapter_round_trip:
  assumes "wf_frame f" and "raw (fr_id f) \<le> 0x1FFFFFFF" and "fr_length f \<le> 8"
  shows "\<exists>g. frame_from_can_frame (frame_to_can_frame f) = Some g \<and> fr_id g = fr_id f
    \<and> fr_length g = fr_length f \<and> frame_payload g = frame_payload f"
  using can_frame_roundtrip [OF assms] by blast

theorem frame_adapter_round_trip_witness:
  "\<exists>g. frame_from_can_frame (frame_to_can_frame (frame8 \<lparr>raw = 0x18EA2680\<rparr> [1, 2, 3, 4, 5, 6, 7, 8])) = Some g
    \<and> frame_payload g = [1, 2, 3, 4, 5, 6, 7, 8]"
  using frame_adapter_round_trip [of "frame8 \<lparr>raw = 0x18EA2680\<rparr> [1, 2, 3, 4, 5, 6, 7, 8]"]
  by (auto simp: frame_payload_def)

text \<open>The fallible message constructor of frames: it reports an invalid PGN before an oversized
  payload, reports a payload above eight bytes, and otherwise builds a frame whose payload is the
  given one, padded with 0xFF to eight bytes.\<close>

theorem frame_try_from_message_outcomes:
  "(case frame_try_from_message prio p src dst payload of
      Inl e \<Rightarrow> \<not> pgn_is_valid p \<and> err_code e = InvalidPgn
        \<or> pgn_is_valid p \<and> 8 < length payload \<and> err_code e = InvalidData
    | Inr f \<Rightarrow> pgn_is_valid p \<and> frame_payload f = payload \<and> wf_frame f \<and> fr_length f \<le> 8
        \<and> frame_priority f = prio \<and> frame_source f = src \<and> frame_pgn f = pgn_normalize p
        \<and> frame_destination f = (if pgn_is_pdu2 p then BROADCAST_ADDRESS else dst)
        \<and> drop (length payload) (fr_data f) = replicate (8 - length payload) 0xFF)"
proof -
  have "unat (of_nat (length payload) :: u8) = length payload" if "length payload \<le> 8"
    using that by (simp add: unat_of_nat)
  then show ?thesis
    by (auto simp: frame_try_from_message_def frame_payload_def wf_frame_def frame_accessors
        id_pgn_encode not_less word_le_nat_alt)
qed

text \<open>Writing a 32-bit value into a message at any offset grows the payload as needed, reads
  back as the same value, and leaves every other byte as it was, absent bytes reading as 0xFF.\<close>

theorem message_write_then_read_u32:
  assumes "k < off \<or> off + 4 \<le> k"
  shows "span_get_u32_le (msg_data (message_set_u32_le m off v)) off = Some v
    \<and> span_at (msg_data (message_set_u32_le m off v)) k = span_at (msg_data m) k"
  using message_u32_roundtrip message_set_u32_other [OF assms] by blast

theorem message_write_then_read_u32_witness:
  "span_get_u32_le (msg_data (message_set_u32_le (message_new 0xFEF1 [1, 2] 0x80) 3 0xDEADBEEF)) 3
     = Some 0xDEADBEEF
   \<and> span_at (msg_data (message_set_u32_le (message_new 0xFEF1 [1, 2] 0x80) 3 0xDEADBEEF)) 1 = 2"
  using message_write_then_read_u32 [of 1 3 "message_new 0xFEF1 [1, 2] 0x80" "0xDEADBEEF"]
  by (simp add: message_new_def message_default_def span_at_def index_get_def)

end
