(* ===== verification/Control_Function.thy ===== *)
theory Control_Function
  imports Device_Name Can_Frame
begin

text \<open>
  The local control function that the address claimer drives
  (src/src/net/state_machine.rs, src/src/net/control_function.rs, src/src/net/internal_cf.rs).
  An \<open>Event<T>\<close> field is modelled by the list of the values emitted on it, oldest first: it is
  what a subscriber of the event sees.
\<close>

section \<open>The state machine helper\<close>

record 's state_machine =
  sm_state :: 's
  sm_on_transition :: "('s \<times> 's) event"

definition sm_new :: "'s \<Rightarrow> 's state_machine" where
  "sm_new initial = \<lparr>sm_state = initial, sm_on_transition = []\<rparr>"

definition sm_transition :: "'s state_machine \<Rightarrow> 's \<Rightarrow> 's state_machine" where
  "sm_transition m new_state =
     (if new_state \<noteq> sm_state m
      then m\<lparr>sm_state := new_state,
             sm_on_transition := event_emit (sm_on_transition m) (sm_state m, new_state)\<rparr>
      else m)"

definition sm_force_state :: "'s state_machine \<Rightarrow> 's \<Rightarrow> 's state_machine" where
  "sm_force_state m new_state = m\<lparr>sm_state := new_state\<rparr>"

text \<open>
  The transition log is a path: consecutive entries chain, no entry is a self-loop, and the log
  leads from the initial state to the current one.
\<close>

fun transition_path :: "'s \<Rightarrow> ('s \<times> 's) list \<Rightarrow> 's \<Rightarrow> bool" where
  "transition_path s [] t = (s = t)"
| "transition_path s ((a, b) # es) t = (a = s \<and> b \<noteq> a \<and> transition_path b es t)"

lemma transition_path_snoc:
  "transition_path s (es @ [(a, b)]) t \<longleftrightarrow> transition_path s es a \<and> a \<noteq> b \<and> b = t"
  by (induction s es a rule: transition_path.induct) auto

lemma sm_state_transition [simp]: "sm_state (sm_transition m s) = s"
  by (simp add: sm_transition_def)

lemma sm_transition_path:
  "transition_path i (sm_on_transition m) (sm_state m) \<Longrightarrow>
   transition_path i (sm_on_transition (sm_transition m s)) (sm_state (sm_transition m s))"
  by (auto simp: sm_transition_def event_emit_def transition_path_snoc)

lemma sm_new_path: "transition_path i (sm_on_transition (sm_new i)) (sm_state (sm_new i))"
  by (simp add: sm_new_def)

section \<open>Control functions\<close>

datatype cf_type = Internal | External | Partnered

datatype cf_state = Online | Offline

record control_function =
  cfn_name :: device_name
  cfn_address :: address
  cfn_can_port :: u8
  cfn_type :: cf_type
  cfn_state :: cf_state

definition control_function_default :: control_function where
  "control_function_default = \<lparr>cfn_name = Name 0, cfn_address = NULL_ADDRESS, cfn_can_port = 0,
     cfn_type = External, cfn_state = Offline\<rparr>"

definition control_function_new :: "device_name \<Rightarrow> u8 \<Rightarrow> cf_type \<Rightarrow> control_function" where
  "control_function_new nm port ty = \<lparr>cfn_name = nm, cfn_address = NULL_ADDRESS,
     cfn_can_port = port, cfn_type = ty, cfn_state = Offline\<rparr>"

definition cfn_address_valid :: "control_function \<Rightarrow> bool" where
  "cfn_address_valid cf = (cfn_address cf \<le> MAX_ADDRESS)"

definition cfn_is_online :: "control_function \<Rightarrow> bool" where
  "cfn_is_online cf = (cfn_state cf = Online)"

section \<open>The internal control function\<close>

datatype claim_state =
    ClaimNone | WaitForClaim | SendRequest | WaitForContest | SendClaim | Claimed | Failed

record internal_cf =
  icf_cf :: control_function
  icf_state_machine :: "claim_state state_machine"
  icf_preferred_address :: address
  icf_claim_timer_ms :: u32
  icf_on_address_claimed :: "address event"
  icf_on_address_lost :: "unit event"

definition icf_new :: "device_name \<Rightarrow> u8 \<Rightarrow> address \<Rightarrow> internal_cf" where
  "icf_new nm port preferred =
     \<lparr>icf_cf = (control_function_new nm port Internal)\<lparr>cfn_address := preferred\<rparr>,
      icf_state_machine = sm_new ClaimNone,
      icf_preferred_address = preferred,
      icf_claim_timer_ms = 0,
      icf_on_address_claimed = [],
      icf_on_address_lost = []\<rparr>"

definition icf_name :: "internal_cf \<Rightarrow> device_name" where
  "icf_name cf = cfn_name (icf_cf cf)"

definition icf_address :: "internal_cf \<Rightarrow> address" where
  "icf_address cf = cfn_address (icf_cf cf)"

definition icf_port :: "internal_cf \<Rightarrow> u8" where
  "icf_port cf = cfn_can_port (icf_cf cf)"

definition icf_claim_state :: "internal_cf \<Rightarrow> claim_state" where
  "icf_claim_state cf = sm_state (icf_state_machine cf)"

definition icf_set_address :: "address \<Rightarrow> internal_cf \<Rightarrow> internal_cf" where
  "icf_set_address addr cf = cf\<lparr>icf_cf := (icf_cf cf)\<lparr>cfn_address := addr\<rparr>\<rparr>"

definition icf_set_name :: "device_name \<Rightarrow> internal_cf \<Rightarrow> internal_cf" where
  "icf_set_name nm cf = cf\<lparr>icf_cf := (icf_cf cf)\<lparr>cfn_name := nm\<rparr>\<rparr>"

definition icf_set_state :: "cf_state \<Rightarrow> internal_cf \<Rightarrow> internal_cf" where
  "icf_set_state st cf = cf\<lparr>icf_cf := (icf_cf cf)\<lparr>cfn_state := st\<rparr>\<rparr>"

definition icf_transition :: "claim_state \<Rightarrow> internal_cf \<Rightarrow> internal_cf" where
  "icf_transition st cf = cf\<lparr>icf_state_machine := sm_transition (icf_state_machine cf) st\<rparr>"

definition icf_add_claim_time :: "u32 \<Rightarrow> internal_cf \<Rightarrow> internal_cf" where
  "icf_add_claim_time ms cf = cf\<lparr>icf_claim_timer_ms := saturating_add (icf_claim_timer_ms cf) ms\<rparr>"

definition icf_reset_claim_timer :: "internal_cf \<Rightarrow> internal_cf" where
  "icf_reset_claim_timer cf = cf\<lparr>icf_claim_timer_ms := 0\<rparr>"

definition icf_emit_claimed :: "address \<Rightarrow> internal_cf \<Rightarrow> internal_cf" where
  "icf_emit_claimed addr cf =
     cf\<lparr>icf_on_address_claimed := event_emit (icf_on_address_claimed cf) addr\<rparr>"

definition icf_emit_lost :: "internal_cf \<Rightarrow> internal_cf" where
  "icf_emit_lost cf = cf\<lparr>icf_on_address_lost := event_emit (icf_on_address_lost cf) ()\<rparr>"

definition icf_is_online :: "internal_cf \<Rightarrow> bool" where
  "icf_is_online cf = cfn_is_online (icf_cf cf)"

lemmas icf_access_defs = icf_name_def icf_address_def icf_port_def icf_claim_state_def
  icf_is_online_def cfn_is_online_def

lemmas icf_mutator_defs = icf_set_address_def icf_set_name_def icf_set_state_def icf_transition_def
  icf_add_claim_time_def icf_reset_claim_timer_def icf_emit_claimed_def icf_emit_lost_def

text \<open>What each mutator changes of the observable state, as rewrite rules.\<close>

lemma icf_name_simps [simp]:
  "icf_name (icf_set_address a cf) = icf_name cf"
  "icf_name (icf_set_state st cf) = icf_name cf"
  "icf_name (icf_transition cs cf) = icf_name cf"
  "icf_name (icf_add_claim_time ms cf) = icf_name cf"
  "icf_name (icf_reset_claim_timer cf) = icf_name cf"
  "icf_name (icf_emit_claimed a cf) = icf_name cf"
  "icf_name (icf_emit_lost cf) = icf_name cf"
  by (simp_all add: icf_access_defs icf_mutator_defs)

lemma icf_preferred_simps [simp]:
  "icf_preferred_address (icf_set_address a cf) = icf_preferred_address cf"
  "icf_preferred_address (icf_set_state st cf) = icf_preferred_address cf"
  "icf_preferred_address (icf_transition cs cf) = icf_preferred_address cf"
  "icf_preferred_address (icf_add_claim_time ms cf) = icf_preferred_address cf"
  "icf_preferred_address (icf_reset_claim_timer cf) = icf_preferred_address cf"
  "icf_preferred_address (icf_emit_claimed a cf) = icf_preferred_address cf"
  "icf_preferred_address (icf_emit_lost cf) = icf_preferred_address cf"
  by (simp_all add: icf_mutator_defs)

lemma icf_address_simps [simp]:
  "icf_address (icf_set_address a cf) = a"
  "icf_address (icf_set_state st cf) = icf_address cf"
  "icf_address (icf_transition cs cf) = icf_address cf"
  "icf_address (icf_add_claim_time ms cf) = icf_address cf"
  "icf_address (icf_reset_claim_timer cf) = icf_address cf"
  "icf_address (icf_emit_claimed a cf) = icf_address cf"
  "icf_address (icf_emit_lost cf) = icf_address cf"
  by (simp_all add: icf_access_defs icf_mutator_defs)

lemma icf_claim_state_simps [simp]:
  "icf_claim_state (icf_set_address a cf) = icf_claim_state cf"
  "icf_claim_state (icf_set_state st cf) = icf_claim_state cf"
  "icf_claim_state (icf_transition cs cf) = cs"
  "icf_claim_state (icf_add_claim_time ms cf) = icf_claim_state cf"
  "icf_claim_state (icf_reset_claim_timer cf) = icf_claim_state cf"
  "icf_claim_state (icf_emit_claimed a cf) = icf_claim_state cf"
  "icf_claim_state (icf_emit_lost cf) = icf_claim_state cf"
  by (simp_all add: icf_access_defs icf_mutator_defs)

lemma icf_online_simps [simp]:
  "icf_is_online (icf_set_address a cf) = icf_is_online cf"
  "icf_is_online (icf_set_state st cf) = (st = Online)"
  "icf_is_online (icf_transition cs cf) = icf_is_online cf"
  "icf_is_online (icf_add_claim_time ms cf) = icf_is_online cf"
  "icf_is_online (icf_reset_claim_timer cf) = icf_is_online cf"
  "icf_is_online (icf_emit_claimed a cf) = icf_is_online cf"
  "icf_is_online (icf_emit_lost cf) = icf_is_online cf"
  by (simp_all add: icf_access_defs icf_mutator_defs)

lemma icf_event_simps [simp]:
  "icf_on_address_claimed (icf_set_address a cf) = icf_on_address_claimed cf"
  "icf_on_address_claimed (icf_set_state st cf) = icf_on_address_claimed cf"
  "icf_on_address_claimed (icf_transition cs cf) = icf_on_address_claimed cf"
  "icf_on_address_claimed (icf_add_claim_time ms cf) = icf_on_address_claimed cf"
  "icf_on_address_claimed (icf_reset_claim_timer cf) = icf_on_address_claimed cf"
  "icf_on_address_claimed (icf_emit_claimed a cf) = icf_on_address_claimed cf @ [a]"
  "icf_on_address_claimed (icf_emit_lost cf) = icf_on_address_claimed cf"
  by (simp_all add: icf_mutator_defs event_emit_def)

lemma icf_new_simps [simp]:
  "icf_name (icf_new nm port p) = nm" "icf_address (icf_new nm port p) = p"
  "icf_preferred_address (icf_new nm port p) = p" "icf_claim_state (icf_new nm port p) = ClaimNone"
  "\<not> icf_is_online (icf_new nm port p)" "icf_on_address_claimed (icf_new nm port p) = []"
  by (simp_all add: icf_new_def icf_access_defs control_function_new_def sm_new_def)

end
