(* ===== verification/Address_Claim.thy ===== *)
theory Address_Claim
  imports Control_Function
begin

text \<open>
  The ISO 11783-5 address-claim driver (src/src/net/address_claimer.rs).  Every method takes the
  claimer and the control function and returns both, changed, with the frames to transmit.
  The array \<open>occupied_addresses\<close> is a list of 254 flags (\<open>wf_claimer\<close>).
\<close>

section \<open>State\<close>

definition CLAIMABLE_ADDRESS_COUNT :: nat where
  "CLAIMABLE_ADDRESS_COUNT = unat MAX_ADDRESS + 1"

definition SELF_CONFIG_ADDRESS_MIN :: address where
  "SELF_CONFIG_ADDRESS_MIN = 128"

definition SELF_CONFIG_ADDRESS_MAX :: address where
  "SELF_CONFIG_ADDRESS_MAX = 247"

record claimer =
  ac_timeout_ms :: u32
  ac_rtxd_ms :: u32
  ac_attempted_claim :: bool
  ac_claim_guard_timer_ms :: u32
  ac_cannot_claim_pending :: bool
  ac_cannot_claim_delay_timer_ms :: u32
  ac_listen_pending :: bool
  ac_listen_timer_ms :: u32
  ac_reclaim_pending :: bool
  ac_reclaim_delay_timer_ms :: u32
  ac_reclaim_address :: address
  ac_occupied_addresses :: "bool list"

definition claimer_with_timeout :: "u32 \<Rightarrow> u32 \<Rightarrow> claimer option" where
  "claimer_with_timeout base_timeout rtxd_arg = do {
     let rtxd = (if ADDRESS_CLAIM_RTXD_MAX_MS < rtxd_arg then ADDRESS_CLAIM_RTXD_MAX_MS else rtxd_arg);
     tmo \<leftarrow> checked_add base_timeout rtxd;
     Some \<lparr>ac_timeout_ms = tmo, ac_rtxd_ms = rtxd, ac_attempted_claim = False,
           ac_claim_guard_timer_ms = 0, ac_cannot_claim_pending = False,
           ac_cannot_claim_delay_timer_ms = 0, ac_listen_pending = False, ac_listen_timer_ms = 0,
           ac_reclaim_pending = False, ac_reclaim_delay_timer_ms = 0,
           ac_reclaim_address = NULL_ADDRESS,
           ac_occupied_addresses = replicate CLAIMABLE_ADDRESS_COUNT False\<rparr>
   }"

definition claimer_new :: "u32 \<Rightarrow> claimer option" where
  "claimer_new rtxd = claimer_with_timeout ADDRESS_CLAIM_TIMEOUT_MS rtxd"

definition mark_occupied :: "address \<Rightarrow> claimer \<Rightarrow> claimer" where
  "mark_occupied addr c =
     (if addr \<le> MAX_ADDRESS
      then c\<lparr>ac_occupied_addresses := (ac_occupied_addresses c)[unat addr := True]\<rparr> else c)"

definition is_occupied :: "claimer \<Rightarrow> address \<Rightarrow> bool" where
  "is_occupied c addr = (addr \<le> MAX_ADDRESS \<and> ac_occupied_addresses c ! unat addr)"

section \<open>Frame builders\<close>

definition make_request_frame :: frame where
  "make_request_frame =
     frame8 (id_encode Default PGN_REQUEST NULL_ADDRESS BROADCAST_ADDRESS)
       ((replicate 8 0xFF)
          [0 := ucast (PGN_ADDRESS_CLAIMED AND 0xFF),
           1 := ucast (drop_bit 8 PGN_ADDRESS_CLAIMED AND 0xFF),
           2 := ucast (drop_bit 16 PGN_ADDRESS_CLAIMED AND 0xFF)])"

definition make_claim_frame :: "device_name \<Rightarrow> address \<Rightarrow> frame" where
  "make_claim_frame nm addr =
     frame8 (id_encode Default PGN_ADDRESS_CLAIMED addr BROADCAST_ADDRESS) (name_to_bytes nm)"

section \<open>The fallback address search\<close>

text \<open>The bounded loop over the self-configurable range, one iteration per unit of the counter.\<close>

primrec find_next_loop :: "nat \<Rightarrow> claimer \<Rightarrow> internal_cf \<Rightarrow> address \<Rightarrow> address" where
  "find_next_loop 0 c cf next_addr = NULL_ADDRESS"
| "find_next_loop (Suc k) c cf next_addr =
     (if next_addr \<noteq> icf_preferred_address cf \<and> \<not> is_occupied c next_addr then next_addr
      else find_next_loop k c cf
             (if next_addr < SELF_CONFIG_ADDRESS_MAX then next_addr + 1
              else SELF_CONFIG_ADDRESS_MIN))"

definition find_next_address :: "claimer \<Rightarrow> internal_cf \<Rightarrow> address \<Rightarrow> address" where
  "find_next_address c cf current =
     find_next_loop (unat (SELF_CONFIG_ADDRESS_MAX - SELF_CONFIG_ADDRESS_MIN) + 1) c cf
       (if SELF_CONFIG_ADDRESS_MIN \<le> current \<and> current < SELF_CONFIG_ADDRESS_MAX
        then current + 1 else SELF_CONFIG_ADDRESS_MIN)"

section \<open>The operations\<close>

type_synonym claim_result = "claimer \<times> internal_cf \<times> frame list"

definition claimer_start :: "claimer \<Rightarrow> internal_cf \<Rightarrow> claim_result" where
  "claimer_start c0 cf =
     (let c = c0\<lparr>ac_attempted_claim := True,
                 ac_occupied_addresses := replicate CLAIMABLE_ADDRESS_COUNT False\<rparr>
      in if MAX_ADDRESS < icf_preferred_address cf
         then (c\<lparr>ac_reclaim_pending := False, ac_reclaim_delay_timer_ms := 0,
                 ac_reclaim_address := NULL_ADDRESS, ac_claim_guard_timer_ms := 0\<rparr>,
               icf_set_address NULL_ADDRESS (icf_transition Failed (icf_set_state Offline cf)),
               [make_claim_frame (icf_name cf) NULL_ADDRESS])
         else (c\<lparr>ac_listen_pending := True, ac_listen_timer_ms := 0, ac_claim_guard_timer_ms := 0\<rparr>,
               icf_reset_claim_timer (icf_transition SendRequest cf),
               [make_request_frame]))"

definition finish_listen :: "claimer \<Rightarrow> internal_cf \<Rightarrow> claim_result" where
  "finish_listen c0 cf =
     (let c = c0\<lparr>ac_listen_pending := False, ac_listen_timer_ms := 0\<rparr>;
          preferred = icf_preferred_address cf;
          addr = (if is_occupied c preferred \<and> self_configurable (icf_name cf)
                  then find_next_address c cf preferred else preferred)
      in if MAX_ADDRESS < addr
         then (c, icf_set_address NULL_ADDRESS (icf_transition Failed (icf_set_state Offline cf)),
               [make_claim_frame (icf_name cf) NULL_ADDRESS])
         else (c\<lparr>ac_claim_guard_timer_ms := 0\<rparr>,
               icf_transition WaitForContest
                 (icf_reset_claim_timer (icf_transition SendClaim (icf_set_address addr cf))),
               [make_claim_frame (icf_name cf) addr]))"

text \<open>The three later stages of \<open>update\<close>: cannot-claim answer, delayed re-claim, contest guard.\<close>

definition update_cannot_claim :: "claimer \<Rightarrow> internal_cf \<Rightarrow> u32 \<Rightarrow> claimer \<times> frame list" where
  "update_cannot_claim c cf elapsed =
     (if ac_cannot_claim_pending c
      then
        let t = saturating_add (ac_cannot_claim_delay_timer_ms c) elapsed
        in if ac_rtxd_ms c \<le> t
           then (c\<lparr>ac_cannot_claim_pending := False, ac_cannot_claim_delay_timer_ms := 0\<rparr>,
                 if icf_claim_state cf = Failed
                 then [make_claim_frame (icf_name cf) NULL_ADDRESS] else [])
           else (c\<lparr>ac_cannot_claim_delay_timer_ms := t\<rparr>, [])
      else (c, []))"

definition update_reclaim :: "claimer \<Rightarrow> internal_cf \<Rightarrow> u32 \<Rightarrow> claim_result" where
  "update_reclaim c0 cf elapsed =
     (let t = saturating_add (ac_reclaim_delay_timer_ms c0) elapsed;
          c1 = c0\<lparr>ac_reclaim_delay_timer_ms := t\<rparr>
      in if ac_rtxd_ms c0 \<le> t
         then
           let c = c1\<lparr>ac_reclaim_pending := False\<rparr>;
               addr0 = ac_reclaim_address c;
               addr = (if MAX_ADDRESS < addr0 \<or> addr0 = icf_preferred_address cf \<or> is_occupied c addr0
                       then find_next_address c cf addr0 else addr0)
           in if MAX_ADDRESS < addr
              then (c\<lparr>ac_reclaim_address := NULL_ADDRESS, ac_reclaim_delay_timer_ms := 0,
                      ac_claim_guard_timer_ms := 0\<rparr>,
                    icf_transition Failed (icf_set_state Offline (icf_set_address NULL_ADDRESS cf)),
                    [make_claim_frame (icf_name cf) NULL_ADDRESS])
              else (c\<lparr>ac_reclaim_address := addr, ac_claim_guard_timer_ms := 0\<rparr>,
                    icf_transition WaitForContest
                      (icf_transition SendClaim (icf_reset_claim_timer (icf_set_address addr cf))),
                    [make_claim_frame (icf_name cf) addr])
         else (c1, cf, []))"

definition update_contest :: "claimer \<Rightarrow> internal_cf \<Rightarrow> u32 \<Rightarrow> claimer \<times> internal_cf" where
  "update_contest c cf0 elapsed =
     (if icf_claim_state cf0 = WaitForContest
      then
        let cf = icf_add_claim_time elapsed cf0;
            t = saturating_add (ac_claim_guard_timer_ms c) elapsed;
            c' = c\<lparr>ac_claim_guard_timer_ms := t\<rparr>
        in if ac_timeout_ms c \<le> t
           then
             let cf1 = icf_transition Claimed cf;
                 cf2 = (if icf_address cf1 = NULL_ADDRESS
                        then icf_set_address (icf_preferred_address cf1) cf1 else cf1);
                 cf3 = icf_set_state Online cf2
             in (c', icf_emit_claimed (icf_address cf3) cf3)
           else (c', cf)
      else (c, cf0))"

definition claimer_update :: "claimer \<Rightarrow> internal_cf \<Rightarrow> u32 \<Rightarrow> claim_result" where
  "claimer_update c cf elapsed =
     (if ac_listen_pending c
      then
        let t = saturating_add (ac_listen_timer_ms c) elapsed;
            c' = c\<lparr>ac_listen_timer_ms := t\<rparr>
        in if ac_timeout_ms c \<le> t then finish_listen c' cf else (c', cf, [])
      else
        let (c1, frames) = update_cannot_claim c cf elapsed
        in if ac_reclaim_pending c1
           then let (c2, cf2, more) = update_reclaim c1 cf elapsed in (c2, cf2, frames @ more)
           else let (c2, cf2) = update_contest c1 cf elapsed in (c2, cf2, frames))"

text \<open>The yielding half of \<open>handle_claim\<close>, entered when the contest is lost.\<close>

definition yield_address :: "claimer \<Rightarrow> internal_cf \<Rightarrow> address \<Rightarrow> claim_result" where
  "yield_address c cf0 claimed_address =
     (let cf = icf_emit_lost (icf_set_state Offline cf0);
          failed = (c, icf_set_address NULL_ADDRESS (icf_transition Failed cf),
                    [make_claim_frame (icf_name cf) NULL_ADDRESS])
      in if \<not> self_configurable (icf_name cf) then failed
         else
           let next_addr = find_next_address c cf claimed_address
           in if MAX_ADDRESS < next_addr then failed
              else if 0 < ac_rtxd_ms c
              then (c\<lparr>ac_reclaim_pending := True, ac_reclaim_delay_timer_ms := 0,
                      ac_reclaim_address := next_addr\<rparr>,
                    if icf_claim_state cf = Claimed then icf_transition WaitForClaim cf else cf,
                    [])
              else (c\<lparr>ac_claim_guard_timer_ms := 0\<rparr>,
                    icf_transition WaitForContest
                      (icf_transition SendClaim
                        (icf_reset_claim_timer (icf_set_address next_addr cf))),
                    [make_claim_frame (icf_name cf) next_addr]))"

definition handle_claim :: "claimer \<Rightarrow> internal_cf \<Rightarrow> address \<Rightarrow> device_name \<Rightarrow> claim_result" where
  "handle_claim c0 cf claimed_address other_name =
     (if MAX_ADDRESS < claimed_address then (c0, cf, [])
      else
        let c = (if other_name \<noteq> icf_name cf then mark_occupied claimed_address c0 else c0)
        in if \<not> ac_attempted_claim c then (c, cf, [])
           else if icf_claim_state cf = Failed then (c, cf, [])
           else if ac_listen_pending c then (c, cf, [])
           else if claimed_address \<noteq> icf_address cf then (c, cf, [])
           else if other_name = icf_name cf then (c, cf, [])
           else if icf_name cf < other_name
           then (c, cf, [make_claim_frame (icf_name cf) (icf_address cf)])
           else yield_address c cf claimed_address)"

definition handle_duplicate_name :: "claimer \<Rightarrow> internal_cf \<Rightarrow> claim_result" where
  "handle_duplicate_name c cf =
     (if \<not> ac_attempted_claim c \<or> icf_claim_state cf = Failed then (c, cf, [])
      else (c\<lparr>ac_reclaim_pending := False, ac_reclaim_delay_timer_ms := 0,
              ac_reclaim_address := NULL_ADDRESS, ac_claim_guard_timer_ms := 0\<rparr>,
            icf_set_address NULL_ADDRESS
              (icf_transition Failed (icf_emit_lost (icf_set_state Offline cf))),
            [make_claim_frame (icf_name cf) NULL_ADDRESS]))"

definition handle_request_for_claim :: "claimer \<Rightarrow> internal_cf \<Rightarrow> claim_result" where
  "handle_request_for_claim c cf =
     (if \<not> ac_attempted_claim c then (c, cf, [])
      else if ac_reclaim_pending c then (c, cf, [])
      else
        case icf_claim_state cf of
          Claimed \<Rightarrow> (c, cf, [make_claim_frame (icf_name cf) (icf_address cf)])
        | WaitForContest \<Rightarrow> (c, cf, [make_claim_frame (icf_name cf) (icf_address cf)])
        | Failed \<Rightarrow>
            if ac_rtxd_ms c = 0 then (c, cf, [make_claim_frame (icf_name cf) NULL_ADDRESS])
            else (c\<lparr>ac_cannot_claim_pending := True, ac_cannot_claim_delay_timer_ms := 0\<rparr>, cf, [])
        | _ \<Rightarrow> (c, cf, []))"

text \<open>The NAME-derived transmit delay: eight rounds of FNV-1a, then 0.6 ms per unit.\<close>

primrec fnv_loop :: "nat list \<Rightarrow> u64 \<Rightarrow> u64 \<Rightarrow> u64" where
  "fnv_loop [] nm hash = hash"
| "fnv_loop (i # is) nm hash =
     fnv_loop is nm ((hash XOR (drop_bit (i * 8) nm AND 0xFF)) * 0x00000100000001B3)"

definition rtxd_for_name :: "device_name \<Rightarrow> u32" where
  "rtxd_for_name nm =
     (let hash = fnv_loop [0..<8] (name_raw nm) 0xcbf29ce484222325;
          random_byte = ucast (hash AND 0xFF) :: u32;
          delay = random_byte * 6 div 10
      in if ADDRESS_CLAIM_RTXD_MAX_MS < delay then ADDRESS_CLAIM_RTXD_MAX_MS else delay)"

end
