(* ===== verification/Claim_Protocol.thy ===== *)
theory Claim_Protocol
  imports Address_Claim
begin

text \<open>
  What the address-claim driver guarantees: the fallback search is exhaustive and fair, the
  control function and the claimer stay consistent over every sequence of inputs, an uncontested
  claim completes, and a contest for an address has one winner.
\<close>

section \<open>Claim frames on the wire\<close>

lemma claim_frame_wire [simp]:
  "frame_source (make_claim_frame nm a) = a"
  "frame_pgn (make_claim_frame nm a) = PGN_ADDRESS_CLAIMED"
  "frame_is_broadcast (make_claim_frame nm a)"
  "name_from_bytes (fr_data (make_claim_frame nm a)) = Some nm"
  "wf_frame (make_claim_frame nm a)"
  by (simp_all add: frame_accessors make_claim_frame_def id_pgn_encode pgn_consts_valid
      id_is_broadcast_encode pgn_normalize_consts)

section \<open>The fallback search\<close>

definition ring_succ :: "address \<Rightarrow> address" where
  "ring_succ a = (if a < SELF_CONFIG_ADDRESS_MAX then a + 1 else SELF_CONFIG_ADDRESS_MIN)"

definition self_config_range :: "address \<Rightarrow> bool" where
  "self_config_range a = (SELF_CONFIG_ADDRESS_MIN \<le> a \<and> a \<le> SELF_CONFIG_ADDRESS_MAX)"

definition search_start :: "address \<Rightarrow> address" where
  "search_start cur =
     (if SELF_CONFIG_ADDRESS_MIN \<le> cur \<and> cur < SELF_CONFIG_ADDRESS_MAX
      then cur + 1 else SELF_CONFIG_ADDRESS_MIN)"

definition addr_free :: "claimer \<Rightarrow> internal_cf \<Rightarrow> address \<Rightarrow> bool" where
  "addr_free c cf a = (a \<noteq> icf_preferred_address cf \<and> \<not> is_occupied c a)"

lemmas self_config_consts = SELF_CONFIG_ADDRESS_MIN_def SELF_CONFIG_ADDRESS_MAX_def

lemma self_config_range_unat: "self_config_range a \<longleftrightarrow> 128 \<le> unat a \<and> unat a \<le> 247"
  by (simp add: self_config_range_def self_config_consts word_le_nat_alt)

lemma unat_ring_succ:
  "self_config_range a \<Longrightarrow> unat (ring_succ a) = 128 + (unat a - 128 + 1) mod 120"
  by (auto simp: ring_succ_def self_config_range_unat self_config_consts word_less_nat_alt
      unat_word_ariths mod_if)

lemma self_config_offset: "self_config_range a \<Longrightarrow> (unat a - 128) mod 120 = unat a - 128"
  by (rule mod_less) (auto simp: self_config_range_unat)

lemma unat_ring_funpow:
  assumes "self_config_range a"
  shows "unat ((ring_succ ^^ k) a) = 128 + (unat a - 128 + k) mod 120"
proof (induction k)
  case 0
  then show ?case using assms self_config_offset [OF assms] by (simp add: self_config_range_unat)
next
  case (Suc k)
  have "(unat a - 128 + k) mod 120 < 120" by simp
  then have "self_config_range ((ring_succ ^^ k) a)" using Suc by (simp add: self_config_range_unat)
  then show ?case using Suc by (simp add: unat_ring_succ mod_Suc_eq)
qed

lemma ring_funpow_range:
  assumes "self_config_range a"
  shows "self_config_range ((ring_succ ^^ k) a)"
proof -
  have "(unat a - 128 + k) mod 120 < 120" by simp
  then show ?thesis using unat_ring_funpow [OF assms, of k] by (simp add: self_config_range_unat)
qed

lemma ring_reaches:
  assumes "self_config_range a" and "self_config_range x"
  shows "\<exists>k < 120. (ring_succ ^^ k) a = x"
proof -
  let ?k = "(unat x + 120 - unat a) mod 120"
  have "(unat a - 128 + ?k) mod 120 = (unat a - 128 + (unat x + 120 - unat a)) mod 120"
    by (simp add: mod_add_right_eq)
  also have "unat a - 128 + (unat x + 120 - unat a) = unat x - 128 + 120"
    using assms by (simp add: self_config_range_unat)
  also have "(unat x - 128 + 120) mod 120 = unat x - 128"
    unfolding mod_add_self2 by (rule self_config_offset [OF assms(2)])
  finally have "unat ((ring_succ ^^ ?k) a) = unat x"
    using assms by (simp add: unat_ring_funpow self_config_range_unat)
  then show ?thesis by (metis mod_less_divisor word_unat_eq_iff zero_less_numeral)
qed

lemma find_next_loop_cases:
  "(\<exists>k < n. find_next_loop n c cf a = (ring_succ ^^ k) a \<and> addr_free c cf ((ring_succ ^^ k) a)
      \<and> (\<forall>j < k. \<not> addr_free c cf ((ring_succ ^^ j) a)))
   \<or> find_next_loop n c cf a = NULL_ADDRESS \<and> (\<forall>j < n. \<not> addr_free c cf ((ring_succ ^^ j) a))"
proof (induction n arbitrary: a)
  case (Suc n)
  show ?case
  proof (cases "addr_free c cf a")
    case True
    then show ?thesis by (auto simp: addr_free_def)
  next
    case False
    have unfold: "find_next_loop (Suc n) c cf a = find_next_loop n c cf (ring_succ a)"
      using False by (auto simp: addr_free_def ring_succ_def)
    from Suc.IH [of "ring_succ a"] show ?thesis
    proof (elim disjE exE conjE)
      fix k assume k: "k < n" "find_next_loop n c cf (ring_succ a) = (ring_succ ^^ k) (ring_succ a)"
        "addr_free c cf ((ring_succ ^^ k) (ring_succ a))"
        "\<forall>j < k. \<not> addr_free c cf ((ring_succ ^^ j) (ring_succ a))"
      have "\<forall>j < Suc k. \<not> addr_free c cf ((ring_succ ^^ j) a)"
        using k(4) False by (auto simp: funpow_swap1 less_Suc_eq_0_disj)
      then show ?thesis using k(1-3)
        by (intro disjI1 exI [of _ "Suc k"]) (simp del: find_next_loop.simps add: unfold funpow_swap1)
    next
      assume k: "find_next_loop n c cf (ring_succ a) = NULL_ADDRESS"
        "\<forall>j < n. \<not> addr_free c cf ((ring_succ ^^ j) (ring_succ a))"
      have "\<forall>j < Suc n. \<not> addr_free c cf ((ring_succ ^^ j) a)"
        using k(2) False by (auto simp: funpow_swap1 less_Suc_eq_0_disj)
      then show ?thesis using k(1) unfold by simp
    qed
  qed
qed simp

lemma search_start_range: "self_config_range (search_start cur)"
  by (auto simp: search_start_def self_config_range_unat self_config_consts word_le_nat_alt
      word_less_nat_alt unat_word_ariths)

lemma find_next_address_loop:
  "find_next_address c cf cur = find_next_loop 120 c cf (search_start cur)"
  by (simp add: find_next_address_def search_start_def self_config_consts)

text \<open>
  The search returns the first free address after the current one in cyclic order, and reports
  failure only when the whole range is taken.
\<close>

lemma find_next_address_cases:
  obtains (found) k where "k < 120" and "find_next_address c cf cur = (ring_succ ^^ k) (search_start cur)"
      and "self_config_range (find_next_address c cf cur)"
      and "addr_free c cf (find_next_address c cf cur)"
      and "\<forall>j < k. \<not> addr_free c cf ((ring_succ ^^ j) (search_start cur))"
    | (full) "find_next_address c cf cur = NULL_ADDRESS"
      and "\<forall>a. self_config_range a \<longrightarrow> \<not> addr_free c cf a"
  using find_next_loop_cases [of 120 c cf "search_start cur"] search_start_range [of cur]
  by (metis find_next_address_loop ring_funpow_range ring_reaches)

lemma find_next_address_claimable:
  "\<not> MAX_ADDRESS < find_next_address c cf cur \<Longrightarrow>
     self_config_range (find_next_address c cf cur) \<and> addr_free c cf (find_next_address c cf cur)"
  by (cases rule: find_next_address_cases [of c cf cur]) (auto simp: address_consts)

lemma self_config_claimable: "self_config_range a \<Longrightarrow> a \<le> MAX_ADDRESS"
  by (simp add: self_config_range_unat address_consts word_le_nat_alt)

section \<open>Inputs and the invariant\<close>

datatype claim_input =
    Update u32
  | PeerClaim address device_name
  | DuplicateName
  | RequestForClaim

definition claim_step ::
  "claim_input \<Rightarrow> claimer \<times> internal_cf \<Rightarrow> ((claimer \<times> internal_cf) \<times> frame list) option" where
  "claim_step i s =
     (let (c', cf', frames) =
        (case i of
           Update ms \<Rightarrow> claimer_update (fst s) (snd s) ms
         | PeerClaim a nm \<Rightarrow> handle_claim (fst s) (snd s) a nm
         | DuplicateName \<Rightarrow> handle_duplicate_name (fst s) (snd s)
         | RequestForClaim \<Rightarrow> handle_request_for_claim (fst s) (snd s))
      in Some ((c', cf'), frames))"

text \<open>The addresses a control function may use: its preferred one, or a self-configured one.\<close>

definition permitted_address :: "device_name \<Rightarrow> address \<Rightarrow> address \<Rightarrow> bool" where
  "permitted_address nm preferred a =
     (a = preferred \<and> preferred \<le> MAX_ADDRESS \<or> self_configurable nm \<and> self_config_range a)"

definition wf_claimer :: "claimer \<Rightarrow> bool" where
  "wf_claimer c = (length (ac_occupied_addresses c) = CLAIMABLE_ADDRESS_COUNT
     \<and> ac_rtxd_ms c \<le> ADDRESS_CLAIM_RTXD_MAX_MS)"

text \<open>
  A re-claim may still be queued when the address-table fills up; the queued address is then
  taken as well, so the pending re-claim can only confirm the failure.
\<close>

definition range_full :: "claimer \<Rightarrow> address \<Rightarrow> bool" where
  "range_full c preferred \<longleftrightarrow> (\<forall>a. self_config_range a \<longrightarrow> a = preferred \<or> is_occupied c a)"

definition claim_state_inv :: "claimer \<Rightarrow> internal_cf \<Rightarrow> bool" where
  "claim_state_inv c cf =
     (case icf_claim_state cf of
        ClaimNone \<Rightarrow> \<not> ac_attempted_claim c \<and> \<not> ac_listen_pending c \<and> \<not> ac_reclaim_pending c
      | SendRequest \<Rightarrow> ac_attempted_claim c \<and> ac_listen_pending c \<and> \<not> ac_reclaim_pending c
          \<and> icf_preferred_address cf \<le> MAX_ADDRESS
      | SendClaim \<Rightarrow> False
      | WaitForContest \<Rightarrow> ac_attempted_claim c \<and> \<not> ac_listen_pending c
          \<and> permitted_address (icf_name cf) (icf_preferred_address cf) (icf_address cf)
      | WaitForClaim \<Rightarrow> ac_attempted_claim c \<and> \<not> ac_listen_pending c \<and> ac_reclaim_pending c
          \<and> permitted_address (icf_name cf) (icf_preferred_address cf) (icf_address cf)
      | Claimed \<Rightarrow> ac_attempted_claim c \<and> \<not> ac_listen_pending c \<and> \<not> ac_reclaim_pending c
          \<and> permitted_address (icf_name cf) (icf_preferred_address cf) (icf_address cf)
      | Failed \<Rightarrow> ac_attempted_claim c \<and> icf_address cf = NULL_ADDRESS
          \<and> (ac_listen_pending c \<longrightarrow> icf_preferred_address cf \<le> MAX_ADDRESS \<and> \<not> ac_reclaim_pending c)
          \<and> (ac_reclaim_pending c \<longrightarrow> range_full c (icf_preferred_address cf)))"

definition claim_inv :: "device_name \<Rightarrow> address \<Rightarrow> claimer \<times> internal_cf \<Rightarrow> bool" where
  "claim_inv nm preferred s =
     (wf_claimer (fst s)
      \<and> icf_name (snd s) = nm
      \<and> icf_preferred_address (snd s) = preferred
      \<and> (icf_is_online (snd s) \<longleftrightarrow> icf_claim_state (snd s) = Claimed)
      \<and> (ac_reclaim_pending (fst s) \<longrightarrow> 0 < ac_rtxd_ms (fst s) \<and> self_configurable nm
           \<and> self_config_range (ac_reclaim_address (fst s)))
      \<and> claim_state_inv (fst s) (snd s))"

definition claim_output :: "device_name \<Rightarrow> address \<Rightarrow> frame \<Rightarrow> bool" where
  "claim_output nm preferred f =
     (f = make_claim_frame nm NULL_ADDRESS
      \<or> permitted_address nm preferred (frame_source f) \<and> f = make_claim_frame nm (frame_source f))"

lemma claim_output_simps [simp]:
  "claim_output nm p (make_claim_frame nm NULL_ADDRESS)"
  "permitted_address nm p a \<Longrightarrow> claim_output nm p (make_claim_frame nm a)"
  by (simp_all add: claim_output_def)

lemma permitted_claimable: "permitted_address nm p a \<Longrightarrow> a \<le> MAX_ADDRESS"
  by (auto simp: permitted_address_def self_config_claimable)

lemma permitted_not_null [simp]: "permitted_address nm p a \<Longrightarrow> a \<noteq> NULL_ADDRESS"
  using permitted_claimable [of nm p a] by (auto simp: address_consts)

lemma not_permitted_null [simp]: "\<not> permitted_address nm p NULL_ADDRESS"
  using permitted_not_null by blast

lemma permitted_preferred: "p \<le> MAX_ADDRESS \<Longrightarrow> permitted_address nm p p"
  by (simp add: permitted_address_def)

lemma permitted_found:
  "self_configurable nm \<Longrightarrow> \<not> MAX_ADDRESS < find_next_address c cf cur \<Longrightarrow>
   permitted_address nm p (find_next_address c cf cur)"
  using find_next_address_claimable [of c cf cur] by (simp add: permitted_address_def)

lemma wf_claimer_mark [simp]: "wf_claimer c \<Longrightarrow> wf_claimer (mark_occupied a c)"
  by (simp add: wf_claimer_def mark_occupied_def)

lemma mark_occupied_simps [simp]:
  "ac_attempted_claim (mark_occupied a c) = ac_attempted_claim c"
  "ac_listen_pending (mark_occupied a c) = ac_listen_pending c"
  "ac_reclaim_pending (mark_occupied a c) = ac_reclaim_pending c"
  "ac_rtxd_ms (mark_occupied a c) = ac_rtxd_ms c"
  "ac_timeout_ms (mark_occupied a c) = ac_timeout_ms c"
  "ac_claim_guard_timer_ms (mark_occupied a c) = ac_claim_guard_timer_ms c"
  "ac_listen_timer_ms (mark_occupied a c) = ac_listen_timer_ms c"
  "ac_cannot_claim_pending (mark_occupied a c) = ac_cannot_claim_pending c"
  by (simp_all add: mark_occupied_def)

lemma is_occupied_mark:
  "wf_claimer c \<Longrightarrow> is_occupied (mark_occupied a c) b \<longleftrightarrow> is_occupied c b \<or> a = b \<and> a \<le> MAX_ADDRESS"
  by (auto simp: is_occupied_def mark_occupied_def wf_claimer_def CLAIMABLE_ADDRESS_COUNT_def
      nth_list_update word_unat_eq_iff [symmetric] word_le_nat_alt)

lemma range_full_mark [simp]:
  "wf_claimer c \<Longrightarrow> range_full c p \<Longrightarrow> range_full (mark_occupied a c) p"
  by (auto simp: range_full_def is_occupied_mark)

lemma range_full_update [simp]:
  "range_full (c\<lparr>ac_cannot_claim_pending := b\<rparr>) p = range_full c p"
  "range_full (c\<lparr>ac_cannot_claim_delay_timer_ms := t\<rparr>) p = range_full c p"
  "range_full (c\<lparr>ac_reclaim_delay_timer_ms := t\<rparr>) p = range_full c p"
  "range_full (c\<lparr>ac_claim_guard_timer_ms := t\<rparr>) p = range_full c p"
  "range_full (c\<lparr>ac_listen_timer_ms := t\<rparr>) p = range_full c p"
  by (simp_all add: range_full_def is_occupied_def)

lemma find_next_full_iff:
  "MAX_ADDRESS < find_next_address c cf cur \<longleftrightarrow> range_full c (icf_preferred_address cf)"
proof (cases rule: find_next_address_cases [of c cf cur])
  case (found k)
  then show ?thesis
    using self_config_claimable [OF found(3)]
    by (auto simp: range_full_def addr_free_def not_less [symmetric])
next
  case full
  then show ?thesis by (auto simp: range_full_def addr_free_def address_consts)
qed

lemmas claim_inv_defs = claim_inv_def claim_state_inv_def wf_claimer_def

lemma finish_listen_inv:
  assumes "claim_inv nm p (c, cf)" and "ac_listen_pending c"
    and "finish_listen c cf = (c', cf', fs)"
  shows "claim_inv nm p (c', cf') \<and> (\<forall>f \<in> set fs. claim_output nm p f)"
proof -
  have "icf_claim_state cf = SendRequest \<or> icf_claim_state cf = Failed" "p \<le> MAX_ADDRESS"
    "\<not> icf_is_online cf" "ac_attempted_claim c" "\<not> ac_reclaim_pending c"
    using assms(1,2) by (auto simp: claim_inv_defs split: claim_state.splits)
  then show ?thesis
    using assms
    by (auto simp: finish_listen_def Let_def claim_inv_defs permitted_found permitted_preferred
        split: if_splits)
qed

lemma claim_inv_update [simp]:
  "claim_inv nm p (c\<lparr>ac_cannot_claim_pending := b\<rparr>, cf) = claim_inv nm p (c, cf)"
  "claim_inv nm p (c\<lparr>ac_cannot_claim_delay_timer_ms := t\<rparr>, cf) = claim_inv nm p (c, cf)"
  "claim_inv nm p (c\<lparr>ac_claim_guard_timer_ms := t\<rparr>, cf) = claim_inv nm p (c, cf)"
  "claim_inv nm p (c\<lparr>ac_listen_timer_ms := t\<rparr>, cf) = claim_inv nm p (c, cf)"
  "claim_inv nm p (c\<lparr>ac_reclaim_delay_timer_ms := t\<rparr>, cf) = claim_inv nm p (c, cf)"
  by (cases "icf_claim_state cf"; simp add: claim_inv_def claim_state_inv_def wf_claimer_def)+

lemma update_cannot_claim_inv:
  assumes "claim_inv nm p (c, cf)" and "update_cannot_claim c cf ms = (c', fs)"
  shows "claim_inv nm p (c', cf) \<and> (\<forall>f \<in> set fs. claim_output nm p f)
    \<and> ac_listen_pending c' = ac_listen_pending c \<and> ac_reclaim_pending c' = ac_reclaim_pending c"
proof -
  have "icf_name cf = nm" using assms(1) by (simp add: claim_inv_def)
  then show ?thesis
    using assms by (auto simp: update_cannot_claim_def Let_def split: if_splits)
qed

lemma update_reclaim_inv:
  assumes "claim_inv nm p (c, cf)" and "ac_reclaim_pending c"
    and "update_reclaim c cf ms = (c', cf', fs)"
  shows "claim_inv nm p (c', cf') \<and> (\<forall>f \<in> set fs. claim_output nm p f)"
proof -
  have st: "\<not> icf_is_online cf" "ac_attempted_claim c" "\<not> ac_listen_pending c"
    "permitted_address nm p (ac_reclaim_address c)"
    using assms(1,2) by (auto simp: claim_inv_defs permitted_address_def split: claim_state.splits)
  show ?thesis
  proof (cases "ac_rtxd_ms c \<le> saturating_add (ac_reclaim_delay_timer_ms c) ms")
    case True
    then show ?thesis
      using st assms
      by (auto simp: update_reclaim_def Let_def claim_inv_defs permitted_found split: if_splits)
  next
    case False
    then show ?thesis using assms by (auto simp: update_reclaim_def Let_def)
  qed
qed

lemma update_contest_inv:
  assumes "claim_inv nm p (c, cf)" and "\<not> ac_reclaim_pending c"
    and "update_contest c cf ms = (c', cf')"
  shows "claim_inv nm p (c', cf')"
proof (cases "icf_claim_state cf = WaitForContest")
  case True
  have "wf_claimer c" "icf_name cf = nm" "icf_preferred_address cf = p" "\<not> icf_is_online cf"
    "ac_attempted_claim c" "\<not> ac_listen_pending c" "permitted_address nm p (icf_address cf)"
    using assms(1) True by (auto simp: claim_inv_def claim_state_inv_def)
  then show ?thesis
    using assms(2,3) True
    by (auto simp: update_contest_def Let_def claim_inv_defs split: if_splits)
next
  case False
  then show ?thesis using assms by (simp add: update_contest_def)
qed

lemma claimer_update_inv:
  assumes "claim_inv nm p (c, cf)" and "claimer_update c cf ms = (c', cf', fs)"
  shows "claim_inv nm p (c', cf') \<and> (\<forall>f \<in> set fs. claim_output nm p f)"
proof (cases "ac_listen_pending c")
  case True
  define c1 where "c1 = c\<lparr>ac_listen_timer_ms := saturating_add (ac_listen_timer_ms c) ms\<rparr>"
  have "claim_inv nm p (c1, cf)" "ac_listen_pending c1" using assms(1) True by (simp_all add: c1_def)
  then show ?thesis
    using assms(2) True finish_listen_inv [of nm p c1 cf c' cf' fs]
    by (auto simp: claimer_update_def Let_def c1_def [symmetric] split: if_splits)
next
  case False
  obtain c1 fs1 where u: "update_cannot_claim c cf ms = (c1, fs1)" by (metis surj_pair)
  note inv1 = update_cannot_claim_inv [OF assms(1) u]
  show ?thesis
    using assms(2) False u inv1 update_reclaim_inv [of nm p c1 cf ms]
      update_contest_inv [of nm p c1 cf ms]
    by (fastforce simp: claimer_update_def split: if_splits prod.splits)
qed

lemma claim_inv_active:
  assumes "claim_inv nm p (c, cf)" and "ac_attempted_claim c" and "\<not> ac_listen_pending c"
    and "icf_claim_state cf \<noteq> Failed"
  shows "icf_claim_state cf \<in> {WaitForContest, WaitForClaim, Claimed} \<and> wf_claimer c
    \<and> icf_name cf = nm \<and> icf_preferred_address cf = p
    \<and> permitted_address nm p (icf_address cf)"
  using assms by (cases "icf_claim_state cf") (auto simp: claim_inv_def claim_state_inv_def)

lemma claim_inv_observable:
  assumes "claim_inv nm p (c, cf)"
  shows "(icf_is_online cf \<longleftrightarrow> icf_claim_state cf = Claimed)
    \<and> (icf_is_online cf \<longrightarrow> permitted_address nm p (icf_address cf))
    \<and> (icf_claim_state cf = Failed \<longrightarrow> icf_address cf = NULL_ADDRESS)
    \<and> (icf_claim_state cf = WaitForClaim \<longrightarrow> ac_reclaim_pending c)"
  using assms by (cases "icf_claim_state cf") (auto simp: claim_inv_def claim_state_inv_def)

lemma yield_address_inv:
  assumes "claim_inv nm p (c, cf)" and "ac_attempted_claim c" and "\<not> ac_listen_pending c"
    and "icf_claim_state cf \<noteq> Failed" and "yield_address c cf a = (c', cf', fs)"
  shows "claim_inv nm p (c', cf') \<and> (\<forall>f \<in> set fs. claim_output nm p f)"
proof -
  let ?cf = "icf_emit_lost (icf_set_state Offline cf)"
  note act = claim_inv_active [OF assms(1-4)]
  have rc: "ac_reclaim_pending c \<Longrightarrow> 0 < ac_rtxd_ms c \<and> self_configurable nm
      \<and> self_config_range (ac_reclaim_address c)"
    using assms(1) by (simp add: claim_inv_def)
  show ?thesis
  proof (cases "self_configurable nm \<and> \<not> MAX_ADDRESS < find_next_address c ?cf a")
    case True
    note next_ok = find_next_address_claimable [of c ?cf a] permitted_found [of nm c ?cf a p]
    show ?thesis
    proof (cases "icf_claim_state cf = Claimed")
      case True': True
      then show ?thesis
        using assms(2,3,5) True act next_ok rc
        by (auto simp: yield_address_def Let_def claim_inv_defs split: if_splits)
    next
      case False
      then have "icf_claim_state cf = WaitForContest \<or> icf_claim_state cf = WaitForClaim"
        using act by blast
      then show ?thesis
        using assms(2,3,5) True act next_ok rc
        by (auto simp: yield_address_def Let_def claim_inv_defs split: if_splits)
    qed
  next
    case False
    then have "yield_address c cf a = (c, icf_set_address NULL_ADDRESS (icf_transition Failed ?cf),
      [make_claim_frame nm NULL_ADDRESS])"
      using act by (auto simp: yield_address_def Let_def)
    then have "c' = c" "cf' = icf_set_address NULL_ADDRESS (icf_transition Failed ?cf)"
      "fs = [make_claim_frame nm NULL_ADDRESS]"
      using assms(5) by simp_all
    moreover have "ac_reclaim_pending c \<Longrightarrow> range_full c p"
      using False rc act by (simp add: find_next_full_iff)
    ultimately show ?thesis
      using assms(2,3) act rc by (simp add: claim_inv_def claim_state_inv_def)
  qed
qed

lemma claim_inv_mark:
  "claim_inv nm p (c, cf) \<Longrightarrow> claim_inv nm p (mark_occupied a c, cf)"
  using wf_claimer_mark [of c a] range_full_mark [of c p a]
  by (auto simp: claim_inv_def claim_state_inv_def mark_occupied_def split: claim_state.splits)

lemma handle_claim_inv:
  assumes "claim_inv nm p (c, cf)" and "handle_claim c cf a other = (c', cf', fs)"
  shows "claim_inv nm p (c', cf') \<and> (\<forall>f \<in> set fs. claim_output nm p f)"
proof -
  define c1 where "c1 = (if other \<noteq> icf_name cf then mark_occupied a c else c)"
  have inv1: "claim_inv nm p (c1, cf)" using assms(1) by (simp add: c1_def claim_inv_mark)
  have own: "claim_output nm p (make_claim_frame (icf_name cf) (icf_address cf))"
    if "ac_attempted_claim c1" "icf_claim_state cf \<noteq> Failed" "\<not> ac_listen_pending c1"
    using inv1 that by (auto simp: claim_inv_defs split: claim_state.splits)
  show ?thesis
    using assms inv1 own yield_address_inv [OF inv1, of a c' cf' fs]
    by (auto simp: handle_claim_def c1_def [symmetric] Let_def split: if_splits)
qed

lemma handle_duplicate_name_inv:
  assumes "claim_inv nm p (c, cf)" and "handle_duplicate_name c cf = (c', cf', fs)"
  shows "claim_inv nm p (c', cf') \<and> (\<forall>f \<in> set fs. claim_output nm p f)"
proof (cases "\<not> ac_attempted_claim c \<or> icf_claim_state cf = Failed")
  case True
  then show ?thesis using assms by (auto simp: handle_duplicate_name_def)
next
  case False
  have "wf_claimer c" "icf_name cf = nm" "icf_preferred_address cf = p"
    "ac_listen_pending c \<Longrightarrow> icf_preferred_address cf \<le> MAX_ADDRESS"
    using assms(1) False
    by (cases "icf_claim_state cf"; simp add: claim_inv_def claim_state_inv_def)+
  then show ?thesis
    using assms(2) False by (auto simp: handle_duplicate_name_def claim_inv_defs)
qed

lemma handle_request_for_claim_inv:
  assumes "claim_inv nm p (c, cf)" and "handle_request_for_claim c cf = (c', cf', fs)"
  shows "claim_inv nm p (c', cf') \<and> (\<forall>f \<in> set fs. claim_output nm p f)"
proof -
  have "icf_name cf = nm"
    "icf_claim_state cf \<in> {Claimed, WaitForContest} \<Longrightarrow> permitted_address nm p (icf_address cf)"
    using assms(1) by (auto simp: claim_inv_def claim_state_inv_def)
  then show ?thesis
    using assms by (cases "icf_claim_state cf") (auto simp: handle_request_for_claim_def split: if_splits)
qed

lemma claimer_start_inv:
  assumes "claim_inv nm p (c, cf)" and "\<not> ac_attempted_claim c"
    and "claimer_start c cf = (c', cf', fs)"
  shows "claim_inv nm p (c', cf')"
  using assms
  by (auto simp: claimer_start_def Let_def claim_inv_defs split: if_splits claim_state.splits)

lemma claimer_with_timeout_inv:
  assumes "claimer_with_timeout base rtxd = Some c"
  shows "claim_inv nm p (c, icf_new nm port p)"
  using assms
  by (auto simp: claimer_with_timeout_def claim_inv_defs Let_def timeout_consts split: bind_splits if_splits)

lemma claim_step_inv:
  assumes "claim_inv nm p s"
  shows "\<exists>s' out. claim_step i s = Some (s', out) \<and> claim_inv nm p s'
    \<and> (\<forall>f \<in> set out. claim_output nm p f)"
proof -
  obtain c cf where s: "s = (c, cf)" by (cases s)
  have inv: "claim_inv nm p (c, cf)" using assms by (simp add: s)
  obtain c' cf' out where r: "(case i of
           Update ms \<Rightarrow> claimer_update c cf ms | PeerClaim a nm \<Rightarrow> handle_claim c cf a nm
         | DuplicateName \<Rightarrow> handle_duplicate_name c cf
         | RequestForClaim \<Rightarrow> handle_request_for_claim c cf) = (c', cf', out)"
    by (metis prod_cases3)
  have "claim_inv nm p (c', cf') \<and> (\<forall>f \<in> set out. claim_output nm p f)"
    using r claimer_update_inv [OF inv] handle_claim_inv [OF inv]
      handle_duplicate_name_inv [OF inv] handle_request_for_claim_inv [OF inv]
    by (cases i) simp_all
  then show ?thesis using r by (cases i) (simp_all add: claim_step_def s)
qed

interpretation claim: safe_system claim_step "claim_inv nm p" "\<lambda>_. True" "claim_output nm p"
  for nm p
  by unfold_locales (rule claim_step_inv)

section \<open>Before and after a failure\<close>

lemma claim_step_attempted:
  assumes "claim_step i s = Some (s', out)"
  shows "ac_attempted_claim (fst s') = ac_attempted_claim (fst s)"
  using assms
  by (cases s; cases i)
    (auto simp: claim_step_def claimer_update_def finish_listen_def update_cannot_claim_def
      update_reclaim_def update_contest_def handle_claim_def yield_address_def Let_def
      handle_duplicate_name_def handle_request_for_claim_def
      split: if_splits prod.splits claim_state.splits)

text \<open>A control function that has not started its claim stays silent.\<close>

lemma unattempted_silent:
  assumes "claim_inv nm p s" and "\<not> ac_attempted_claim (fst s)"
  shows "\<exists>s'. claim_step i s = Some (s', []) \<and> claim_inv nm p s' \<and> \<not> ac_attempted_claim (fst s')"
proof -
  obtain s' out where s': "claim_step i s = Some (s', out)" "claim_inv nm p s'"
    using claim_step_inv [OF assms(1), of i] by blast
  have none: "icf_claim_state (snd s) = ClaimNone" "\<not> ac_listen_pending (fst s)"
    "\<not> ac_reclaim_pending (fst s)"
    using assms by (auto simp: claim_inv_defs split: claim_state.splits)
  have "out = []"
    using s'(1) assms(2) none
    by (cases s; cases i)
      (auto simp: claim_step_def claimer_update_def update_cannot_claim_def update_contest_def
        handle_claim_def handle_duplicate_name_def handle_request_for_claim_def Let_def
        split: if_splits prod.splits)
  then show ?thesis using s' claim_step_attempted [OF s'(1)] assms(2) by auto
qed

interpretation unattempted: safe_system claim_step
  "\<lambda>s. claim_inv nm p s \<and> \<not> ac_attempted_claim (fst s)" "\<lambda>_. True" "\<lambda>_. False"
  for nm p
  using unattempted_silent by unfold_locales fastforce

definition claim_failed :: "device_name \<Rightarrow> address \<Rightarrow> claimer \<times> internal_cf \<Rightarrow> bool" where
  "claim_failed nm p s = (claim_inv nm p s \<and> icf_claim_state (snd s) = Failed
     \<and> \<not> ac_listen_pending (fst s))"

lemma claim_failed_step:
  assumes "claim_failed nm p s"
  shows "\<exists>s' out. claim_step i s = Some (s', out) \<and> claim_failed nm p s'
    \<and> (\<forall>f \<in> set out. f = make_claim_frame nm NULL_ADDRESS)"
proof -
  obtain c cf where s: "s = (c, cf)" by (cases s)
  obtain s' out where s': "claim_step i s = Some (s', out)" "claim_inv nm p s'"
    using assms claim_step_inv [of nm p s i] by (auto simp: claim_failed_def)
  have f: "icf_claim_state cf = Failed" "\<not> ac_listen_pending c" "icf_name cf = nm"
    "icf_preferred_address cf = p"
    using assms by (auto simp: claim_failed_def claim_inv_def s)
  have full: "ac_reclaim_pending c \<Longrightarrow> range_full c p \<and> self_config_range (ac_reclaim_address c)"
    using assms by (auto simp: claim_failed_def claim_inv_defs s)
  have "icf_claim_state (snd s') = Failed \<and> \<not> ac_listen_pending (fst s')
      \<and> (\<forall>f \<in> set out. f = make_claim_frame nm NULL_ADDRESS)"
  proof (cases i)
    case (Update ms)
    obtain c1 fs1 where u: "update_cannot_claim c cf ms = (c1, fs1)" by (metis surj_pair)
    have c1: "ac_listen_pending c1 = ac_listen_pending c" "ac_reclaim_pending c1 = ac_reclaim_pending c"
      "ac_occupied_addresses c1 = ac_occupied_addresses c" "ac_reclaim_address c1 = ac_reclaim_address c"
      "\<forall>f \<in> set fs1. f = make_claim_frame nm NULL_ADDRESS"
      using u f by (auto simp: update_cannot_claim_def Let_def split: if_splits)
    show ?thesis
      using s'(1) Update f full u c1
      by (auto simp: claim_step_def s claimer_update_def update_reclaim_def update_contest_def Let_def
          find_next_full_iff range_full_def is_occupied_def
          split: if_splits prod.splits)
  qed (use s'(1) f in \<open>auto simp: claim_step_def s handle_claim_def handle_duplicate_name_def
      handle_request_for_claim_def Let_def split: if_splits\<close>)
  then show ?thesis using s' by (auto simp: claim_failed_def)
qed

interpretation failed: safe_system claim_step "claim_failed nm p" "\<lambda>_. True"
  "\<lambda>f. f = make_claim_frame nm NULL_ADDRESS"
  for nm p
  by unfold_locales (rule claim_failed_step)

section \<open>An uncontested claim completes\<close>

definition input_ms :: "claim_input \<Rightarrow> nat" where
  "input_ms i = (case i of Update ms \<Rightarrow> unat ms | _ \<Rightarrow> 0)"

text \<open>Time passes, and peers claim addresses other than ours.\<close>

definition quiet_input :: "address \<Rightarrow> claim_input \<Rightarrow> bool" where
  "quiet_input p i = (case i of Update ms \<Rightarrow> True | PeerClaim a nm \<Rightarrow> a \<noteq> p | _ \<Rightarrow> False)"

definition listening :: "device_name \<Rightarrow> address \<Rightarrow> nat \<Rightarrow> nat \<Rightarrow> claimer \<times> internal_cf \<Rightarrow> bool" where
  "listening nm p tmo t s =
     (claim_inv nm p s \<and> icf_claim_state (snd s) = SendRequest \<and> \<not> is_occupied (fst s) p
      \<and> unat (ac_listen_timer_ms (fst s)) = t \<and> unat (ac_timeout_ms (fst s)) = tmo
      \<and> \<not> ac_cannot_claim_pending (fst s) \<and> icf_on_address_claimed (snd s) = [])"

definition contesting :: "device_name \<Rightarrow> address \<Rightarrow> nat \<Rightarrow> nat \<Rightarrow> claimer \<times> internal_cf \<Rightarrow> bool" where
  "contesting nm p tmo t s =
     (claim_inv nm p s \<and> icf_claim_state (snd s) = WaitForContest \<and> icf_address (snd s) = p
      \<and> unat (ac_claim_guard_timer_ms (fst s)) = t \<and> unat (ac_timeout_ms (fst s)) = tmo
      \<and> \<not> ac_reclaim_pending (fst s)
      \<and> \<not> ac_cannot_claim_pending (fst s) \<and> icf_on_address_claimed (snd s) = [])"

lemma saturating_add_below:
  assumes "unat a + unat b < unat (w :: u32)"
  shows "unat (saturating_add a b) = unat a + unat b" and "\<not> w \<le> saturating_add a b"
proof -
  have lt: "unat a + unat b < 2 ^ 32" using assms unat_u32_less [of w] by simp
  then show "unat (saturating_add a b) = unat a + unat b" by (simp add: arith_simps)
  with assms show "\<not> w \<le> saturating_add a b" by (simp add: word_le_nat_alt)
qed

lemma saturating_add_reaches:
  assumes "unat (w :: u32) \<le> unat a + unat b"
  shows "w \<le> saturating_add a b"
  using assms unat_u32_less [of w] by (simp add: word_le_nat_alt arith_simps)

lemma unat_eq_zero: "unat w = 0 \<Longrightarrow> w = (0 :: 'a::len word)"
  by (metis unat_eq_0)

lemma listening_listens:
  "listening nm p tmo t s \<Longrightarrow> ac_listen_pending (fst s) \<and> ac_attempted_claim (fst s)
     \<and> p \<le> MAX_ADDRESS \<and> icf_preferred_address (snd s) = p \<and> icf_name (snd s) = nm
     \<and> wf_claimer (fst s)"
  by (auto simp: listening_def claim_inv_def claim_state_inv_def)

lemma listening_step:
  assumes "listening nm p tmo t s" and "quiet_input p i" and "t + input_ms i < tmo"
  shows "\<exists>s'. claim_step i s = Some (s', []) \<and> listening nm p tmo (t + input_ms i) s'"
proof -
  obtain s' out where s': "claim_step i s = Some (s', out)" "claim_inv nm p s'"
    using assms(1) claim_step_inv [of nm p s i] by (auto simp: listening_def)
  note l = listening_listens [OF assms(1)]
  show ?thesis
  proof (cases i)
    case (Update ms)
    have "unat (ac_listen_timer_ms (fst s)) + unat ms < unat (ac_timeout_ms (fst s))"
      using assms Update by (simp add: listening_def input_ms_def)
    note sat = saturating_add_below [OF this]
    show ?thesis
      using s' assms l sat Update
      by (auto simp: claim_step_def claimer_update_def Let_def listening_def input_ms_def
          is_occupied_def)
  qed (use s' assms l in \<open>auto simp: claim_step_def handle_claim_def Let_def listening_def
      quiet_input_def input_ms_def is_occupied_mark split: if_splits\<close>)
qed

lemma contesting_step:
  assumes "contesting nm p tmo t s" and "quiet_input p i" and "t + input_ms i < tmo"
  shows "\<exists>s'. claim_step i s = Some (s', []) \<and> contesting nm p tmo (t + input_ms i) s'"
proof -
  obtain s' out where s': "claim_step i s = Some (s', out)" "claim_inv nm p s'"
    using assms(1) claim_step_inv [of nm p s i] by (auto simp: contesting_def)
  have l: "\<not> ac_listen_pending (fst s)" "ac_attempted_claim (fst s)"
    using assms(1) by (auto simp: contesting_def claim_inv_def claim_state_inv_def)
  show ?thesis
  proof (cases i)
    case (Update ms)
    have "unat (ac_claim_guard_timer_ms (fst s)) + unat ms < unat (ac_timeout_ms (fst s))"
      using assms Update by (simp add: contesting_def input_ms_def)
    note sat = saturating_add_below [OF this]
    show ?thesis
      using s' assms l sat Update
      by (auto simp: claim_step_def claimer_update_def update_cannot_claim_def update_contest_def
          Let_def contesting_def input_ms_def)
  qed (use s' assms l in \<open>auto simp: claim_step_def handle_claim_def Let_def contesting_def
      quiet_input_def input_ms_def split: if_splits\<close>)
qed

interpretation listen_phase: timed_phase claim_step "listening nm p tmo" "quiet_input p" input_ms tmo
  for nm p tmo
  by unfold_locales (rule listening_step)

interpretation contest_phase: timed_phase claim_step "contesting nm p tmo" "quiet_input p" input_ms tmo
  for nm p tmo
  by unfold_locales (rule contesting_step)

lemma is_occupied_update [simp]:
  "is_occupied (c\<lparr>ac_listen_pending := b\<rparr>) = is_occupied c"
  "is_occupied (c\<lparr>ac_listen_timer_ms := t\<rparr>) = is_occupied c"
  by (auto simp: is_occupied_def)

lemma finish_listen_free:
  assumes "icf_preferred_address cf \<le> MAX_ADDRESS" and "\<not> is_occupied c (icf_preferred_address cf)"
  shows "finish_listen c cf =
    (c\<lparr>ac_listen_pending := False, ac_listen_timer_ms := 0, ac_claim_guard_timer_ms := 0\<rparr>,
     icf_transition WaitForContest (icf_reset_claim_timer (icf_transition SendClaim
       (icf_set_address (icf_preferred_address cf) cf))),
     [make_claim_frame (icf_name cf) (icf_preferred_address cf)])"
  using assms by (simp add: finish_listen_def Let_def not_less [symmetric])

lemma listening_ends:
  assumes "listening nm p tmo t s" and "tmo \<le> t + unat ms"
  shows "\<exists>s'. claim_step (Update ms) s = Some (s', [make_claim_frame nm p]) \<and> contesting nm p tmo 0 s'"
proof -
  obtain c cf where s: "s = (c, cf)" by (cases s)
  define tm where "tm = saturating_add (ac_listen_timer_ms c) ms"
  have l: "ac_listen_pending c" "p \<le> MAX_ADDRESS" "icf_preferred_address cf = p" "icf_name cf = nm"
    "\<not> ac_reclaim_pending c"
    using listening_listens [OF assms(1)] assms(1)
    by (auto simp: s listening_def claim_inv_def claim_state_inv_def)
  have "ac_timeout_ms c \<le> tm"
    using assms unfolding tm_def by (intro saturating_add_reaches) (simp add: listening_def s)
  then have upd: "claimer_update c cf ms = finish_listen (c\<lparr>ac_listen_timer_ms := tm\<rparr>) cf"
    using l by (simp add: claimer_update_def Let_def tm_def)
  moreover have "claim_inv nm p (c, cf)" using assms(1) by (simp add: listening_def s)
  ultimately show ?thesis
    using claimer_update_inv [of nm p c cf ms] assms(1) l
    by (simp add: claim_step_def s finish_listen_free contesting_def listening_def)
qed

lemma contesting_ends:
  assumes "contesting nm p tmo t s" and "tmo \<le> t + unat ms"
  shows "\<exists>s'. claim_step (Update ms) s = Some (s', []) \<and> icf_claim_state (snd s') = Claimed
    \<and> icf_is_online (snd s') \<and> icf_address (snd s') = p \<and> icf_on_address_claimed (snd s') = [p]"
proof -
  have "ac_timeout_ms (fst s) \<le> saturating_add (ac_claim_guard_timer_ms (fst s)) ms"
    using assms by (intro saturating_add_reaches) (simp add: contesting_def)
  moreover have "\<not> ac_listen_pending (fst s)" "p \<noteq> NULL_ADDRESS"
    using assms(1) by (auto simp: contesting_def claim_inv_def claim_state_inv_def)
  ultimately show ?thesis
    using assms(1)
    by (auto simp: claim_step_def claimer_update_def update_cannot_claim_def update_contest_def
        Let_def contesting_def)
qed

lemma start_listening:
  assumes "claimer_with_timeout base rtxd = Some c0" and "p \<le> MAX_ADDRESS"
    and "claimer_start c0 (icf_new nm port p) = (c, cf, fs)"
  shows "listening nm p (unat (ac_timeout_ms c0)) 0 (c, cf) \<and> fs = [make_request_frame]"
proof -
  have inv: "claim_inv nm p (c, cf)"
    by (rule claimer_start_inv [OF claimer_with_timeout_inv [OF assms(1)] _ assms(3)])
      (use assms(1) in \<open>auto simp: claimer_with_timeout_def Let_def split: bind_splits if_splits\<close>)
  have "unat p < CLAIMABLE_ADDRESS_COUNT"
    using assms(2) by (simp add: CLAIMABLE_ADDRESS_COUNT_def word_le_nat_alt)
  then show ?thesis
    using inv assms
    by (auto simp: listening_def claimer_start_def claimer_with_timeout_def Let_def is_occupied_def
        split: bind_splits if_splits)
qed

text \<open>
  Quiet inputs until the listen window closes, then quiet inputs until the contest window closes:
  exactly one claim frame goes out and the preferred address is held.
\<close>

lemma uncontested_run:
  assumes "listening nm p tmo 0 s"
    and "\<forall>i \<in> set as. quiet_input p i" and "\<forall>i \<in> set bs. quiet_input p i"
    and "sum_list (map input_ms as) < tmo" and "tmo \<le> sum_list (map input_ms as) + unat a"
    and "sum_list (map input_ms bs) < tmo" and "tmo \<le> sum_list (map input_ms bs) + unat b"
  shows "\<exists>s'. run_inputs claim_step (as @ Update a # bs @ [Update b]) s = Some (s', [make_claim_frame nm p])
    \<and> icf_claim_state (snd s') = Claimed \<and> icf_is_online (snd s') \<and> icf_address (snd s') = p
    \<and> icf_on_address_claimed (snd s') = [p]"
proof -
  obtain s1 where s1: "run_inputs claim_step as s = Some (s1, [])"
    "listening nm p tmo (sum_list (map input_ms as)) s1"
    using listen_phase.phase_run [OF assms(1,2)] assms(4) by auto
  obtain s2 where s2: "claim_step (Update a) s1 = Some (s2, [make_claim_frame nm p])"
    "contesting nm p tmo 0 s2"
    using listening_ends [OF s1(2) assms(5)] by blast
  obtain s3 where s3: "run_inputs claim_step bs s2 = Some (s3, [])"
    "contesting nm p tmo (sum_list (map input_ms bs)) s3"
    using contest_phase.phase_run [OF s2(2) assms(3)] assms(6) by auto
  from contesting_ends [OF s3(2) assms(7)] show ?thesis
    using s1(1) s2(1) s3(1) by (auto simp: run_inputs_append)
qed

section \<open>Contests\<close>

text \<open>The two sides of a contest for the address a control function holds.\<close>

lemma handle_claim_wins:
  assumes "claim_inv nm p (c, cf)" and "icf_claim_state cf \<in> {WaitForContest, Claimed}"
    and "nm < other"
  shows "handle_claim c cf (icf_address cf) other =
    (mark_occupied (icf_address cf) c, cf, [make_claim_frame nm (icf_address cf)])"
proof -
  have "permitted_address nm p (icf_address cf)" "ac_attempted_claim c" "\<not> ac_listen_pending c"
    "icf_name cf = nm" "icf_claim_state cf \<noteq> Failed"
    using assms(1,2) by (auto simp: claim_inv_def claim_state_inv_def)
  then show ?thesis
    using permitted_claimable [of nm p "icf_address cf"] assms(3)
    by (auto simp: handle_claim_def Let_def not_less [symmetric])
qed

lemma handle_claim_loses:
  assumes "claim_inv nm p (c, cf)" and "icf_claim_state cf \<in> {WaitForContest, Claimed}"
    and "other < nm"
  shows "handle_claim c cf (icf_address cf) other =
    yield_address (mark_occupied (icf_address cf) c) cf (icf_address cf)"
proof -
  have "permitted_address nm p (icf_address cf)" "ac_attempted_claim c" "\<not> ac_listen_pending c"
    "icf_name cf = nm" "icf_claim_state cf \<noteq> Failed"
    using assms(1,2) by (auto simp: claim_inv_def claim_state_inv_def)
  then show ?thesis
    using permitted_claimable [of nm p "icf_address cf"] assms(3)
    by (auto simp: handle_claim_def Let_def not_less [symmetric])
qed

text \<open>A loser leaves: it reports the loss, goes offline, and gives the address up or queues a move.\<close>

lemma yield_address_leaves:
  assumes "yield_address c cf a = (c', cf', fs)" and "wf_claimer c" and "is_occupied c a"
    and "a \<le> MAX_ADDRESS"
  shows "\<not> icf_is_online cf' \<and> icf_claim_state cf' \<noteq> Claimed
    \<and> (icf_address cf' \<noteq> a \<or> ac_reclaim_pending c' \<and> ac_reclaim_address c' \<noteq> a)
    \<and> length (icf_on_address_lost cf') = Suc (length (icf_on_address_lost cf))"
proof -
  have nn: "a \<noteq> NULL_ADDRESS" using assms(4) by (auto simp: address_consts)
  have ne: "find_next_address c cf1 a \<noteq> a" if "\<not> MAX_ADDRESS < find_next_address c cf1 a" for cf1
    using find_next_address_claimable [OF that] assms(3) by (auto simp: addr_free_def)
  have lost: "icf_on_address_lost (icf_emit_lost cf1) = icf_on_address_lost cf1 @ [()]"
    "icf_on_address_lost (icf_set_state st cf1) = icf_on_address_lost cf1"
    "icf_on_address_lost (icf_set_address b cf1) = icf_on_address_lost cf1"
    "icf_on_address_lost (icf_transition cs cf1) = icf_on_address_lost cf1"
    "icf_on_address_lost (icf_reset_claim_timer cf1) = icf_on_address_lost cf1"
    for cf1 st b cs by (simp_all add: icf_mutator_defs event_emit_def)
  show ?thesis
    using assms(1) nn ne
    by (auto simp: yield_address_def Let_def lost split: if_splits)
qed

lemma handle_claim_loser_leaves:
  assumes "claim_inv nm p (c, cf)" and "icf_claim_state cf \<in> {WaitForContest, Claimed}"
    and "other < nm" and "handle_claim c cf (icf_address cf) other = (c', cf', fs)"
  shows "\<not> icf_is_online cf' \<and> icf_claim_state cf' \<noteq> Claimed
    \<and> (icf_address cf' \<noteq> icf_address cf
       \<or> ac_reclaim_pending c' \<and> ac_reclaim_address c' \<noteq> icf_address cf)
    \<and> length (icf_on_address_lost cf') = Suc (length (icf_on_address_lost cf))"
proof -
  have "permitted_address nm p (icf_address cf)" "wf_claimer c"
    using assms(1,2) by (auto simp: claim_inv_def claim_state_inv_def)
  then show ?thesis
    using assms(4) handle_claim_loses [OF assms(1-3)] permitted_claimable
    by (intro yield_address_leaves [of "mark_occupied (icf_address cf) c"]) (auto simp: is_occupied_mark)
qed

section \<open>The transmit delay\<close>

text \<open>The NAME-derived delay respects the standard's 153 ms, so a claimer built with it exists and
  waits between 250 and 403 ms.\<close>

lemma rtxd_for_name_bounded: "unat (rtxd_for_name nm) \<le> 153"
  by (simp add: rtxd_for_name_def Let_def timeout_consts word_less_nat_alt not_less)

lemma claimer_new_rtxd_for_name:
  "\<exists>c. claimer_new (rtxd_for_name nm) = Some c \<and> ac_rtxd_ms c = rtxd_for_name nm
     \<and> unat (ac_timeout_ms c) = 250 + unat (rtxd_for_name nm)"
proof -
  have "\<not> 153 < rtxd_for_name nm" using rtxd_for_name_bounded [of nm] by (simp add: word_less_nat_alt)
  then show ?thesis
    using rtxd_for_name_bounded [of nm]
    by (simp add: claimer_new_def claimer_with_timeout_def timeout_consts checked_add_Some
        unat_add_no_wrap Let_def)
qed

section \<open>Concrete control functions\<close>

lemma example_claimer:
  "\<exists>c0. claimer_with_timeout 250 10 = Some c0 \<and> ac_timeout_ms c0 = 260 \<and> ac_rtxd_ms c0 = 10
    \<and> ac_occupied_addresses c0 = replicate CLAIMABLE_ADDRESS_COUNT False
    \<and> \<not> ac_listen_pending c0 \<and> \<not> ac_reclaim_pending c0"
  by (simp add: claimer_with_timeout_def checked_add_def timeout_consts Let_def)

text \<open>A control function holding its preferred address, and one that has failed.\<close>

lemma example_claimed:
  assumes "p \<le> MAX_ADDRESS"
  shows "\<exists>c cf. claim_inv nm p (c, cf) \<and> icf_claim_state cf = Claimed \<and> icf_address cf = p
    \<and> ac_rtxd_ms c = 10 \<and> ac_occupied_addresses c = replicate CLAIMABLE_ADDRESS_COUNT False"
proof -
  obtain c0 :: claimer where c0: "ac_rtxd_ms c0 = 10" "\<not> ac_listen_pending c0" "\<not> ac_reclaim_pending c0"
    "ac_occupied_addresses c0 = replicate CLAIMABLE_ADDRESS_COUNT False"
    using example_claimer by blast
  have "claim_inv nm p (c0\<lparr>ac_attempted_claim := True\<rparr>,
      icf_set_state Online (icf_transition Claimed (icf_new nm 0 p)))"
    using c0 assms by (simp add: claim_inv_defs permitted_preferred timeout_consts)
  then show ?thesis using c0 by fastforce
qed

lemma example_failed:
  "\<exists>c cf. claim_inv nm p (c, cf) \<and> icf_claim_state cf = Failed \<and> \<not> ac_listen_pending c"
proof -
  obtain c0 :: claimer where c0: "ac_rtxd_ms c0 = 10" "\<not> ac_listen_pending c0" "\<not> ac_reclaim_pending c0"
    "ac_occupied_addresses c0 = replicate CLAIMABLE_ADDRESS_COUNT False"
    using example_claimer by blast
  have "claim_inv nm p (c0\<lparr>ac_attempted_claim := True\<rparr>,
      icf_set_address NULL_ADDRESS (icf_transition Failed (icf_new nm 0 p)))"
    using c0 by (simp add: claim_inv_defs timeout_consts)
  then show ?thesis using c0 by fastforce
qed

section \<open>Properties\<close>

text \<open>C18: The fallback address search returns the first address, in cyclic order after the
  current one, of the self-configurable range 128..247 that is neither the preferred address nor
  known to be occupied; it returns the null address exactly when the whole range is taken.\<close>

theorem find_next_address_first_free:
  "find_next_address c cf cur = NULL_ADDRESS \<and> range_full c (icf_preferred_address cf)
   \<or> (\<exists>k. k < 120 \<and> find_next_address c cf cur = (ring_succ ^^ k) (search_start cur)
        \<and> self_config_range (find_next_address c cf cur)
        \<and> addr_free c cf (find_next_address c cf cur)
        \<and> list_all (\<lambda>j. \<not> addr_free c cf ((ring_succ ^^ j) (search_start cur))) [0..<k])"
proof (cases rule: find_next_address_cases [of c cf cur])
  case (found k)
  then show ?thesis by (auto simp: list_all_iff)
next
  case full
  then show ?thesis by (auto simp: range_full_def addr_free_def)
qed



text \<open>C13: An uncontested claim completes. After the start, once the time reported by the updates
  reaches the guard window a first and a second time, with peers claiming only other addresses
  meanwhile, exactly one claim for the preferred address has been sent, the control function is
  online at it, and the claimed event was emitted once.\<close>

theorem uncontested_claim_completes:
  assumes "claimer_with_timeout base rtxd = Some c0" and "p \<le> MAX_ADDRESS"
    and "claimer_start c0 (icf_new nm port p) = (c1, cf1, fs)"
    and "\<forall>i \<in> set as. quiet_input p i" and "\<forall>i \<in> set bs. quiet_input p i"
    and "sum_list (map input_ms as) < unat (ac_timeout_ms c0)"
    and "unat (ac_timeout_ms c0) \<le> sum_list (map input_ms as) + unat a"
    and "sum_list (map input_ms bs) < unat (ac_timeout_ms c0)"
    and "unat (ac_timeout_ms c0) \<le> sum_list (map input_ms bs) + unat b"
  shows "\<exists>s. run_inputs claim_step (as @ Update a # bs @ [Update b]) (c1, cf1)
      = Some (s, [make_claim_frame nm p])
    \<and> icf_claim_state (snd s) = Claimed \<and> icf_is_online (snd s) \<and> icf_address (snd s) = p
    \<and> icf_on_address_claimed (snd s) = [p]"
  using start_listening [OF assms(1-3)] uncontested_run [OF _ assms(4-9)] by blast

theorem uncontested_claim_completes_witness:
  "\<exists>c0 c1 cf1 s. claimer_with_timeout 250 10 = Some c0
    \<and> claimer_start c0 (icf_new (Name 9) 0 5) = (c1, cf1, [make_request_frame])
    \<and> run_inputs claim_step [Update 100, PeerClaim 6 (Name 1), Update 200, Update 200, Update 100] (c1, cf1)
      = Some (s, [make_claim_frame (Name 9) 5])
    \<and> icf_claim_state (snd s) = Claimed \<and> icf_address (snd s) = 5"
proof -
  obtain c0 where c0: "claimer_with_timeout 250 10 = Some c0" "ac_timeout_ms c0 = 260"
    using example_claimer by blast
  obtain c1 cf1 fs where st: "claimer_start c0 (icf_new (Name 9) 0 5) = (c1, cf1, fs)"
    by (metis prod_cases3)
  have "fs = [make_request_frame]"
    using start_listening [OF c0(1) _ st] by (simp add: address_consts)
  then show ?thesis
    using uncontested_claim_completes [OF c0(1) _ st, of "[Update 100, PeerClaim 6 (Name 1)]"
        "[Update 200]" 200 100] c0 st
    by (auto simp: address_consts quiet_input_def input_ms_def)
qed

text \<open>C2: A contest has one winner. When two control functions hold the same address and each
  receives the other's claim, the one with the lower NAME keeps its state and defends the
  address with a claim frame, and the other reports the loss, goes offline and either gives the
  address up or has a move to a different address queued.\<close>

theorem contest_has_one_winner:
  assumes "claim_inv nmA pA (cA, cfA)" and "icf_claim_state cfA \<in> {WaitForContest, Claimed}"
    and "claim_inv nmB pB (cB, cfB)" and "icf_claim_state cfB \<in> {WaitForContest, Claimed}"
    and "icf_address cfA = icf_address cfB" and "nmA < nmB"
    and "handle_claim cA cfA (icf_address cfB) nmB = (cA', cfA', fsA)"
    and "handle_claim cB cfB (icf_address cfA) nmA = (cB', cfB', fsB)"
  shows "cfA' = cfA \<and> fsA = [make_claim_frame nmA (icf_address cfA)]
    \<and> \<not> icf_is_online cfB' \<and> icf_claim_state cfB' \<noteq> Claimed
    \<and> (icf_address cfB' \<noteq> icf_address cfA
       \<or> ac_reclaim_pending cB' \<and> ac_reclaim_address cB' \<noteq> icf_address cfA)
    \<and> length (icf_on_address_lost cfB') = Suc (length (icf_on_address_lost cfB))"
  using handle_claim_wins [OF assms(1,2,6)] handle_claim_loser_leaves [OF assms(3,4,6)] assms(5,7,8)
  by auto

theorem contest_has_one_winner_witness:
  "\<exists>cA cfA cB cfB cA' cB' cfB' fsB. icf_address cfA = 200 \<and> icf_address cfB = 200
    \<and> handle_claim cA cfA 200 (Name 8) = (cA', cfA, [make_claim_frame (Name 3) 200])
    \<and> handle_claim cB cfB 200 (Name 3) = (cB', cfB', fsB) \<and> \<not> icf_is_online cfB'"
proof -
  have ok: "(200 :: address) \<le> MAX_ADDRESS" by (simp add: address_consts)
  obtain cA cfA where A: "claim_inv (Name 3) 200 (cA, cfA)" "icf_claim_state cfA \<in> {WaitForContest, Claimed}"
    "icf_address cfA = 200"
    using example_claimed [OF ok] by (metis insertCI)
  obtain cB cfB where B: "claim_inv (Name 8) 200 (cB, cfB)" "icf_claim_state cfB \<in> {WaitForContest, Claimed}"
    "icf_address cfB = 200"
    using example_claimed [OF ok] by (metis insertCI)
  obtain cA' cfA' fsA where hA: "handle_claim cA cfA (icf_address cfB) (Name 8) = (cA', cfA', fsA)"
    by (metis prod_cases3)
  obtain cB' cfB' fsB where hB: "handle_claim cB cfB (icf_address cfA) (Name 3) = (cB', cfB', fsB)"
    by (metis prod_cases3)
  have "Name 3 < Name 8" by (simp add: less_device_name_def)
  note w = contest_has_one_winner [OF A(1,2) B(1,2) _ this hA hB, unfolded A(3) B(3)]
  show ?thesis
    using w [OF refl] hA [unfolded B(3)] hB [unfolded A(3)] A(3) B(3) by blast
qed



text \<open>C20: A duplicate NAME detected while the initial listen window is open does not keep the
  control function off the bus: it sends cannot-claim and fails, but the window stays open, and
  two guard windows later it has claimed its preferred address and is online under the
  ambiguous NAME.\<close>

theorem duplicate_name_while_listening_rejoins:
  assumes "claimer_with_timeout base rtxd = Some c0" and "p \<le> MAX_ADDRESS"
    and "claimer_start c0 (icf_new nm port p) = (c1, cf1, fs)"
    and "ac_timeout_ms c0 \<le> a" and "ac_timeout_ms c0 \<le> b"
  shows "\<exists>s1 s. claim_step DuplicateName (c1, cf1) = Some (s1, [make_claim_frame nm NULL_ADDRESS])
    \<and> icf_claim_state (snd s1) = Failed
    \<and> run_inputs claim_step [Update a, Update b] s1 = Some (s, [make_claim_frame nm p])
    \<and> icf_claim_state (snd s) = Claimed \<and> icf_is_online (snd s) \<and> icf_address (snd s) = p"
proof -
  have l: "listening nm p (unat (ac_timeout_ms c0)) 0 (c1, cf1)"
    using start_listening [OF assms(1-3)] by simp
  have sat: "ac_timeout_ms c0 \<le> saturating_add 0 a" "ac_timeout_ms c0 \<le> saturating_add 0 b"
    using assms(4,5) by (intro saturating_add_reaches; simp add: word_le_nat_alt)+
  note l' = listening_listens [OF l]
  have c1: "ac_timeout_ms c1 = ac_timeout_ms c0" "ac_listen_timer_ms c1 = 0"
    "\<not> ac_cannot_claim_pending c1" "icf_claim_state cf1 = SendRequest" "\<not> is_occupied c1 p"
    "p \<noteq> NULL_ADDRESS"
    using l assms(2) by (auto simp: listening_def address_consts intro: unat_eq_zero word_unat_eq_iff [THEN iffD2])
  let ?c2 = "c1\<lparr>ac_reclaim_pending := False, ac_reclaim_delay_timer_ms := 0,
              ac_reclaim_address := NULL_ADDRESS, ac_claim_guard_timer_ms := 0\<rparr>"
  let ?cf2 = "icf_set_address NULL_ADDRESS (icf_transition Failed (icf_emit_lost (icf_set_state Offline cf1)))"
  have dup: "handle_duplicate_name c1 cf1 = (?c2, ?cf2, [make_claim_frame nm NULL_ADDRESS])"
    using l' c1 by (simp add: handle_duplicate_name_def)
  have occ: "\<not> is_occupied (?c2\<lparr>ac_listen_timer_ms := t\<rparr>) p" for t
    using c1 by (simp add: is_occupied_def)
  have upd: "claimer_update ?c2 ?cf2 a = finish_listen (?c2\<lparr>ac_listen_timer_ms := saturating_add 0 a\<rparr>) ?cf2"
    using l' c1 sat by (simp add: claimer_update_def Let_def)
  show ?thesis
    using l' c1 sat occ
    by (simp add: claim_step_def dup upd finish_listen_free)
      (simp add: claimer_update_def update_cannot_claim_def update_contest_def Let_def)
qed

theorem duplicate_name_while_listening_rejoins_witness:
  "\<exists>c0 c1 cf1 s1 s. claimer_with_timeout 250 10 = Some c0
    \<and> claimer_start c0 (icf_new (Name 9) 0 5) = (c1, cf1, [make_request_frame])
    \<and> claim_step DuplicateName (c1, cf1) = Some (s1, [make_claim_frame (Name 9) NULL_ADDRESS])
    \<and> run_inputs claim_step [Update 300, Update 300] s1 = Some (s, [make_claim_frame (Name 9) 5])
    \<and> icf_is_online (snd s)"
proof -
  obtain c0 where c0: "claimer_with_timeout 250 10 = Some c0" "ac_timeout_ms c0 = 260"
    using example_claimer by blast
  obtain c1 cf1 fs where st: "claimer_start c0 (icf_new (Name 9) 0 5) = (c1, cf1, fs)"
    by (metis prod_cases3)
  have "fs = [make_request_frame]"
    using start_listening [OF c0(1) _ st] by (simp add: address_consts)
  moreover have "(5 :: address) \<le> MAX_ADDRESS" by (simp add: address_consts)
  ultimately show ?thesis
    using duplicate_name_while_listening_rejoins [OF c0(1) _ st, of 300 300] c0 st by auto
qed

text \<open>C21: While its re-claim is queued, a control function still defends the address it lost: after
  a self-configurable one with a non-zero transmit delay yields its address to a lower NAME, a
  third NAME above its own claiming that address is answered with a claim frame for it.\<close>

theorem lost_address_still_defended:
  assumes "claim_inv nm p (c, cf)" and "icf_claim_state cf = Claimed" and "lower < nm" and "nm < higher"
    and "self_configurable nm" and "0 < ac_rtxd_ms c" and "a = icf_address cf"
    and "\<not> range_full (mark_occupied a c) p"
  shows "\<exists>c1 cf1 c2. handle_claim c cf a lower = (c1, cf1, [])
    \<and> \<not> icf_is_online cf1 \<and> ac_reclaim_pending c1
    \<and> handle_claim c1 cf1 a higher = (c2, cf1, [make_claim_frame nm a])"
proof -
  have perm: "permitted_address nm p a" and wf: "wf_claimer c" "icf_name cf = nm"
    and att: "ac_attempted_claim c" "\<not> ac_listen_pending c"
    using assms(1,2,7) by (auto simp: claim_inv_def claim_state_inv_def)
  have "\<not> MAX_ADDRESS < find_next_address (mark_occupied a c) (icf_emit_lost (icf_set_state Offline cf)) a"
    using assms(1,8) by (simp add: find_next_full_iff claim_inv_def)
  then show ?thesis
    using handle_claim_loses [OF assms(1) _ assms(3)] assms(2-7) wf att permitted_claimable [OF perm]
    by (auto simp: yield_address_def Let_def handle_claim_def not_less [symmetric])
qed

theorem lost_address_still_defended_witness:
  "\<exists>c cf c1 cf1 c2. icf_address cf = 5
    \<and> handle_claim c cf 5 (Name 3) = (c1, cf1, []) \<and> \<not> icf_is_online cf1
    \<and> handle_claim c1 cf1 5 (Name 0xFFFFFFFFFFFFFFFF) = (c2, cf1, [make_claim_frame (Name 0x8000000000000000) 5])"
proof -
  have ok: "(5 :: address) \<le> MAX_ADDRESS" by (simp add: address_consts)
  obtain c cf where i: "claim_inv (Name 0x8000000000000000) 5 (c, cf)" "icf_claim_state cf = Claimed"
    "icf_address cf = 5" "ac_rtxd_ms c = 10"
    "ac_occupied_addresses c = replicate CLAIMABLE_ADDRESS_COUNT False"
    using example_claimed [OF ok] by blast
  have wf: "wf_claimer c" using i(1) by (simp add: claim_inv_def)
  have "\<not> is_occupied (mark_occupied 5 c) 200"
    unfolding is_occupied_mark [OF wf]
    using i(5) by (simp add: is_occupied_def CLAIMABLE_ADDRESS_COUNT_def address_consts)
  then have nf: "\<not> range_full (mark_occupied 5 c) 5"
    by (auto simp: range_full_def self_config_range_unat intro!: exI [of _ 200])
  have "Name 3 < Name 0x8000000000000000" "Name 0x8000000000000000 < Name 0xFFFFFFFFFFFFFFFF"
    "self_configurable (Name 0x8000000000000000)"
    by (simp_all add: less_device_name_def self_configurable_bit bit_numeral_word_iff)
  moreover have "0 < ac_rtxd_ms c" using i(4) by simp
  ultimately show ?thesis
    using lost_address_still_defended [OF i(1,2), of "Name 3" "Name 0xFFFFFFFFFFFFFFFF" 5] i(3)
      i(3) [symmetric] nf
    by blast
qed

end
