(* ===== verification/Transport_Session.thy ===== *)
theory Transport_Session
  imports Can_Frame
begin

text \<open>
  The vocabulary shared by the transport protocols (src/src/net/session.rs): session state, abort
  reasons with their wire codes, statistics, and the abort event.
  \<open>TransportSession::progress\<close> (an \<open>f32\<close> quotient) is not modelled.
\<close>

section \<open>Directions, reasons, states\<close>

datatype transport_direction = Transmit | Receive

datatype transport_abort_reason =
    NoReason | AlreadyInSession | ResourcesUnavailable | SessionTimeout | ConnectionModeError
  | MaxRetransmitsExceeded | UnexpectedPgn | BadSequence | DuplicateSequence | UnexpectedDataSize
  | OtherReason

primrec abort_reason_as_u8 :: "transport_abort_reason \<Rightarrow> u8" where
  "abort_reason_as_u8 NoReason = 0"
| "abort_reason_as_u8 AlreadyInSession = 1"
| "abort_reason_as_u8 ResourcesUnavailable = 2"
| "abort_reason_as_u8 SessionTimeout = 3"
| "abort_reason_as_u8 ConnectionModeError = 4"
| "abort_reason_as_u8 MaxRetransmitsExceeded = 5"
| "abort_reason_as_u8 UnexpectedPgn = 6"
| "abort_reason_as_u8 BadSequence = 7"
| "abort_reason_as_u8 DuplicateSequence = 8"
| "abort_reason_as_u8 UnexpectedDataSize = 9"
| "abort_reason_as_u8 OtherReason = 250"

definition abort_reason_try_from_u8 :: "u8 \<Rightarrow> transport_abort_reason option" where
  "abort_reason_try_from_u8 v =
     (if v = 0 then Some NoReason else if v = 1 then Some AlreadyInSession
      else if v = 2 then Some ResourcesUnavailable else if v = 3 then Some SessionTimeout
      else if v = 4 then Some ConnectionModeError else if v = 5 then Some MaxRetransmitsExceeded
      else if v = 6 then Some UnexpectedPgn else if v = 7 then Some BadSequence
      else if v = 8 then Some DuplicateSequence else if v = 9 then Some UnexpectedDataSize
      else if v = 250 then Some OtherReason else None)"

definition abort_reason_from_u8 :: "u8 \<Rightarrow> transport_abort_reason" where
  "abort_reason_from_u8 v =
     (case abort_reason_try_from_u8 v of Some r \<Rightarrow> r | None \<Rightarrow> NoReason)"

interpretation abort_wire: wire_enum abort_reason_as_u8 abort_reason_try_from_u8
proof
  fix e show "abort_reason_try_from_u8 (abort_reason_as_u8 e) = Some e"
    by (cases e) (simp_all add: abort_reason_try_from_u8_def)
next
  fix b e show "abort_reason_try_from_u8 b = Some e \<Longrightarrow> abort_reason_as_u8 e = b"
    by (auto simp: abort_reason_try_from_u8_def split: if_splits)
qed

datatype session_state =
    StateNone | WaitingForCTS | SendingData | WaitingForEndOfMsg | ReceivingData | WaitingForData
  | SessionComplete | SessionAborted

section \<open>Statistics\<close>

record transport_stats =
  st_dropped_frames :: u64
  st_dropped_sessions :: u64
  st_aborts_sent :: u64
  st_aborts_received :: u64
  st_timeouts :: u64
  st_resource_rejections :: u64

definition stats_default :: transport_stats where
  "stats_default = \<lparr>st_dropped_frames = 0, st_dropped_sessions = 0, st_aborts_sent = 0,
     st_aborts_received = 0, st_timeouts = 0, st_resource_rejections = 0\<rparr>"

definition stats_is_empty :: "transport_stats \<Rightarrow> bool" where
  "stats_is_empty st =
     (st_dropped_frames st = 0 \<and> st_dropped_sessions st = 0 \<and> st_aborts_sent st = 0
      \<and> st_aborts_received st = 0 \<and> st_timeouts st = 0 \<and> st_resource_rejections st = 0)"

section \<open>Sessions\<close>

record transport_session =
  ts_direction :: transport_direction
  ts_state :: session_state
  ts_pgn :: pgn
  ts_data :: bytes
  ts_total_bytes :: u32
  ts_bytes_transferred :: u32
  ts_source :: address
  ts_destination :: address
  ts_can_port :: u8
  ts_priority :: priority
  ts_last_sequence :: u8
  ts_packets_to_send :: u8
  ts_next_packet_to_send :: u8
  ts_advertised_packets_per_cts :: u8
  ts_max_packets_per_cts :: u8
  ts_cts_window_start :: u8
  ts_cts_window_size :: u8
  ts_retransmit_count :: u8
  ts_dpo_packet_offset :: u32
  ts_timer_ms :: u32

definition session_default :: transport_session where
  "session_default =
     \<lparr>ts_direction = Receive, ts_state = StateNone, ts_pgn = 0, ts_data = [], ts_total_bytes = 0,
      ts_bytes_transferred = 0, ts_source = NULL_ADDRESS, ts_destination = BROADCAST_ADDRESS,
      ts_can_port = 0, ts_priority = Default, ts_last_sequence = 0, ts_packets_to_send = 0,
      ts_next_packet_to_send = 0, ts_advertised_packets_per_cts = ucast TP_MAX_PACKETS_PER_CTS,
      ts_max_packets_per_cts = ucast TP_MAX_PACKETS_PER_CTS, ts_cts_window_start = 1,
      ts_cts_window_size = 0, ts_retransmit_count = 0, ts_dpo_packet_offset = 0, ts_timer_ms = 0\<rparr>"

definition total_packets :: "transport_session \<Rightarrow> u32" where
  "total_packets s = div_ceil (ts_total_bytes s) TP_BYTES_PER_FRAME"

definition session_is_broadcast :: "transport_session \<Rightarrow> bool" where
  "session_is_broadcast s = (ts_destination s = BROADCAST_ADDRESS)"

definition session_is_complete :: "transport_session \<Rightarrow> bool" where
  "session_is_complete s = (ts_state s = SessionComplete)"

record transport_abort_event =
  ae_pgn :: pgn
  ae_source :: address
  ae_destination :: address
  ae_can_port :: u8
  ae_direction :: transport_direction
  ae_reason :: transport_abort_reason

definition abort_event_from_session ::
  "transport_session \<Rightarrow> transport_abort_reason \<Rightarrow> transport_abort_event" where
  "abort_event_from_session s reason =
     \<lparr>ae_pgn = ts_pgn s, ae_source = ts_source s, ae_destination = ts_destination s,
      ae_can_port = ts_can_port s, ae_direction = ts_direction s, ae_reason = reason\<rparr>"

section \<open>Packet arithmetic\<close>

lemma unat_total_packets:
  "unat (total_packets s) = (unat (ts_total_bytes s) + 6) div 7"
  using unat_div_ceil [of "7 :: u32" "ts_total_bytes s"] by (simp add: total_packets_def limit_consts)

end
