(* ===== verification/TP_Engine.thy ===== *)
theory TP_Engine
  imports Transport_Session
begin

text \<open>
  The ISO 11783-3 transport protocol engine (src/src/net/tp/tp_protocol_types.rs,
  src/src/net/tp/tp_protocol_engine.rs), in the build with heap storage: the session tables are
  vectors, so pushing a session always succeeds and the allocation of a receive buffer of at most
  1785 bytes is taken to succeed.  The three events are lists of the emitted values.  Operations
  that index or subtract return \<open>None\<close> where the code would panic.
\<close>

section \<open>Constants\<close>

definition TP_T_HOLD_MS :: u32 where "TP_T_HOLD_MS = 500"
definition TP_DEFAULT_MAX_SESSIONS :: nat where "TP_DEFAULT_MAX_SESSIONS = 32"
definition TP_DEFAULT_MAX_RETRANSMITS :: u8 where "TP_DEFAULT_MAX_RETRANSMITS = 3"

definition tp_cm_RTS :: u8 where "tp_cm_RTS = 0x10"
definition tp_cm_CTS :: u8 where "tp_cm_CTS = 0x11"
definition tp_cm_EOMA :: u8 where "tp_cm_EOMA = 0x13"
definition tp_cm_BAM :: u8 where "tp_cm_BAM = 0x20"
definition tp_cm_ABORT :: u8 where "tp_cm_ABORT = 0xFF"

definition tp_abort_TIMEOUT :: u8 where "tp_abort_TIMEOUT = 3"

lemmas tp_cm_consts = tp_cm_RTS_def tp_cm_CTS_def tp_cm_EOMA_def tp_cm_BAM_def tp_cm_ABORT_def

section \<open>State\<close>

datatype tp_session_state =
    TimerIdle | TimerWaitForCts | TimerSending | TimerWaitForEndOfMsgAck | TimerComplete
  | TimerAborted | TimerTimedOut

definition tp_session_state_is_active :: "tp_session_state \<Rightarrow> bool" where
  "tp_session_state_is_active st =
     (\<not> (st = TimerIdle \<or> st = TimerComplete \<or> st = TimerAborted \<or> st = TimerTimedOut))"

record tp_timer_session =
  tt_last_activity_ms :: u32
  tt_timer_state :: tp_session_state
  tt_abort_reason :: u8
  tt_cts_keepalive_timer_ms :: u32
  tt_source :: address
  tt_destination :: address
  tt_pgn :: pgn
  tt_port :: u8
  tt_receiver_paused :: bool

definition timer_session_default :: tp_timer_session where
  "timer_session_default =
     \<lparr>tt_last_activity_ms = 0, tt_timer_state = TimerIdle, tt_abort_reason = 0,
      tt_cts_keepalive_timer_ms = 0, tt_source = NULL_ADDRESS, tt_destination = NULL_ADDRESS,
      tt_pgn = 0, tt_port = 0, tt_receiver_paused = False\<rparr>"

record tp_engine =
  tp_sessions :: "transport_session list"
  tp_timer_sessions :: "tp_timer_session list"
  tp_max_receive_bytes :: u32
  tp_max_sessions :: nat
  tp_max_retransmits :: u8
  tp_advertised_packets_per_cts :: u8
  tp_stats :: transport_stats
  tp_on_complete :: "transport_session event"
  tp_on_abort :: "transport_abort_event event"
  tp_on_session_timeout :: "tp_timer_session event"

definition tp_new :: tp_engine where
  "tp_new =
     \<lparr>tp_sessions = [], tp_timer_sessions = [], tp_max_receive_bytes = TP_MAX_DATA_LENGTH,
      tp_max_sessions = TP_DEFAULT_MAX_SESSIONS, tp_max_retransmits = TP_DEFAULT_MAX_RETRANSMITS,
      tp_advertised_packets_per_cts = ucast TP_MAX_PACKETS_PER_CTS, tp_stats = stats_default,
      tp_on_complete = [], tp_on_abort = [], tp_on_session_timeout = []\<rparr>"

definition tp_set_max_receive_bytes :: "u32 \<Rightarrow> tp_engine \<Rightarrow> tp_engine" where
  "tp_set_max_receive_bytes n e = e\<lparr>tp_max_receive_bytes := min n TP_MAX_DATA_LENGTH\<rparr>"

definition tp_with_max_receive_bytes :: "u32 \<Rightarrow> tp_engine" where
  "tp_with_max_receive_bytes n = tp_set_max_receive_bytes n tp_new"

definition tp_set_max_sessions :: "nat \<Rightarrow> tp_engine \<Rightarrow> tp_engine" where
  "tp_set_max_sessions n e = e\<lparr>tp_max_sessions := n\<rparr>"

definition tp_with_max_sessions :: "nat \<Rightarrow> tp_engine" where
  "tp_with_max_sessions n = tp_set_max_sessions n tp_new"

definition tp_set_max_retransmits :: "u8 \<Rightarrow> tp_engine \<Rightarrow> tp_engine" where
  "tp_set_max_retransmits n e = e\<lparr>tp_max_retransmits := n\<rparr>"

definition tp_with_max_retransmits :: "u8 \<Rightarrow> tp_engine" where
  "tp_with_max_retransmits n = tp_set_max_retransmits n tp_new"

definition tp_set_advertised_packets_per_cts :: "u8 \<Rightarrow> tp_engine \<Rightarrow> tp_engine" where
  "tp_set_advertised_packets_per_cts n e =
     e\<lparr>tp_advertised_packets_per_cts := clamp n 1 (ucast TP_MAX_PACKETS_PER_CTS)\<rparr>"

definition tp_with_advertised_packets_per_cts :: "u8 \<Rightarrow> tp_engine" where
  "tp_with_advertised_packets_per_cts n = tp_set_advertised_packets_per_cts n tp_new"

definition tp_clear_stats :: "tp_engine \<Rightarrow> tp_engine" where
  "tp_clear_stats e = e\<lparr>tp_stats := stats_default\<rparr>"

section \<open>Counters, events and the session table\<close>

definition note_dropped_frame :: "tp_engine \<Rightarrow> tp_engine" where
  "note_dropped_frame e = e\<lparr>tp_stats := (tp_stats e)
     \<lparr>st_dropped_frames := saturating_add (st_dropped_frames (tp_stats e)) 1\<rparr>\<rparr>"

definition note_dropped_session :: "tp_engine \<Rightarrow> tp_engine" where
  "note_dropped_session e = e\<lparr>tp_stats := (tp_stats e)
     \<lparr>st_dropped_sessions := saturating_add (st_dropped_sessions (tp_stats e)) 1\<rparr>\<rparr>"

definition note_abort_sent :: "tp_engine \<Rightarrow> tp_engine" where
  "note_abort_sent e = e\<lparr>tp_stats := (tp_stats e)
     \<lparr>st_aborts_sent := saturating_add (st_aborts_sent (tp_stats e)) 1\<rparr>\<rparr>"

definition note_abort_received :: "tp_engine \<Rightarrow> tp_engine" where
  "note_abort_received e = e\<lparr>tp_stats := (tp_stats e)
     \<lparr>st_aborts_received := saturating_add (st_aborts_received (tp_stats e)) 1\<rparr>\<rparr>"

definition note_timeout :: "tp_engine \<Rightarrow> tp_engine" where
  "note_timeout e = e\<lparr>tp_stats := (tp_stats e)
     \<lparr>st_timeouts := saturating_add (st_timeouts (tp_stats e)) 1\<rparr>\<rparr>"

definition note_resource_rejection :: "tp_engine \<Rightarrow> tp_engine" where
  "note_resource_rejection e = e\<lparr>tp_stats := (tp_stats e)
     \<lparr>st_resource_rejections := saturating_add (st_resource_rejections (tp_stats e)) 1\<rparr>\<rparr>"

lemmas note_defs = note_dropped_frame_def note_dropped_session_def note_abort_sent_def
  note_abort_received_def note_timeout_def note_resource_rejection_def

definition emit_complete :: "transport_session \<Rightarrow> tp_engine \<Rightarrow> tp_engine" where
  "emit_complete s e = e\<lparr>tp_on_complete := event_emit (tp_on_complete e) s\<rparr>"

definition emit_abort :: "transport_abort_event \<Rightarrow> tp_engine \<Rightarrow> tp_engine" where
  "emit_abort evt e = e\<lparr>tp_on_abort := event_emit (tp_on_abort e) evt\<rparr>"

definition push_session :: "transport_session \<Rightarrow> tp_engine \<Rightarrow> tp_engine" where
  "push_session s e = e\<lparr>tp_sessions := tp_sessions e @ [s]\<rparr>"

definition put_session :: "nat \<Rightarrow> transport_session \<Rightarrow> tp_engine \<Rightarrow> tp_engine" where
  "put_session i s e = e\<lparr>tp_sessions := (tp_sessions e)[i := s]\<rparr>"

definition remove_session :: "nat \<Rightarrow> tp_engine \<Rightarrow> (transport_session \<times> tp_engine) option" where
  "remove_session i e = do {
     (s, rest) \<leftarrow> swap_remove i (tp_sessions e);
     Some (s, e\<lparr>tp_sessions := rest\<rparr>)
   }"

definition session_position :: "(transport_session \<Rightarrow> bool) \<Rightarrow> tp_engine \<Rightarrow> nat option" where
  "session_position P e = position P (tp_sessions e)"

definition receive_path_is_active :: "tp_engine \<Rightarrow> address \<Rightarrow> address \<Rightarrow> u8 \<Rightarrow> bool" where
  "receive_path_is_active e src dst port =
     list_ex (\<lambda>s. ts_direction s = Receive \<and> ts_source s = src \<and> ts_can_port s = port
                  \<and> ts_destination s = dst) (tp_sessions e)"

definition receive_session_for :: "tp_engine \<Rightarrow> address \<Rightarrow> address \<Rightarrow> u8 \<Rightarrow> pgn \<Rightarrow> nat option" where
  "receive_session_for e src dst port p =
     position (\<lambda>s. ts_direction s = Receive \<and> ts_source s = src \<and> ts_can_port s = port
                   \<and> ts_destination s = dst \<and> ts_pgn s = p) (tp_sessions e)"

section \<open>Frame builders\<close>

definition valid_tp_source :: "address \<Rightarrow> bool" where
  "valid_tp_source a = (a \<noteq> NULL_ADDRESS \<and> a \<noteq> BROADCAST_ADDRESS)"

definition valid_tp_destination :: "address \<Rightarrow> bool" where
  "valid_tp_destination a = (a \<noteq> NULL_ADDRESS)"

definition valid_tp_payload_shape :: "u32 \<Rightarrow> u8 \<Rightarrow> bool" where
  "valid_tp_payload_shape total_bytes n_packets =
     (CAN_DATA_LENGTH < total_bytes \<and> total_bytes \<le> TP_MAX_DATA_LENGTH \<and> n_packets \<noteq> 0
      \<and> ucast n_packets = div_ceil total_bytes TP_BYTES_PER_FRAME)"

definition rx_buffer :: "u32 \<Rightarrow> u32 \<Rightarrow> transport_abort_reason + bytes" where
  "rx_buffer total_bytes max_receive_bytes =
     (if max_receive_bytes < total_bytes then Inl ResourcesUnavailable
      else Inr (replicate (unat total_bytes) 0xFF))"

definition low_byte :: "u32 \<Rightarrow> u8" where
  "low_byte w = ucast (w AND 0xFF)"

definition pgn_bytes :: "pgn \<Rightarrow> bytes" where
  "pgn_bytes p = [low_byte p, low_byte (drop_bit 8 p), low_byte (drop_bit 16 p)]"

definition pgn_from_cm_bytes :: "bytes \<Rightarrow> pgn" where
  "pgn_from_cm_bytes data =
     ucast (data ! 5) OR push_bit 8 (ucast (data ! 6)) OR push_bit 16 (ucast (data ! 7))"

definition cm_size_bytes :: "bytes \<Rightarrow> u32" where
  "cm_size_bytes data = ucast (data ! 1) OR push_bit 8 (ucast (data ! 2))"

definition make_bam_fields :: "pgn \<Rightarrow> u32 \<Rightarrow> address \<Rightarrow> frame" where
  "make_bam_fields p total_bytes src =
     frame8 (id_encode Lowest PGN_TP_CM src BROADCAST_ADDRESS)
       ([tp_cm_BAM, low_byte total_bytes, low_byte (drop_bit 8 total_bytes),
         ucast (div_ceil total_bytes TP_BYTES_PER_FRAME), 0xFF] @ pgn_bytes p)"

definition make_bam :: "transport_session \<Rightarrow> frame" where
  "make_bam s = make_bam_fields (ts_pgn s) (ts_total_bytes s) (ts_source s)"

definition make_rts_fields :: "pgn \<Rightarrow> u32 \<Rightarrow> address \<Rightarrow> address \<Rightarrow> u8 \<Rightarrow> frame" where
  "make_rts_fields p total_bytes src dst advertised =
     frame8 (id_encode Lowest PGN_TP_CM src dst)
       ([tp_cm_RTS, low_byte total_bytes, low_byte (drop_bit 8 total_bytes),
         ucast (div_ceil total_bytes TP_BYTES_PER_FRAME), advertised] @ pgn_bytes p)"

definition make_rts :: "transport_session \<Rightarrow> frame" where
  "make_rts s = make_rts_fields (ts_pgn s) (ts_total_bytes s) (ts_source s) (ts_destination s)
     (ts_advertised_packets_per_cts s)"

definition make_cts :: "address \<Rightarrow> address \<Rightarrow> u8 \<Rightarrow> u8 \<Rightarrow> pgn \<Rightarrow> frame" where
  "make_cts src dst num_packets next_seq p =
     frame8 (id_encode Lowest PGN_TP_CM src dst)
       ([tp_cm_CTS, num_packets, next_seq, 0xFF, 0xFF] @ pgn_bytes p)"

definition make_eoma :: "address \<Rightarrow> address \<Rightarrow> u32 \<Rightarrow> u8 \<Rightarrow> pgn \<Rightarrow> frame" where
  "make_eoma src dst total_bytes n_packets p =
     frame8 (id_encode Lowest PGN_TP_CM src dst)
       ([tp_cm_EOMA, low_byte total_bytes, low_byte (drop_bit 8 total_bytes), n_packets, 0xFF]
        @ pgn_bytes p)"

definition make_abort_fields :: "address \<Rightarrow> address \<Rightarrow> pgn \<Rightarrow> transport_abort_reason \<Rightarrow> frame" where
  "make_abort_fields src dst p reason =
     frame8 (id_encode Lowest PGN_TP_CM src dst)
       ([tp_cm_ABORT, abort_reason_as_u8 reason, 0xFF, 0xFF, 0xFF] @ pgn_bytes p)"

definition make_abort :: "transport_session \<Rightarrow> transport_abort_reason \<Rightarrow> frame" where
  "make_abort s reason = make_abort_fields (ts_source s) (ts_destination s) (ts_pgn s) reason"

definition make_session_abort :: "transport_session \<Rightarrow> transport_abort_reason \<Rightarrow> frame" where
  "make_session_abort s reason =
     (let (src, dst) = (case ts_direction s of
            Transmit \<Rightarrow> (ts_source s, ts_destination s)
          | Receive \<Rightarrow> (ts_destination s, ts_source s))
      in make_abort (session_default\<lparr>ts_source := src, ts_destination := dst, ts_pgn := ts_pgn s\<rparr>) reason)"

text \<open>
  One data frame, and the loop of \<open>generate_data_frames\<close>: at most \<open>count\<close> frames, ending early
  when the payload is exhausted.  The checked addition covers those of the copy loop as well.
\<close>

definition next_data_frame :: "transport_session \<Rightarrow> (transport_session \<times> frame) option" where
  "next_data_frame s = do {
     let seq = ts_last_sequence s + 1;
     end_pos \<leftarrow> checked_add (ts_bytes_transferred s) TP_BYTES_PER_FRAME;
     data \<leftarrow> copy_out 1 (unat (ts_bytes_transferred s)) (unat (ts_total_bytes s)) (ts_data s) [0..<7]
               ((replicate 8 0xFF)[0 := seq]);
     Some (s\<lparr>ts_last_sequence := seq, ts_bytes_transferred := min end_pos (ts_total_bytes s)\<rparr>,
           frame8 (id_encode Lowest PGN_TP_DT (ts_source s) (ts_destination s)) data)
   }"

primrec generate_data_frames :: "nat \<Rightarrow> transport_session \<Rightarrow> (transport_session \<times> frame list) option" where
  "generate_data_frames 0 s = Some (s, [])"
| "generate_data_frames (Suc n) s =
     (if ts_total_bytes s \<le> ts_bytes_transferred s then Some (s, [])
      else do {
        (s1, f) \<leftarrow> next_data_frame s;
        (s2, fs) \<leftarrow> generate_data_frames n s1;
        Some (s2, f # fs)
      })"

section \<open>Starting a transfer\<close>

definition tp_send ::
  "tp_engine \<Rightarrow> pgn \<Rightarrow> bytes \<Rightarrow> address \<Rightarrow> address \<Rightarrow> u8 \<Rightarrow> priority \<Rightarrow> tp_engine \<times> frame list net_result" where
  "tp_send e p data src dest port prio =
     (if \<not> pgn_is_valid p
      then (e, Inl (error_invalid_data (''TP target PGN '' @ hex_padded 0 (unat p) @
              '' exceeds the 18-bit J1939/ISOBUS PGN range'')))
      else if \<not> valid_tp_source src then (e, Inl (error_invalid_address src))
      else if \<not> valid_tp_destination dest then (e, Inl (error_invalid_address dest))
      else if TP_MAX_DATA_LENGTH < of_nat (length data)
      then (note_resource_rejection e, Inl error_buffer_overflow)
      else if of_nat (length data) \<le> CAN_DATA_LENGTH
      then (e, Inl (error_invalid_state ''use single frame for <= 8 bytes''))
      else if list_ex (\<lambda>s. ts_source s = src \<and> ts_destination s = dest
                           \<and> ts_direction s = Transmit \<and> ts_can_port s = port) (tp_sessions e)
      then (e, Inl (error_with_message SessionExists ''session already active''))
      else if tp_max_sessions e \<le> length (tp_sessions e)
      then (note_resource_rejection e,
            Inl (error_with_message NoResources ''no TP session slots available''))
      else
        let s = session_default\<lparr>ts_direction := Transmit, ts_pgn := p, ts_data := data,
                  ts_total_bytes := of_nat (length data), ts_source := src, ts_destination := dest,
                  ts_can_port := port, ts_priority := prio,
                  ts_advertised_packets_per_cts := tp_advertised_packets_per_cts e\<rparr>
        in if dest = BROADCAST_ADDRESS
           then let s' = s\<lparr>ts_state := SendingData\<rparr> in (push_session s' e, Inr [make_bam s'])
           else let s' = s\<lparr>ts_state := WaitingForCTS\<rparr> in (push_session s' e, Inr [make_rts s']))"

section \<open>Connection management frames\<close>

type_synonym tp_result = "tp_engine \<times> frame list"

definition reply_abort :: "address \<Rightarrow> address \<Rightarrow> pgn \<Rightarrow> transport_abort_reason \<Rightarrow> frame" where
  "reply_abort src dst p reason =
     make_abort (session_default\<lparr>ts_source := dst, ts_destination := src, ts_pgn := p\<rparr>) reason"

text \<open>The tail of the RTS arm, once the receive path is known to be free: open the session.\<close>

definition accept_rts ::
  "tp_engine \<Rightarrow> frame \<Rightarrow> u8 \<Rightarrow> pgn \<Rightarrow> u32 \<Rightarrow> u8 \<Rightarrow> u8 \<Rightarrow> tp_result" where
  "accept_rts e f port p msg_size n_packets max_per_cts =
     (let src = frame_source f; dst = frame_destination f
      in if tp_max_sessions e \<le> length (tp_sessions e)
         then (note_abort_sent (note_resource_rejection (note_dropped_frame e)),
               [reply_abort src dst p ResourcesUnavailable])
         else
           let max_pkts = min max_per_cts (ucast TP_MAX_PACKETS_PER_CTS);
               cts_count = min n_packets max_pkts
           in case rx_buffer msg_size (tp_max_receive_bytes e) of
                Inl reason \<Rightarrow>
                  (note_abort_sent
                     ((if reason = ResourcesUnavailable then note_resource_rejection else id)
                        (note_dropped_frame e)),
                   [reply_abort src dst p reason])
              | Inr data \<Rightarrow>
                  (push_session
                     (session_default\<lparr>ts_direction := Receive, ts_state := WaitingForData, ts_pgn := p,
                        ts_total_bytes := msg_size, ts_source := src, ts_destination := dst,
                        ts_can_port := port, ts_priority := frame_priority f,
                        ts_max_packets_per_cts := max_pkts, ts_data := data,
                        ts_cts_window_start := 1, ts_cts_window_size := cts_count\<rparr>) e,
                   [make_cts dst src cts_count 1 p]))"

definition handle_rts :: "tp_engine \<Rightarrow> frame \<Rightarrow> u8 \<Rightarrow> pgn \<Rightarrow> tp_result option" where
  "handle_rts e f port p =
     (let src = frame_source f; dst = frame_destination f;
          msg_size = cm_size_bytes (fr_data f);
          n_packets = fr_data f ! 3;
          max_per_cts = fr_data f ! 4
      in if \<not> valid_tp_payload_shape msg_size n_packets \<or> max_per_cts = 0
         then Some (note_abort_sent (note_dropped_frame e), [reply_abort src dst p UnexpectedDataSize])
         else case receive_session_for e src dst port p of
           Some existing \<Rightarrow> do {
             (_, e') \<leftarrow> remove_session existing e;
             Some (accept_rts e' f port p msg_size n_packets max_per_cts)
           }
         | None \<Rightarrow>
             if receive_path_is_active e src dst port
             then Some (note_abort_sent (note_dropped_frame e), [reply_abort src dst p AlreadyInSession])
             else Some (accept_rts e f port p msg_size n_packets max_per_cts))"

text \<open>
  The CTS arm acts on the first transmit session that the frame matches; the per-session part
  returns the session and, when it was aborted, the reason.
\<close>

definition cts_matches :: "address \<Rightarrow> address \<Rightarrow> u8 \<Rightarrow> pgn \<Rightarrow> transport_session \<Rightarrow> bool" where
  "cts_matches src dst port p s =
     (ts_direction s = Transmit \<and> ts_source s = dst \<and> ts_destination s = src \<and> ts_pgn s = p
      \<and> (ts_state s = WaitingForCTS \<or> ts_state s = SendingData \<or> ts_state s = WaitingForEndOfMsg)
      \<and> ts_can_port s = port)"

definition cts_window :: "transport_session \<Rightarrow> u8 \<Rightarrow> u8 \<Rightarrow> u8" where
  "cts_window s num_packets next_seq =
     ucast (min (min (ucast num_packets) (total_packets s - (ucast next_seq - 1)))
        (ucast (ts_max_packets_per_cts s) :: u32))"

definition is_duplicate_current_window :: "transport_session \<Rightarrow> u8 \<Rightarrow> u8 \<Rightarrow> bool" where
  "is_duplicate_current_window s num_packets next_seq =
     (num_packets \<noteq> 0 \<and> next_seq \<noteq> 0 \<and> ucast next_seq \<le> total_packets s
      \<and> next_seq = saturating_add (ts_last_sequence s) 1
      \<and> ts_packets_to_send s = cts_window s num_packets next_seq)"

definition apply_cts ::
  "u8 \<Rightarrow> u8 \<Rightarrow> u8 \<Rightarrow> transport_session \<Rightarrow> transport_session \<times> transport_abort_reason option" where
  "apply_cts max_retransmits num_packets next_seq s =
     (if ts_state s = SendingData
      then if is_duplicate_current_window s num_packets next_seq
           then (s\<lparr>ts_timer_ms := 0\<rparr>, None)
           else (s\<lparr>ts_state := SessionAborted\<rparr>, Some ConnectionModeError)
      else if num_packets = 0 then (s\<lparr>ts_timer_ms := 0\<rparr>, None)
      else if next_seq = 0 \<or> total_packets s < ucast next_seq
      then (s\<lparr>ts_state := SessionAborted\<rparr>, Some BadSequence)
      else
        let requested_start = ucast next_seq - 1 :: u32;
            retry = (requested_start < div_ceil (ts_bytes_transferred s) TP_BYTES_PER_FRAME);
            s1 = s\<lparr>ts_retransmit_count := (if retry then saturating_add (ts_retransmit_count s) 1 else 0)\<rparr>
        in if retry \<and> max_retransmits < ts_retransmit_count s1
           then (s1\<lparr>ts_state := SessionAborted\<rparr>, Some MaxRetransmitsExceeded)
           else (s1\<lparr>ts_state := SendingData,
                    ts_packets_to_send := cts_window s1 num_packets next_seq,
                    ts_bytes_transferred := (ucast next_seq - 1) * 7,
                    ts_last_sequence := next_seq - 1,
                    ts_timer_ms := 0\<rparr>, None))"

definition handle_cts :: "tp_engine \<Rightarrow> frame \<Rightarrow> u8 \<Rightarrow> pgn \<Rightarrow> tp_result option" where
  "handle_cts e f port p =
     (case position (cts_matches (frame_source f) (frame_destination f) port p) (tp_sessions e) of
        None \<Rightarrow> Some (note_dropped_frame e, [])
      | Some i \<Rightarrow>
          let (s, aborted) = apply_cts (tp_max_retransmits e) (fr_data f ! 1) (fr_data f ! 2) (tp_sessions e ! i);
              e1 = put_session i s e
          in case aborted of
               None \<Rightarrow> Some (e1, [])
             | Some reason \<Rightarrow> do {
                 let e2 = note_abort_sent (note_dropped_session (note_dropped_frame
                            (emit_abort (abort_event_from_session s reason) e1)));
                 (_, e3) \<leftarrow> remove_session i e2;
                 Some (e3, [make_session_abort s reason])
               })"

definition handle_eoma :: "tp_engine \<Rightarrow> frame \<Rightarrow> u8 \<Rightarrow> pgn \<Rightarrow> tp_result option" where
  "handle_eoma e f port p =
     (let src = frame_source f; dst = frame_destination f
      in case session_position (\<lambda>s. ts_direction s = Transmit \<and> ts_source s = dst
                \<and> ts_destination s = src \<and> ts_pgn s = p \<and> ts_can_port s = port) e of
           None \<Rightarrow> Some (note_dropped_frame e, [])
         | Some i \<Rightarrow>
             let s = tp_sessions e ! i;
                 expected_packets = ucast (total_packets s) :: u8;
                 ack_total = cm_size_bytes (fr_data f);
                 ack_packets = fr_data f ! 3
             in if ts_state s \<noteq> WaitingForEndOfMsg \<or> ack_total \<noteq> ts_total_bytes s
                   \<or> ack_packets \<noteq> expected_packets
                then Some (note_dropped_frame e, [])
                else do {
                  (s', e') \<leftarrow> remove_session i e;
                  Some (emit_complete (s'\<lparr>ts_state := SessionComplete\<rparr>) e', [])
                })"

definition accept_bam :: "tp_engine \<Rightarrow> frame \<Rightarrow> u8 \<Rightarrow> pgn \<Rightarrow> tp_result" where
  "accept_bam e f port p =
     (let msg_size = cm_size_bytes (fr_data f);
          n_packets = fr_data f ! 3;
          over_receive_cap = (tp_max_receive_bytes e < msg_size)
      in if \<not> frame_is_broadcast f \<or> \<not> valid_tp_payload_shape msg_size n_packets \<or> over_receive_cap
         then ((if over_receive_cap then note_resource_rejection else id) (note_dropped_frame e), [])
         else if tp_max_sessions e \<le> length (tp_sessions e)
         then (note_resource_rejection (note_dropped_frame e), [])
         else case rx_buffer msg_size (tp_max_receive_bytes e) of
           Inl reason \<Rightarrow>
             ((if reason = ResourcesUnavailable then note_resource_rejection else id)
                (note_dropped_frame e), [])
         | Inr data \<Rightarrow>
             (push_session
                (session_default\<lparr>ts_direction := Receive, ts_state := ReceivingData, ts_pgn := p,
                   ts_total_bytes := msg_size, ts_source := frame_source f,
                   ts_destination := BROADCAST_ADDRESS, ts_can_port := port,
                   ts_priority := frame_priority f, ts_data := data\<rparr>) e, []))"

definition handle_bam :: "tp_engine \<Rightarrow> frame \<Rightarrow> u8 \<Rightarrow> pgn \<Rightarrow> tp_result option" where
  "handle_bam e f port p =
     (case receive_session_for e (frame_source f) BROADCAST_ADDRESS port p of
        Some existing \<Rightarrow> do {
          (_, e') \<leftarrow> remove_session existing e;
          Some (accept_bam e' f port p)
        }
      | None \<Rightarrow> Some (accept_bam e f port p))"

definition handle_abort :: "tp_engine \<Rightarrow> frame \<Rightarrow> u8 \<Rightarrow> pgn \<Rightarrow> tp_result option" where
  "handle_abort e f port p =
     (let src = frame_source f; dst = frame_destination f;
          reason = (case abort_reason_try_from_u8 (fr_data f ! 1) of Some r \<Rightarrow> r | None \<Rightarrow> OtherReason)
      in case session_position (\<lambda>s. ts_pgn s = p \<and> ts_can_port s = port
                \<and> (ts_source s = dst \<and> ts_destination s = src
                   \<or> ts_source s = src \<and> ts_destination s = dst)) e of
           None \<Rightarrow> Some (note_dropped_frame e, [])
         | Some i \<Rightarrow> do {
             let s = (tp_sessions e ! i)\<lparr>ts_state := SessionAborted\<rparr>;
             let e1 = emit_abort (abort_event_from_session s reason) (put_session i s e);
             (_, e2) \<leftarrow> remove_session i e1;
             Some (note_dropped_session (note_abort_received e2), [])
           })"

definition handle_cm :: "tp_engine \<Rightarrow> frame \<Rightarrow> u8 \<Rightarrow> tp_result option" where
  "handle_cm e f port =
     (let control_byte = fr_data f ! 0;
          cm_pgn = pgn_from_cm_bytes (fr_data f)
      in if \<not> pgn_is_valid cm_pgn then Some (note_dropped_frame e, [])
         else if control_byte \<noteq> tp_cm_BAM \<and> frame_destination f = BROADCAST_ADDRESS
         then Some (note_dropped_frame e, [])
         else if control_byte = tp_cm_RTS then handle_rts e f port cm_pgn
         else if control_byte = tp_cm_CTS then handle_cts e f port cm_pgn
         else if control_byte = tp_cm_EOMA then handle_eoma e f port cm_pgn
         else if control_byte = tp_cm_BAM then handle_bam e f port cm_pgn
         else if control_byte = tp_cm_ABORT then handle_abort e f port cm_pgn
         else Some (note_dropped_frame e, []))"

section \<open>Data frames\<close>

text \<open>The three abort paths of \<open>handle_dt\<close> differ only in the reason.\<close>

definition abort_receive :: "nat \<Rightarrow> transport_abort_reason \<Rightarrow> tp_engine \<Rightarrow> tp_result option" where
  "abort_receive i reason e = do {
     let s = tp_sessions e ! i;
     let (e1, responses) = (if \<not> session_is_broadcast s
           then (note_abort_sent e, [make_session_abort s reason]) else (e, []));
     let s' = s\<lparr>ts_state := SessionAborted\<rparr>;
     let e2 = note_dropped_session (note_dropped_frame
                (emit_abort (abort_event_from_session s' reason) (put_session i s' e1)));
     (_, e3) \<leftarrow> remove_session i e2;
     Some (e3, responses)
   }"

definition ingest_dt :: "u8 \<Rightarrow> bytes \<Rightarrow> transport_session \<Rightarrow> transport_session option" where
  "ingest_dt seq frame_data s = do {
     let offset = ((ucast seq - 1) * 7 :: u32);
     data \<leftarrow> copy_in 1 (unat offset) (unat (ts_total_bytes s)) frame_data [0..<7] (ts_data s);
     Some (s\<lparr>ts_data := data, ts_bytes_transferred := min (offset + TP_BYTES_PER_FRAME) (ts_total_bytes s),
             ts_last_sequence := seq, ts_timer_ms := 0\<rparr>)
   }"

definition finish_receive :: "nat \<Rightarrow> transport_session \<Rightarrow> tp_engine \<Rightarrow> tp_result option" where
  "finish_receive i s e = do {
     let s' = s\<lparr>ts_state := SessionComplete\<rparr>;
     (done_session, e1) \<leftarrow> remove_session i (put_session i s' e);
     Some (emit_complete done_session e1,
           if \<not> session_is_broadcast s'
           then [make_eoma (ts_destination s') (ts_source s') (ts_total_bytes s')
                   (ucast (total_packets s')) (ts_pgn s')]
           else [])
   }"

definition next_window :: "nat \<Rightarrow> u8 \<Rightarrow> transport_session \<Rightarrow> tp_engine \<Rightarrow> tp_result option" where
  "next_window i seq s e = do {
     w \<leftarrow> checked_sub (ts_cts_window_start s) 1;
     in_window \<leftarrow> checked_sub seq w;
     if ts_cts_window_size s \<le> in_window
     then do {
       remaining \<leftarrow> checked_sub (total_packets s) (ucast seq);
       next_seq \<leftarrow> checked_add seq 1;
       let next_count = min (ucast remaining) (ts_max_packets_per_cts s);
       Some (put_session i (s\<lparr>ts_cts_window_start := next_seq, ts_cts_window_size := next_count\<rparr>) e,
             [make_cts (ts_destination s) (ts_source s) next_count next_seq (ts_pgn s)])
     }
     else Some (put_session i s e, [])
   }"

definition dt_matches :: "address \<Rightarrow> address \<Rightarrow> u8 \<Rightarrow> transport_session \<Rightarrow> bool" where
  "dt_matches src dst port s =
     (ts_direction s = Receive \<and> ts_source s = src \<and> ts_can_port s = port
      \<and> (ts_state s = WaitingForData \<or> ts_state s = ReceivingData) \<and> ts_destination s = dst)"

definition handle_dt :: "tp_engine \<Rightarrow> frame \<Rightarrow> u8 \<Rightarrow> tp_result option" where
  "handle_dt e f port =
     (let seq = fr_data f ! 0
      in case session_position (dt_matches (frame_source f) (frame_destination f) port) e of
           None \<Rightarrow> Some (note_dropped_frame e, [])
         | Some i \<Rightarrow>
             if seq = 0 then abort_receive i BadSequence e
             else do {
               let s = tp_sessions e ! i;
               expected \<leftarrow> checked_add (ts_last_sequence s) 1;
               if seq \<noteq> expected \<and> seq \<le> ts_last_sequence s then abort_receive i DuplicateSequence e
               else if seq \<noteq> expected \<and> expected < seq then abort_receive i BadSequence e
               else do {
                 s1 \<leftarrow> ingest_dt seq (fr_data f) s;
                 if ts_total_bytes s1 \<le> ts_bytes_transferred s1 then finish_receive i s1 e
                 else if \<not> session_is_broadcast s1 then next_window i seq s1 e
                 else Some (put_session i s1 e, [])
               }
             })"

definition tp_process_frame :: "tp_engine \<Rightarrow> frame \<Rightarrow> u8 \<Rightarrow> tp_result option" where
  "tp_process_frame e f port =
     (if (frame_pgn f = PGN_TP_CM \<or> frame_pgn f = PGN_TP_DT) \<and> fr_length f < ucast CAN_DATA_LENGTH
      then Some (note_dropped_frame e, [])
      else if (frame_pgn f = PGN_TP_CM \<or> frame_pgn f = PGN_TP_DT)
              \<and> (\<not> valid_tp_source (frame_source f) \<or> \<not> valid_tp_destination (frame_destination f))
      then Some (note_dropped_frame e, [])
      else if frame_pgn f = PGN_TP_CM then handle_cm e f port
      else if frame_pgn f = PGN_TP_DT then handle_dt e f port
      else Some (e, []))"

section \<open>Time\<close>

text \<open>
  One iteration of the loop of \<open>update\<close> on the session at index \<open>i\<close>; the flag says that the
  session was removed, so that the index is used again.
\<close>

definition tp_timed_out :: "transport_session \<Rightarrow> bool" where
  "tp_timed_out s =
     (case ts_state s of
        WaitingForCTS \<Rightarrow> TP_TIMEOUT_T3_MS \<le> ts_timer_ms s
      | WaitingForData \<Rightarrow> TP_TIMEOUT_T2_MS \<le> ts_timer_ms s
      | WaitingForEndOfMsg \<Rightarrow> TP_TIMEOUT_T3_MS \<le> ts_timer_ms s
      | ReceivingData \<Rightarrow> TP_TIMEOUT_T1_MS \<le> ts_timer_ms s
      | _ \<Rightarrow> False)"

definition is_bam_tx :: "transport_session \<Rightarrow> bool" where
  "is_bam_tx s = (session_is_broadcast s \<and> ts_state s = SendingData \<and> ts_direction s = Transmit)"

definition check_session_timeout ::
  "nat \<Rightarrow> transport_session \<Rightarrow> tp_engine \<Rightarrow> (tp_engine \<times> frame list \<times> bool) option" where
  "check_session_timeout i s e =
     (if tp_timed_out s
      then do {
        let s' = s\<lparr>ts_state := SessionAborted\<rparr>;
        let e1 = emit_abort (abort_event_from_session s' SessionTimeout) (put_session i s' e);
        let (e2, frames) = (if \<not> session_is_broadcast s'
              then (note_abort_sent e1, [make_session_abort s' SessionTimeout]) else (e1, []));
        (_, e3) \<leftarrow> remove_session i (note_dropped_session (note_timeout e2));
        Some (e3, frames, True)
      }
      else Some (put_session i s e, [], False))"

definition tp_update_session ::
  "u32 \<Rightarrow> nat \<Rightarrow> tp_engine \<Rightarrow> (tp_engine \<times> frame list \<times> bool) option" where
  "tp_update_session elapsed i e = do {
     let s0 = tp_sessions e ! i;
     let s = s0\<lparr>ts_timer_ms := saturating_add (ts_timer_ms s0) elapsed\<rparr>;
     if is_bam_tx s \<and> TP_BAM_INTER_PACKET_MS \<le> ts_timer_ms s
     then do {
       (s1, frames) \<leftarrow> generate_data_frames 1 (s\<lparr>ts_timer_ms := 0\<rparr>);
       if ts_total_bytes s1 \<le> ts_bytes_transferred s1
       then do {
         (done_session, e1) \<leftarrow> remove_session i (put_session i (s1\<lparr>ts_state := SessionComplete\<rparr>) e);
         Some (emit_complete done_session e1, frames, True)
       }
       else do {
         (e1, more, removed) \<leftarrow> check_session_timeout i s1 e;
         Some (e1, frames @ more, removed)
       }
     }
     else check_session_timeout i s e
   }"

text \<open>
  The loop itself, with as much fuel as there are sessions: each iteration either moves on or
  removes a session.  Running out of fuel before the end would be the value \<open>None\<close>.
\<close>

primrec tp_update_loop :: "nat \<Rightarrow> u32 \<Rightarrow> nat \<Rightarrow> tp_engine \<Rightarrow> tp_result option" where
  "tp_update_loop 0 elapsed i e = (if i < length (tp_sessions e) then None else Some (e, []))"
| "tp_update_loop (Suc fuel) elapsed i e =
     (if i < length (tp_sessions e)
      then do {
        (e1, frames, removed) \<leftarrow> tp_update_session elapsed i e;
        (e2, more) \<leftarrow> tp_update_loop fuel elapsed (if removed then i else i + 1) e1;
        Some (e2, frames @ more)
      }
      else Some (e, []))"

definition tp_update :: "tp_engine \<Rightarrow> u32 \<Rightarrow> tp_result option" where
  "tp_update e elapsed = tp_update_loop (length (tp_sessions e)) elapsed 0 e"

section \<open>Pending data\<close>

definition is_cmdt_tx :: "transport_session \<Rightarrow> bool" where
  "is_cmdt_tx s = (ts_state s = SendingData \<and> ts_direction s = Transmit \<and> \<not> session_is_broadcast s)"

definition drain_session :: "transport_session \<Rightarrow> (transport_session \<times> frame list) option" where
  "drain_session s =
     (if is_cmdt_tx s
      then do {
        (s1, frames) \<leftarrow> generate_data_frames (unat (ts_packets_to_send s)) s;
        Some (s1\<lparr>ts_state := (if ts_total_bytes s1 \<le> ts_bytes_transferred s1 then WaitingForEndOfMsg
                             else WaitingForCTS),
                 ts_timer_ms := 0\<rparr>, frames)
      }
      else Some (s, []))"

primrec drain_sessions :: "transport_session list \<Rightarrow> (transport_session list \<times> frame list) option" where
  "drain_sessions [] = Some ([], [])"
| "drain_sessions (s # ss) = do {
     (s', frames) \<leftarrow> drain_session s;
     (ss', more) \<leftarrow> drain_sessions ss;
     Some (s' # ss', frames @ more)
   }"

definition tp_get_pending_data_frames :: "tp_engine \<Rightarrow> tp_result option" where
  "tp_get_pending_data_frames e = do {
     (ss, frames) \<leftarrow> drain_sessions (tp_sessions e);
     Some (e\<lparr>tp_sessions := ss\<rparr>, frames)
   }"

definition tp_abort_sessions_for_address :: "tp_engine \<Rightarrow> u8 \<Rightarrow> address \<Rightarrow> tp_result" where
  "tp_abort_sessions_for_address e port a =
     (e\<lparr>tp_sessions := filter (\<lambda>s. ts_can_port s \<noteq> port \<or> ts_source s \<noteq> a \<and> ts_destination s \<noteq> a)
                        (tp_sessions e),
        tp_timer_sessions := filter (\<lambda>t. tt_port t \<noteq> port \<or> tt_source t \<noteq> a \<and> tt_destination t \<noteq> a)
                        (tp_timer_sessions e)\<rparr>, [])"

section \<open>Auxiliary timer sessions\<close>

definition tp_track_session ::
  "address \<Rightarrow> address \<Rightarrow> pgn \<Rightarrow> tp_session_state \<Rightarrow> u8 \<Rightarrow> tp_engine \<Rightarrow> tp_engine" where
  "tp_track_session src dst p st port e =
     (if src = NULL_ADDRESS \<or> src = BROADCAST_ADDRESS \<or> dst = NULL_ADDRESS \<or> dst = BROADCAST_ADDRESS
         \<or> \<not> pgn_is_valid p \<or> \<not> tp_session_state_is_active st
      then e
      else e\<lparr>tp_timer_sessions := tp_timer_sessions e @
             [timer_session_default\<lparr>tt_source := src, tt_destination := dst, tt_pgn := p,
                tt_timer_state := st, tt_port := port\<rparr>]\<rparr>)"

text \<open>\<open>iter_mut().find(..)\<close>: the first matching timer session is changed, if there is one.\<close>

primrec update_first :: "('a \<Rightarrow> bool) \<Rightarrow> ('a \<Rightarrow> 'a) \<Rightarrow> 'a list \<Rightarrow> 'a list" where
  "update_first P g [] = []"
| "update_first P g (x # xs) = (if P x then g x # xs else x # update_first P g xs)"

definition timer_key :: "address \<Rightarrow> address \<Rightarrow> pgn \<Rightarrow> u8 \<Rightarrow> tp_timer_session \<Rightarrow> bool" where
  "timer_key src dst p port t =
     (tt_source t = src \<and> tt_destination t = dst \<and> tt_pgn t = p \<and> tt_port t = port)"

definition tp_set_receiver_paused :: "address \<Rightarrow> address \<Rightarrow> pgn \<Rightarrow> u8 \<Rightarrow> tp_engine \<Rightarrow> tp_engine" where
  "tp_set_receiver_paused src dst p port e =
     e\<lparr>tp_timer_sessions := update_first (timer_key src dst p port)
         (\<lambda>t. t\<lparr>tt_receiver_paused := True, tt_cts_keepalive_timer_ms := 0\<rparr>) (tp_timer_sessions e)\<rparr>"

definition tp_reset_session_timer :: "address \<Rightarrow> address \<Rightarrow> pgn \<Rightarrow> u8 \<Rightarrow> tp_engine \<Rightarrow> tp_engine" where
  "tp_reset_session_timer src dst p port e =
     e\<lparr>tp_timer_sessions := update_first (timer_key src dst p port)
         (\<lambda>t. t\<lparr>tt_last_activity_ms := 0\<rparr>) (tp_timer_sessions e)\<rparr>"

definition tp_set_session_state ::
  "address \<Rightarrow> address \<Rightarrow> pgn \<Rightarrow> tp_session_state \<Rightarrow> u8 \<Rightarrow> tp_engine \<Rightarrow> tp_engine" where
  "tp_set_session_state src dst p st port e =
     e\<lparr>tp_timer_sessions := update_first (timer_key src dst p port)
         (\<lambda>t. t\<lparr>tt_timer_state := st, tt_last_activity_ms := 0\<rparr>) (tp_timer_sessions e)\<rparr>"

definition timer_threshold :: "tp_session_state \<Rightarrow> u32 option" where
  "timer_threshold st =
     (case st of TimerWaitForCts \<Rightarrow> Some TP_TIMEOUT_T3_MS | TimerSending \<Rightarrow> Some TP_TIMEOUT_T4_MS
      | TimerWaitForEndOfMsgAck \<Rightarrow> Some TP_TIMEOUT_T3_MS | _ \<Rightarrow> None)"

text \<open>One timer session of \<open>update_sessions\<close>: the session, its frames, and whether it timed out.\<close>

definition update_timer_session ::
  "u32 \<Rightarrow> tp_timer_session \<Rightarrow> tp_timer_session \<times> frame list \<times> bool" where
  "update_timer_session elapsed t0 =
     (if \<not> tp_session_state_is_active (tt_timer_state t0) then (t0, [], False)
      else
        let t = t0\<lparr>tt_last_activity_ms := saturating_add (tt_last_activity_ms t0) elapsed\<rparr>
        in case timer_threshold (tt_timer_state t) of
             None \<Rightarrow> (t, [], False)
           | Some threshold \<Rightarrow>
               if threshold \<le> tt_last_activity_ms t
               then (t\<lparr>tt_timer_state := TimerTimedOut, tt_abort_reason := tp_abort_TIMEOUT\<rparr>,
                     if tt_destination t \<noteq> BROADCAST_ADDRESS
                     then [frame8 (id_encode Lowest PGN_TP_CM (tt_source t) (tt_destination t))
                             ([tp_cm_ABORT, tp_abort_TIMEOUT, 0xFF, 0xFF, 0xFF] @ pgn_bytes (tt_pgn t))]
                     else [], True)
               else if tt_receiver_paused t
               then
                 let k = saturating_add (tt_cts_keepalive_timer_ms t) elapsed
                 in if TP_T_HOLD_MS \<le> k
                    then (t\<lparr>tt_cts_keepalive_timer_ms := 0\<rparr>,
                          [make_cts (tt_destination t) (tt_source t) 0 0 (tt_pgn t)], False)
                    else (t\<lparr>tt_cts_keepalive_timer_ms := k\<rparr>, [], False)
               else (t, [], False))"

definition tp_update_sessions :: "tp_engine \<Rightarrow> u32 \<Rightarrow> tp_result" where
  "tp_update_sessions e elapsed =
     (let rs = map (update_timer_session elapsed) (tp_timer_sessions e);
          expired = filter (snd \<circ> snd) rs;
          n = of_nat (length expired) :: u64;
          aborts = of_nat (length (filter (\<lambda>r. tt_destination (fst r) \<noteq> BROADCAST_ADDRESS) expired)) :: u64;
          st = tp_stats e
      in (e\<lparr>tp_timer_sessions := map fst rs,
            tp_on_session_timeout := tp_on_session_timeout e @ map fst expired,
            tp_stats := st\<lparr>st_timeouts := saturating_add (st_timeouts st) n,
                           st_dropped_sessions := saturating_add (st_dropped_sessions st) n,
                           st_aborts_sent := saturating_add (st_aborts_sent st) aborts\<rparr>\<rparr>,
          concat (map (fst \<circ> snd) rs)))"

end
