(* ===== verification/TP_Segmentation.thy ===== *)
theory TP_Segmentation
  imports TP_Engine
begin

text \<open>
  The wire format of the transport protocol: what the connection-management frames carry, and the
  closed form of the data frames that a transmit session generates.
\<close>

section \<open>Connection-management fields\<close>

lemma bit_low_byte: "bit (low_byte w) k \<longleftrightarrow> k < 8 \<and> bit w k"
  unfolding low_byte_def mask_literals by (auto simp: bit_simps)

lemma pgn_bytes_roundtrip:
  assumes "pgn_is_valid p" and "length hd5 = 5"
  shows "pgn_from_cm_bytes (hd5 @ pgn_bytes p) = p"
proof (rule bit_word_eqI)
  fix k assume "k < LENGTH(32)"
  have top: "bit p k \<Longrightarrow> k < 18" using assms(1) bit_pgn_valid by blast
  have "k < 8 \<or> 8 \<le> k \<and> k < 16 \<or> 16 \<le> k \<and> k < 24 \<or> 24 \<le> k" by linarith
  then show "bit (pgn_from_cm_bytes (hd5 @ pgn_bytes p)) k = bit p k"
    using assms(2) top
    by (auto simp: pgn_from_cm_bytes_def pgn_bytes_def nth_append bit_simps bit_low_byte
        dest: bit_u8)
qed

lemma size_bytes_roundtrip:
  assumes "unat w < 2 ^ 16"
  shows "cm_size_bytes (b0 # low_byte w # low_byte (drop_bit 8 w) # rest) = w"
proof (rule bit_word_eqI)
  fix k assume "k < LENGTH(32)"
  have "w AND mask 16 = w" using assms by (intro less_mask_eq) (simp add: word_less_nat_alt)
  then have top: "bit w k \<Longrightarrow> k < 16" by (metis bit_and_iff bit_mask_iff)
  have "k < 8 \<or> 8 \<le> k \<and> k < 16 \<or> 16 \<le> k" by linarith
  then show "bit (cm_size_bytes (b0 # low_byte w # low_byte (drop_bit 8 w) # rest)) k = bit w k"
    using top by (auto simp: cm_size_bytes_def bit_simps bit_low_byte dest: bit_u8)
qed

lemma pgn_bytes_length [simp]: "length (pgn_bytes p) = 3"
  by (simp add: pgn_bytes_def)

lemma tp_frame_wire:
  "frame_pgn (frame8 (id_encode prio PGN_TP_CM src dst) d) = PGN_TP_CM"
  "frame_pgn (frame8 (id_encode prio PGN_TP_DT src dst) d) = PGN_TP_DT"
  "frame_source (frame8 (id_encode prio q src dst) d) = src"
  "frame_destination (frame8 (id_encode prio PGN_TP_CM src dst) d) = dst"
  "frame_destination (frame8 (id_encode prio PGN_TP_DT src dst) d) = dst"
  "frame_priority (frame8 (id_encode prio q src dst) d) = prio"
  by (simp_all add: frame_accessors id_pgn_encode pgn_consts_valid pgn_normalize_consts
      pdu1_consts)

lemma tp_pgns_differ: "PGN_TP_CM \<noteq> PGN_TP_DT"
  by (simp add: PGN_TP_CM_def PGN_TP_DT_def)

lemmas cm_frame_defs = make_bam_fields_def make_bam_def make_rts_fields_def make_rts_def make_cts_def
  make_eoma_def make_abort_fields_def make_abort_def

text \<open>What a well-formed response of the engine looks like.\<close>

definition tp_frame_ok :: "frame \<Rightarrow> bool" where
  "tp_frame_ok f \<longleftrightarrow> wf_frame f \<and> fr_length f = 8 \<and> frame_priority f = Lowest
     \<and> (frame_pgn f = PGN_TP_CM \<or> frame_pgn f = PGN_TP_DT)"

lemma tp_frame_ok_builders [simp]:
  "tp_frame_ok (make_bam s)" "tp_frame_ok (make_rts s)" "tp_frame_ok (make_cts a b n q p)"
  "tp_frame_ok (make_eoma a b t n p)" "tp_frame_ok (make_abort s r)"
  "tp_frame_ok (make_session_abort s r)" "tp_frame_ok (reply_abort a b p r)"
  by (simp_all add: tp_frame_ok_def cm_frame_defs make_session_abort_def reply_abort_def
      tp_frame_wire split_beta)

section \<open>Data frames\<close>

definition packet_count :: "nat \<Rightarrow> nat" where
  "packet_count n = (n + 6) div 7"

definition dt_frame :: "address \<Rightarrow> address \<Rightarrow> bytes \<Rightarrow> nat \<Rightarrow> frame" where
  "dt_frame src dst p k =
     frame8 (id_encode Lowest PGN_TP_DT src dst)
       (copied_out 1 (7 * (k - 1)) (length p) 7 p ((replicate 8 0xFF)[0 := of_nat k]))"

lemma packet_count_less: "7 * k < n \<longleftrightarrow> k < packet_count n"
  by (auto simp: packet_count_def)

lemma packet_count_le: "n \<le> 7 * k \<longleftrightarrow> packet_count n \<le> k"
  using packet_count_less [of k n] by linarith

lemma packet_count_u8: "n \<le> 1785 \<Longrightarrow> packet_count n \<le> 255"
  by (simp add: packet_count_def)

lemma unat_total_packets_count: "unat (total_packets s) = packet_count (unat (ts_total_bytes s))"
  by (simp add: unat_total_packets packet_count_def)

lemma dt_frame_data_0 [simp]: "fr_data (dt_frame src dst p k) ! 0 = of_nat k"
  by (simp add: dt_frame_def copied_out_def)

lemma dt_frame_wire [simp]:
  "frame_pgn (dt_frame src dst p k) = PGN_TP_DT" "frame_source (dt_frame src dst p k) = src"
  "frame_destination (dt_frame src dst p k) = dst" "fr_length (dt_frame src dst p k) = 8"
  "wf_frame (dt_frame src dst p k)"
  by (simp_all add: dt_frame_def tp_frame_wire)

lemma tp_frame_ok_dt [simp]: "tp_frame_ok (dt_frame src dst p k)"
  by (simp add: tp_frame_ok_def) (simp add: dt_frame_def tp_frame_wire)

text \<open>
  A transmit session in the middle of its payload: the byte counter is seven per packet sent,
  capped at the length.
\<close>

definition tx_position :: "transport_session \<Rightarrow> nat \<Rightarrow> bool" where
  "tx_position s k \<longleftrightarrow>
     unat (ts_total_bytes s) = length (ts_data s) \<and> length (ts_data s) \<le> 1785
     \<and> unat (ts_last_sequence s) = k \<and> k \<le> packet_count (length (ts_data s))
     \<and> unat (ts_bytes_transferred s) = min (7 * k) (length (ts_data s))"

lemma tx_position_done:
  "tx_position s k \<Longrightarrow> ts_total_bytes s \<le> ts_bytes_transferred s \<longleftrightarrow> k = packet_count (length (ts_data s))"
  using packet_count_le [of "length (ts_data s)" k]
  by (auto simp: tx_position_def word_le_nat_alt min_def split: if_splits)

definition tx_advance :: "nat \<Rightarrow> transport_session \<Rightarrow> transport_session" where
  "tx_advance k s = s\<lparr>ts_last_sequence := of_nat k,
     ts_bytes_transferred := of_nat (min (7 * k) (length (ts_data s)))\<rparr>"

lemma tx_advance_simps [simp]:
  "ts_data (tx_advance k s) = ts_data s" "ts_source (tx_advance k s) = ts_source s"
  "ts_destination (tx_advance k s) = ts_destination s" "ts_state (tx_advance k s) = ts_state s"
  "ts_total_bytes (tx_advance k s) = ts_total_bytes s" "ts_pgn (tx_advance k s) = ts_pgn s"
  "ts_direction (tx_advance k s) = ts_direction s" "ts_can_port (tx_advance k s) = ts_can_port s"
  "ts_max_packets_per_cts (tx_advance k s) = ts_max_packets_per_cts s"
  "ts_packets_to_send (tx_advance k s) = ts_packets_to_send s"
  "ts_timer_ms (tx_advance k s) = ts_timer_ms s"
  "tx_advance j (tx_advance k s) = tx_advance j s"
  by (simp_all add: tx_advance_def)

lemma tx_position_advance:
  assumes "unat (ts_total_bytes s) = length (ts_data s)" and "length (ts_data s) \<le> 1785"
    and "k \<le> packet_count (length (ts_data s))"
  shows "tx_position (tx_advance k s) k"
proof -
  have "k \<le> 255" using assms packet_count_u8 order_trans by blast
  moreover have "min (7 * k) (length (ts_data s)) < 2 ^ 32" using assms(2) by simp
  ultimately show ?thesis
    using assms by (simp add: tx_position_def tx_advance_def unat_of_nat)
qed

lemma tx_position_id: "tx_position s k \<Longrightarrow> tx_advance k s = s"
proof -
  assume "tx_position s k"
  then have "of_nat k = ts_last_sequence s"
    "of_nat (min (7 * k) (length (ts_data s))) = ts_bytes_transferred s"
    by (auto simp: tx_position_def intro: of_nat_unat_word)
  then show ?thesis by (simp add: tx_advance_def)
qed

lemma next_data_frame_eq:
  assumes "tx_position s k" and "k < packet_count (length (ts_data s))"
  shows "next_data_frame s =
    Some (tx_advance (Suc k) s, dt_frame (ts_source s) (ts_destination s) (ts_data s) (Suc k))"
proof -
  have k: "7 * k < length (ts_data s)" "length (ts_data s) \<le> 1785"
    "unat (ts_total_bytes s) = length (ts_data s)" "unat (ts_bytes_transferred s) = 7 * k"
    "unat (ts_last_sequence s) = k"
    using assms by (auto simp: tx_position_def packet_count_less)
  have seq: "ts_last_sequence s + 1 = of_nat (Suc k)"
    using of_nat_unat_word [OF k(5)] by (simp add: add.commute)
  have nw: "unat (ts_bytes_transferred s) + unat TP_BYTES_PER_FRAME < 2 ^ LENGTH(32)"
    using k by (simp add: limit_consts)
  have "unat (min (ts_bytes_transferred s + TP_BYTES_PER_FRAME) (ts_total_bytes s))
      = min (7 * k + 7) (length (ts_data s))"
    using k unat_add_no_wrap [OF nw] by (simp add: min_def word_le_nat_alt limit_consts)
  then have bt: "min (ts_bytes_transferred s + TP_BYTES_PER_FRAME) (ts_total_bytes s)
      = of_nat (min (7 * Suc k) (length (ts_data s)))"
    by (intro of_nat_unat_word [symmetric]) (simp add: add.commute)
  show ?thesis
    using k nw
    by (simp add: next_data_frame_def checked_add_Some copy_out_eq seq bt tx_advance_def dt_frame_def Let_def)
qed

lemma upt_rec_map: "m < n \<Longrightarrow> map g [m..<n] = g m # map g [Suc m..<n]"
  by (simp add: upt_conv_Cons)

text \<open>The closed form of \<open>generate_data_frames\<close>: the next packets, numbered consecutively.\<close>

lemma generate_data_frames_eq:
  assumes "tx_position s k"
  shows "generate_data_frames n s =
    Some (tx_advance (min (k + n) (packet_count (length (ts_data s)))) s,
          map (dt_frame (ts_source s) (ts_destination s) (ts_data s))
            [Suc k..<Suc (min (k + n) (packet_count (length (ts_data s))))])"
  using assms
proof (induction n arbitrary: s k)
  case 0
  then have "k \<le> packet_count (length (ts_data s))" by (simp add: tx_position_def)
  then show ?case using 0 by (simp add: tx_position_id)
next
  case (Suc n)
  let ?N = "packet_count (length (ts_data s))"
  have kN: "k \<le> ?N" using Suc.prems by (simp add: tx_position_def)
  show ?case
  proof (cases "k = ?N")
    case True
    then show ?thesis using Suc.prems tx_position_done [OF Suc.prems] by (simp add: tx_position_id)
  next
    case False
    then have lt: "k < ?N" using kN by simp
    have pos: "tx_position (tx_advance (Suc k) s) (Suc k)"
      using Suc.prems lt by (intro tx_position_advance) (auto simp: tx_position_def)
    show ?thesis
      using tx_position_done [OF Suc.prems] lt next_data_frame_eq [OF Suc.prems lt] Suc.IH [OF pos]
      by (simp add: upt_rec_map del: upt_Suc)
  qed
qed

end
