(* ===== verification/Session_Table.thy ===== *)
theory Session_Table
  imports Prelude
begin

text \<open>
  What the protocol engines share about their session tables: tables of well-formed sessions with distinct
  keys, and the index loop that ticks every session and removes some of them with \<open>swap_remove\<close>.
\<close>

section \<open>Tables with distinct keys\<close>

definition keyed_ok :: "('a \<Rightarrow> bool) \<Rightarrow> ('a \<Rightarrow> 'k) \<Rightarrow> 'a list \<Rightarrow> bool" where
  "keyed_ok good key ss \<longleftrightarrow> (\<forall>s \<in> set ss. good s) \<and> distinct (map key ss)"

lemma keyed_ok_Nil [simp]: "keyed_ok good key []"
  by (simp add: keyed_ok_def)

lemma keyed_ok_nth: "keyed_ok good key ss \<Longrightarrow> i < length ss \<Longrightarrow> good (ss ! i)"
  by (simp add: keyed_ok_def)

lemma keyed_ok_remove:
  "keyed_ok good key ss \<Longrightarrow> i < length ss \<Longrightarrow> keyed_ok good key (butlast (ss[i := last ss]))"
  using set_swap_remove_subset [of i ss] distinct_map_swap_remove [of i ss key] by (auto simp: keyed_ok_def)

lemma keyed_ok_remove_update:
  "keyed_ok good key ss \<Longrightarrow> i < length ss \<Longrightarrow> keyed_ok good key (butlast (ss[i := last (ss[i := s])]))"
  by (simp only: swap_remove_update keyed_ok_remove)

lemma keyed_ok_update:
  "keyed_ok good key ss \<Longrightarrow> i < length ss \<Longrightarrow> good s \<Longrightarrow> key s = key (ss ! i) \<Longrightarrow> keyed_ok good key (ss[i := s])"
  using set_update_subset_insert [of ss i s] by (auto simp: keyed_ok_def map_update_same)

lemma keyed_ok_append:
  "keyed_ok good key (ss @ [s]) \<longleftrightarrow> keyed_ok good key ss \<and> good s \<and> key s \<notin> key ` set ss"
  by (auto simp: keyed_ok_def)

lemma keyed_ok_filter: "keyed_ok good key ss \<Longrightarrow> keyed_ok good key (filter P ss)"
  by (auto simp: keyed_ok_def distinct_map inj_on_def)

lemma keyed_ok_set_remove:
  "keyed_ok good key ss \<Longrightarrow> i < length ss \<Longrightarrow>
     set (butlast (ss[i := last ss])) = {s \<in> set ss. key s \<noteq> key (ss ! i)}"
  by (intro set_swap_remove) (simp_all add: keyed_ok_def)

section \<open>The tick loop\<close>

text \<open>
  \<open>visit i e\<close> is the body of the loop at index \<open>i\<close>: it ticks the session there and either puts it back or
  removes it, which the flag reports.  \<open>loop n i\<close> is the loop with \<open>n\<close> units of fuel.  When the body does what
  \<open>tick\<close> says for the session and keeps the invariant, the loop ticks every session exactly once, and one unit
  of fuel per session is enough.
\<close>

locale tick_loop =
  fixes sessions :: "'e \<Rightarrow> 's list"
    and inv :: "'e \<Rightarrow> bool"
    and tick :: "'s \<Rightarrow> 's option \<times> 'o list"
    and visit :: "nat \<Rightarrow> 'e \<Rightarrow> ('e \<times> 'o list \<times> bool) option"
    and loop :: "nat \<Rightarrow> nat \<Rightarrow> 'e \<Rightarrow> ('e \<times> 'o list) option"
  assumes loop_0: "loop 0 i e = (if i < length (sessions e) then None else Some (e, []))"
    and loop_Suc: "loop (Suc n) i e =
      (if i < length (sessions e)
       then do {
         (e1, out, removed) \<leftarrow> visit i e;
         (e2, more) \<leftarrow> loop n (if removed then i else i + 1) e1;
         Some (e2, out @ more)
       }
       else Some (e, []))"
    and visit_eq: "inv e \<Longrightarrow> i < length (sessions e) \<Longrightarrow> tick (sessions e ! i) = (r, out) \<Longrightarrow>
      \<exists>e'. visit i e = Some (e', out, r = None) \<and> inv e'
        \<and> sessions e' = (case r of None \<Rightarrow> butlast ((sessions e)[i := last (sessions e)])
                          | Some s \<Rightarrow> (sessions e)[i := s])"
begin

lemma loop_eq:
  assumes "inv e" and "i \<le> length (sessions e)" and "n = length (sessions e) - i"
  shows "\<exists>e' out. loop n i e = Some (e', out) \<and> inv e'
    \<and> mset (sessions e') = mset (take i (sessions e)) + mset (List.map_filter (fst \<circ> tick) (drop i (sessions e)))
    \<and> mset out = mset (concat (map (snd \<circ> tick) (drop i (sessions e))))"
  using assms
proof (induction n arbitrary: e i)
  case 0
  then show ?case by (simp add: map_filter_def loop_0)
next
  case (Suc n)
  let ?ss = "sessions e"
  have i: "i < length ?ss" using Suc.prems by simp
  obtain r out1 where t: "tick (?ss ! i) = (r, out1)" by (metis surj_pair)
  obtain e1 where e1: "visit i e = Some (e1, out1, r = None)" "inv e1"
    "sessions e1 = (case r of None \<Rightarrow> butlast (?ss[i := last ?ss]) | Some s \<Rightarrow> ?ss[i := s])"
    using visit_eq [OF Suc.prems(1) i t] by blast
  have d: "drop i ?ss = ?ss ! i # drop (Suc i) ?ss" using i by (simp add: Cons_nth_drop_Suc)
  let ?j = "if r = None then i else i + 1"
  have "?j \<le> length (sessions e1)" "n = length (sessions e1) - ?j"
    using Suc.prems i e1(3) by (auto split: option.splits)
  then obtain e2 out2 where e2: "loop n ?j e1 = Some (e2, out2)" "inv e2"
    "mset (sessions e2) = mset (take ?j (sessions e1)) + mset (List.map_filter (fst \<circ> tick) (drop ?j (sessions e1)))"
    "mset out2 = mset (concat (map (snd \<circ> tick) (drop ?j (sessions e1))))"
    using Suc.IH [OF e1(2)] by blast
  have rest: "mset (drop ?j (sessions e1)) = mset (drop (Suc i) ?ss)"
    using e1(3) swap_remove_rest(2) [OF i] by (cases r) auto
  have "mset (take ?j (sessions e1)) = mset (take i ?ss) + mset (case r of None \<Rightarrow> [] | Some s \<Rightarrow> [s])"
    using e1(3) swap_remove_rest(1) [OF i] i by (cases r) (auto simp: take_Suc_conv_app_nth)
  moreover have "loop (Suc n) i e = Some (e2, out1 @ out2)"
    using i e1(1) e2(1) by (simp add: loop_Suc)
  ultimately show ?case
    using e2(2-4) t mset_map_filter_cong [OF rest, of "fst \<circ> tick"] mset_concat_map_cong [OF rest, of "snd \<circ> tick"]
    by (cases r) (auto simp: d map_filter_simps comp_def)
qed

lemma loop_all:
  assumes "inv e"
  shows "\<exists>e' out. loop (length (sessions e)) 0 e = Some (e', out) \<and> inv e'
    \<and> mset (sessions e') = mset (List.map_filter (fst \<circ> tick) (sessions e))
    \<and> mset out = mset (concat (map (snd \<circ> tick) (sessions e)))"
  using loop_eq [OF assms, of 0] by simp

end

end
