(* ===== verification/TP_Invariant.thy ===== *)
theory TP_Invariant
  imports TP_Segmentation Session_Table
begin

text \<open>
  The invariant of the transport engine: every session in the table is well formed for its
  direction and state, and the data path of a session is unambiguous.  Every operation keeps it
  and returns, so no index, subtraction or addition of the engine panics.
\<close>

section \<open>Well-formed sessions\<close>

definition session_packets :: "transport_session \<Rightarrow> nat" where
  "session_packets s = packet_count (length (ts_data s))"

definition session_common :: "transport_session \<Rightarrow> bool" where
  "session_common s \<longleftrightarrow>
     9 \<le> length (ts_data s) \<and> length (ts_data s) \<le> 1785
     \<and> unat (ts_total_bytes s) = length (ts_data s) \<and> pgn_is_valid (ts_pgn s)
     \<and> valid_tp_source (ts_source s) \<and> valid_tp_destination (ts_destination s)
     \<and> 1 \<le> unat (ts_max_packets_per_cts s) \<and> unat (ts_max_packets_per_cts s) \<le> 16"

definition tx_ok :: "transport_session \<Rightarrow> bool" where
  "tx_ok s \<longleftrightarrow>
     (let k = unat (ts_last_sequence s); n = session_packets s in
      tx_position s k
      \<and> (if session_is_broadcast s then ts_state s = SendingData \<and> k < n
         else ts_state s = WaitingForCTS \<and> k < n
            \<or> ts_state s = SendingData \<and> 1 \<le> unat (ts_packets_to_send s)
                \<and> k + unat (ts_packets_to_send s) \<le> n
            \<or> ts_state s = WaitingForEndOfMsg \<and> k = n))"

definition rx_ok :: "transport_session \<Rightarrow> bool" where
  "rx_ok s \<longleftrightarrow>
     (let k = unat (ts_last_sequence s); n = session_packets s;
          start = unat (ts_cts_window_start s); size = unat (ts_cts_window_size s) in
      unat (ts_bytes_transferred s) = 7 * k \<and> k < n
      \<and> (if session_is_broadcast s then ts_state s = ReceivingData
         else ts_state s = WaitingForData \<and> 1 \<le> start \<and> start \<le> k + 1 \<and> k + 1 < start + size
            \<and> start + size \<le> n + 1))"

definition wf_session :: "transport_session \<Rightarrow> bool" where
  "wf_session s \<longleftrightarrow> session_common s
     \<and> (case ts_direction s of Transmit \<Rightarrow> tx_ok s | Receive \<Rightarrow> rx_ok s)"

text \<open>
  The data path of a session.  Data frames carry no PGN, so at most one session may use a path;
  only broadcasts of one node for different PGNs share theirs.
\<close>

definition session_key ::
  "transport_session \<Rightarrow> transport_direction \<times> address \<times> address \<times> u8 \<times> pgn" where
  "session_key s = (ts_direction s, ts_source s, ts_destination s, ts_can_port s,
     if ts_direction s = Receive \<and> session_is_broadcast s then ts_pgn s else 0)"

definition sessions_ok :: "transport_session list \<Rightarrow> bool" where
  "sessions_ok ss \<longleftrightarrow> (\<forall>s \<in> set ss. wf_session s) \<and> distinct (map session_key ss)"

definition tp_inv :: "tp_engine \<Rightarrow> bool" where
  "tp_inv e \<longleftrightarrow> sessions_ok (tp_sessions e)"

lemma session_packets_u8: "session_common s \<Longrightarrow> session_packets s \<le> 255"
  by (simp add: session_packets_def session_common_def packet_count_u8)

lemma session_packets_ge: "session_common s \<Longrightarrow> 2 \<le> session_packets s"
  by (auto simp: session_packets_def session_common_def packet_count_def)

lemma total_packets_session: "session_common s \<Longrightarrow> unat (total_packets s) = session_packets s"
  by (simp add: session_common_def session_packets_def unat_total_packets_count)

section \<open>The table\<close>

lemma sessions_ok_keyed: "sessions_ok = keyed_ok wf_session session_key"
  by (simp add: sessions_ok_def keyed_ok_def fun_eq_iff)

lemma sessions_ok_Nil [simp]: "sessions_ok []"
  by (simp add: sessions_ok_keyed)

lemmas sessions_ok_nth = keyed_ok_nth [of wf_session session_key, folded sessions_ok_keyed]

lemmas sessions_ok_remove = keyed_ok_remove [of wf_session session_key, folded sessions_ok_keyed]

lemmas remove_after_put = keyed_ok_remove_update [of wf_session session_key, folded sessions_ok_keyed]

lemmas sessions_ok_update = keyed_ok_update [of wf_session session_key, folded sessions_ok_keyed]

lemmas sessions_ok_append = keyed_ok_append [of wf_session session_key, folded sessions_ok_keyed]

lemmas sessions_ok_filter = keyed_ok_filter [of wf_session session_key, folded sessions_ok_keyed]

lemma tp_sessions_notes [simp]:
  "tp_sessions (note_dropped_frame e) = tp_sessions e"
  "tp_sessions (note_dropped_session e) = tp_sessions e"
  "tp_sessions (note_abort_sent e) = tp_sessions e"
  "tp_sessions (note_abort_received e) = tp_sessions e"
  "tp_sessions (note_timeout e) = tp_sessions e"
  "tp_sessions (note_resource_rejection e) = tp_sessions e"
  "tp_sessions (emit_complete s e) = tp_sessions e"
  "tp_sessions (emit_abort evt e) = tp_sessions e"
  "tp_sessions (push_session s e) = tp_sessions e @ [s]"
  "tp_sessions (put_session i s e) = (tp_sessions e)[i := s]"
  by (simp_all add: note_defs emit_complete_def emit_abort_def push_session_def put_session_def)

lemma remove_session_Some [panic_simps]:
  "i < length (tp_sessions e) \<Longrightarrow> remove_session i e =
     Some (tp_sessions e ! i, e\<lparr>tp_sessions := butlast ((tp_sessions e)[i := last (tp_sessions e)])\<rparr>)"
  by (simp add: remove_session_def swap_remove_Some)

section \<open>Starting a transfer\<close>

lemma unat_of_nat_u32: "n < 2 ^ 32 \<Longrightarrow> unat (of_nat n :: u32) = n"
  by (simp add: unat_of_nat)

lemma tp_send_inv:
  assumes "tp_inv e" and "length data < 2 ^ 32" and "tp_send e p data src dest port prio = (e', r)"
  shows "tp_inv e' \<and> (\<forall>fs. r = Inr fs \<longrightarrow> (\<forall>f \<in> set fs. tp_frame_ok f))"
proof (cases "isl r")
  case True
  then have "tp_sessions e' = tp_sessions e"
    using assms(3) by (auto simp: tp_send_def Let_def split: if_splits)
  then show ?thesis using assms(1) True by (auto simp: tp_inv_def)
next
  case False
  define s where "s = session_default\<lparr>ts_direction := Transmit, ts_pgn := p, ts_data := data,
                  ts_total_bytes := of_nat (length data), ts_source := src, ts_destination := dest,
                  ts_can_port := port, ts_priority := prio,
                  ts_advertised_packets_per_cts := tp_advertised_packets_per_cts e,
                  ts_state := (if dest = BROADCAST_ADDRESS then SendingData else WaitingForCTS)\<rparr>"
  have len: "unat (of_nat (length data) :: u32) = length data"
    using assms(2) by (rule unat_of_nat_u32)
  have ok: "pgn_is_valid p" "valid_tp_source src" "valid_tp_destination dest"
    "length data \<le> 1785" "9 \<le> length data"
    "\<forall>s \<in> set (tp_sessions e). \<not> (ts_source s = src \<and> ts_destination s = dest
        \<and> ts_direction s = Transmit \<and> ts_can_port s = port)"
    "tp_sessions e' = tp_sessions e @ [s]" "r = Inr [if dest = BROADCAST_ADDRESS then make_bam s else make_rts s]"
    using assms(3) False len
    by (auto simp: tp_send_def Let_def s_def limit_consts list_ex_iff word_less_nat_alt word_le_nat_alt
        split: if_splits)
  have "packet_count (length data) \<noteq> 0" using ok(5) by (simp add: packet_count_def)
  then have "wf_session s"
    using ok len
    by (auto simp: wf_session_def session_common_def tx_ok_def tx_position_def s_def session_default_def
        limit_consts session_packets_def session_is_broadcast_def)
  moreover have "session_key s \<notin> session_key ` set (tp_sessions e)"
    using ok(6) by (auto simp: session_key_def s_def)
  ultimately show ?thesis
    using assms(1) ok(7,8) by (auto simp: tp_inv_def sessions_ok_append)
qed

section \<open>Clear to send\<close>

lemma unat_seq_pred: "q \<noteq> 0 \<Longrightarrow> unat (q - 1 :: u8) = unat q - 1"
  by (metis One_nat_def unat_minus_one)

lemma unat_seq_pred32: "q \<noteq> 0 \<Longrightarrow> unat (ucast (q :: u8) - 1 :: u32) = unat q - 1"
proof -
  assume "q \<noteq> 0"
  then have "0 < unat q" by (simp add: unat_gt_0)
  then show ?thesis by (simp add: unat_sub_no_wrap)
qed

lemma unat_cts_window:
  assumes "session_common s" and "q \<noteq> 0" and "unat q \<le> session_packets s"
  shows "unat (cts_window s n q) =
    min (min (unat n) (session_packets s - (unat q - 1))) (unat (ts_max_packets_per_cts s))"
proof -
  have r: "unat (total_packets s - (ucast q - 1)) = session_packets s - (unat q - 1)"
    using assms by (simp add: unat_sub_no_wrap unat_seq_pred32 total_packets_session)
  have "unat (min (min (ucast n) (total_packets s - (ucast q - 1))) (ucast (ts_max_packets_per_cts s)))
      = min (min (unat n) (session_packets s - (unat q - 1))) (unat (ts_max_packets_per_cts s))"
    by (simp add: unat_min r)
  moreover have "\<dots> < 256" using assms(1) by (simp add: session_common_def min_less_iff_disj)
  ultimately show ?thesis by (simp add: cts_window_def unat_ucast_u32_u8)
qed

lemma wf_session_timer [simp]: "wf_session (s\<lparr>ts_timer_ms := t\<rparr>) = wf_session s"
  by (simp add: wf_session_def session_common_def tx_ok_def rx_ok_def tx_position_def
      session_packets_def session_is_broadcast_def cong: transport_direction.case_cong)

lemma session_key_timer [simp]: "session_key (s\<lparr>ts_timer_ms := t\<rparr>) = session_key s"
  by (simp add: session_key_def session_is_broadcast_def)

lemma cts_grant_wf:
  assumes "wf_session s" and "ts_direction s = Transmit" and "\<not> session_is_broadcast s"
    and "n \<noteq> 0" and "q \<noteq> 0" and "unat q \<le> session_packets s"
  shows "wf_session (s\<lparr>ts_retransmit_count := c, ts_state := SendingData,
      ts_packets_to_send := cts_window s n q, ts_bytes_transferred := (ucast q - 1) * 7,
      ts_last_sequence := q - 1, ts_timer_ms := 0\<rparr>)"
proof -
  have com: "session_common s" using assms(1) by (simp add: wf_session_def)
  have q: "0 < unat q" "0 < unat n" using assms by (simp_all add: unat_gt_0)
  have lt: "7 * (unat q - 1) < length (ts_data s)"
    using q assms(6) by (simp add: packet_count_less session_packets_def)
  have "1 \<le> unat (ts_max_packets_per_cts s)" using com by (simp add: session_common_def)
  then have win: "1 \<le> unat (cts_window s n q)" "unat q - 1 + unat (cts_window s n q) \<le> session_packets s"
    using q assms(6) unfolding unat_cts_window [OF com assms(5,6)] by linarith+
  have "unat ((ucast q - 1) * 7 :: u32) = 7 * (unat q - 1)"
    using le_less_trans [OF diff_le_self unat_u8_less, of q 1] unat_seq_pred32 [OF assms(5)]
    by (subst unat_mult_no_wrap) (simp_all add: mult.commute)
  then show ?thesis
    using com assms q lt win unat_seq_pred [OF assms(5)]
    by (auto simp: wf_session_def session_common_def tx_ok_def tx_position_def session_packets_def
        session_is_broadcast_def)
qed

lemma apply_cts_inv:
  assumes "wf_session s" and "cts_matches src dst port p s" and "valid_tp_source src"
    and "apply_cts mr n q s = (s', None)"
  shows "wf_session s' \<and> session_key s' = session_key s"
proof -
  have tx: "ts_direction s = Transmit" "\<not> session_is_broadcast s"
    using assms(2,3) by (auto simp: cts_matches_def session_is_broadcast_def valid_tp_source_def)
  have com: "session_common s" using assms(1) by (simp add: wf_session_def)
  have le: "\<not> total_packets s < ucast q \<longleftrightarrow> unat q \<le> session_packets s"
    by (simp add: word_less_nat_alt not_less total_packets_session [OF com])
  show ?thesis
    using assms(1,4) tx le cts_grant_wf [OF assms(1) tx, of n q]
    by (auto simp: apply_cts_def Let_def session_key_def session_is_broadcast_def cts_window_def
        total_packets_def split: if_splits)
qed

lemma handle_cts_safe:
  assumes "tp_inv e" and "valid_tp_source (frame_source f)"
  shows "\<exists>e' fs. handle_cts e f port p = Some (e', fs) \<and> tp_inv e' \<and> (\<forall>f \<in> set fs. tp_frame_ok f)"
proof (cases "position (cts_matches (frame_source f) (frame_destination f) port p) (tp_sessions e)")
  case None
  then show ?thesis using assms(1) by (simp add: handle_cts_def tp_inv_def)
next
  case (Some i)
  obtain s aborted where a: "apply_cts (tp_max_retransmits e) (fr_data f ! 1) (fr_data f ! 2) (tp_sessions e ! i)
      = (s, aborted)" by (metis surj_pair)
  have i: "i < length (tp_sessions e)"
    "cts_matches (frame_source f) (frame_destination f) port p (tp_sessions e ! i)"
    using position_SomeD [OF Some] by simp_all
  have wf: "wf_session (tp_sessions e ! i)" using assms(1) i(1) by (simp add: tp_inv_def sessions_ok_nth)
  show ?thesis
  proof (cases aborted)
    case None
    then have "tp_inv (put_session i s e)"
      using apply_cts_inv [OF wf i(2) assms(2)] a assms(1) i(1)
      by (simp add: tp_inv_def sessions_ok_update)
    then show ?thesis using Some a None by (simp add: handle_cts_def)
  next
    case reason: (Some reason)
    then show ?thesis
      using Some a assms(1) i(1)
      by (simp add: handle_cts_def remove_session_Some tp_inv_def remove_after_put)
  qed
qed

section \<open>The other connection-management frames\<close>

lemma handle_eoma_safe:
  assumes "tp_inv e"
  shows "\<exists>e' fs. handle_eoma e f port p = Some (e', fs) \<and> tp_inv e' \<and> (\<forall>f \<in> set fs. tp_frame_ok f)"
  using assms
  by (auto simp: handle_eoma_def Let_def session_position_def remove_session_Some tp_inv_def
      sessions_ok_remove dest: position_SomeD split: option.splits)

lemma handle_abort_safe:
  assumes "tp_inv e"
  shows "\<exists>e' fs. handle_abort e f port p = Some (e', fs) \<and> tp_inv e' \<and> (\<forall>f \<in> set fs. tp_frame_ok f)"
proof (cases "session_position (\<lambda>s. ts_pgn s = p \<and> ts_can_port s = port
                \<and> (ts_source s = frame_destination f \<and> ts_destination s = frame_source f
                   \<or> ts_source s = frame_source f \<and> ts_destination s = frame_destination f)) e")
  case None
  then show ?thesis using assms by (simp add: handle_abort_def Let_def tp_inv_def)
next
  case (Some i)
  then have "i < length (tp_sessions e)" by (auto simp: session_position_def dest: position_SomeD)
  then show ?thesis
    using Some assms by (simp add: handle_abort_def Let_def tp_inv_def remove_session_Some remove_after_put)
qed

lemma payload_shape_unat:
  "valid_tp_payload_shape m n \<Longrightarrow> 9 \<le> unat m \<and> unat m \<le> 1785 \<and> unat n = packet_count (unat m)"
proof -
  assume v: "valid_tp_payload_shape m n"
  then have "9 \<le> unat m" "unat m \<le> 1785" "ucast n = div_ceil m 7"
    by (auto simp: valid_tp_payload_shape_def limit_consts word_less_nat_alt word_le_nat_alt)
  moreover have "unat (div_ceil m 7) = packet_count (unat m)"
    by (subst unat_div_ceil) (simp_all add: packet_count_def)
  ultimately show ?thesis by (metis unat_ucast_u8_u32)
qed

lemma accept_rts_inv:
  assumes "tp_inv e" and "accept_rts e f port p m n c = (e', fs)" and "valid_tp_payload_shape m n"
    and "c \<noteq> 0" and "pgn_is_valid p" and "valid_tp_source (frame_source f)"
    and "valid_tp_destination (frame_destination f)" and "frame_destination f \<noteq> BROADCAST_ADDRESS"
    and free: "\<forall>s \<in> set (tp_sessions e). \<not> (ts_direction s = Receive \<and> ts_source s = frame_source f
        \<and> ts_can_port s = port \<and> ts_destination s = frame_destination f)"
  shows "tp_inv e' \<and> (\<forall>f \<in> set fs. tp_frame_ok f)"
proof (cases "tp_sessions e' = tp_sessions e")
  case True
  then show ?thesis
    using assms(1,2) by (auto simp: accept_rts_def Let_def tp_inv_def split: if_splits sum.splits)
next
  case False
  define s where "s = session_default\<lparr>ts_direction := Receive, ts_state := WaitingForData, ts_pgn := p,
      ts_total_bytes := m, ts_source := frame_source f, ts_destination := frame_destination f,
      ts_can_port := port, ts_priority := frame_priority f,
      ts_max_packets_per_cts := min c (ucast TP_MAX_PACKETS_PER_CTS), ts_data := replicate (unat m) 0xFF,
      ts_cts_window_start := 1, ts_cts_window_size := min n (min c (ucast TP_MAX_PACKETS_PER_CTS))\<rparr>"
  have e': "tp_sessions e' = tp_sessions e @ [s]" "\<forall>f \<in> set fs. tp_frame_ok f"
    using assms(2) False
    by (auto simp: accept_rts_def Let_def s_def rx_buffer_def split: if_splits sum.splits)
  note shape = payload_shape_unat [OF assms(3)]
  have c: "0 < unat c" using assms(4) by (simp add: unat_gt_0)
  have "2 \<le> packet_count (unat m)" using shape by (auto simp: packet_count_def)
  then have "wf_session s"
    using assms(5-8) shape c
    by (simp add: wf_session_def session_common_def rx_ok_def session_packets_def s_def
        session_default_def session_is_broadcast_def limit_consts unat_min)
  moreover have "session_key s \<notin> session_key ` set (tp_sessions e)"
    using free assms(8) by (auto simp: session_key_def s_def session_is_broadcast_def)
  ultimately show ?thesis using assms(1) e' by (simp add: tp_inv_def sessions_ok_append)
qed

lemma path_free_after_remove:
  assumes "sessions_ok ss" and "i < length ss" and "dst \<noteq> BROADCAST_ADDRESS"
    and "ts_direction (ss ! i) = Receive" "ts_source (ss ! i) = src" "ts_can_port (ss ! i) = port"
    "ts_destination (ss ! i) = dst"
  shows "\<forall>s \<in> set (butlast (ss[i := last ss])). \<not> (ts_direction s = Receive \<and> ts_source s = src
    \<and> ts_can_port s = port \<and> ts_destination s = dst)"
proof -
  have "set (butlast (ss[i := last ss])) = {s \<in> set ss. session_key s \<noteq> session_key (ss ! i)}"
    using assms(1,2) by (intro set_swap_remove) (simp_all add: sessions_ok_def)
  then show ?thesis using assms(3-7) by (auto simp: session_key_def session_is_broadcast_def)
qed

lemma handle_rts_safe:
  assumes "tp_inv e" and "pgn_is_valid p" and "valid_tp_source (frame_source f)"
    and "valid_tp_destination (frame_destination f)" and "frame_destination f \<noteq> BROADCAST_ADDRESS"
  shows "\<exists>e' fs. handle_rts e f port p = Some (e', fs) \<and> tp_inv e' \<and> (\<forall>f \<in> set fs. tp_frame_ok f)"
proof (cases "valid_tp_payload_shape (cm_size_bytes (fr_data f)) (fr_data f ! 3) \<and> fr_data f ! 4 \<noteq> 0")
  case False
  then show ?thesis using assms(1) by (auto simp: handle_rts_def Let_def tp_inv_def)
next
  case True
  let ?src = "frame_source f" and ?dst = "frame_destination f"
  let ?acc = "\<lambda>e1. accept_rts e1 f port p (cm_size_bytes (fr_data f)) (fr_data f ! 3) (fr_data f ! 4)"
  have acc: "tp_inv (fst (?acc e1)) \<and> (\<forall>f \<in> set (snd (?acc e1)). tp_frame_ok f)"
    if "tp_inv e1" "\<forall>s \<in> set (tp_sessions e1). \<not> (ts_direction s = Receive \<and> ts_source s = ?src
        \<and> ts_can_port s = port \<and> ts_destination s = ?dst)" for e1
    using that True assms(2-5) by (intro accept_rts_inv [of e1 f port p]) auto
  show ?thesis
  proof (cases "receive_session_for e ?src ?dst port p")
    case None
    then show ?thesis
      using True acc [OF assms(1)] assms(1)
      by (cases "receive_path_is_active e ?src ?dst port")
        (auto simp: handle_rts_def Let_def tp_inv_def receive_path_is_active_def list_ex_iff
          prod_eq_iff)
  next
    case (Some i)
    then have i: "i < length (tp_sessions e)" "ts_direction (tp_sessions e ! i) = Receive"
      "ts_source (tp_sessions e ! i) = ?src" "ts_can_port (tp_sessions e ! i) = port"
      "ts_destination (tp_sessions e ! i) = ?dst"
      by (auto simp: receive_session_for_def dest: position_SomeD)
    let ?e1 = "e\<lparr>tp_sessions := butlast ((tp_sessions e)[i := last (tp_sessions e)])\<rparr>"
    have "tp_inv ?e1" using assms(1) i(1) by (simp add: tp_inv_def sessions_ok_remove)
    then have "tp_inv (fst (?acc ?e1)) \<and> (\<forall>f \<in> set (snd (?acc ?e1)). tp_frame_ok f)"
      using path_free_after_remove [OF _ i(1) assms(5) i(2-5)] assms(1)
      by (intro acc) (simp_all add: tp_inv_def)
    then show ?thesis
      using Some True i(1) by (auto simp: handle_rts_def Let_def remove_session_Some prod_eq_iff)
  qed
qed

lemma accept_bam_inv:
  assumes "tp_inv e" and "accept_bam e f port p = (e', fs)" and "pgn_is_valid p"
    and "valid_tp_source (frame_source f)"
    and free: "\<forall>s \<in> set (tp_sessions e). \<not> (ts_direction s = Receive \<and> ts_source s = frame_source f
        \<and> ts_can_port s = port \<and> ts_destination s = BROADCAST_ADDRESS \<and> ts_pgn s = p)"
  shows "tp_inv e' \<and> fs = []"
proof (cases "tp_sessions e' = tp_sessions e")
  case True
  then show ?thesis
    using assms(1,2) by (auto simp: accept_bam_def Let_def tp_inv_def split: if_splits sum.splits)
next
  case False
  let ?m = "cm_size_bytes (fr_data f)"
  define s where "s = session_default\<lparr>ts_direction := Receive, ts_state := ReceivingData, ts_pgn := p,
      ts_total_bytes := ?m, ts_source := frame_source f, ts_destination := BROADCAST_ADDRESS,
      ts_can_port := port, ts_priority := frame_priority f, ts_data := replicate (unat ?m) 0xFF\<rparr>"
  have e': "tp_sessions e' = tp_sessions e @ [s]" "fs = []" "valid_tp_payload_shape ?m (fr_data f ! 3)"
    using assms(2) False
    by (auto simp: accept_bam_def Let_def s_def rx_buffer_def split: if_splits sum.splits)
  note shape = payload_shape_unat [OF e'(3)]
  have "2 \<le> packet_count (unat ?m)" using shape by (auto simp: packet_count_def)
  then have "wf_session s"
    using assms(3,4) shape
    by (simp add: wf_session_def session_common_def rx_ok_def session_packets_def s_def
        session_default_def session_is_broadcast_def limit_consts valid_tp_destination_def
        address_consts)
  moreover have "session_key s \<notin> session_key ` set (tp_sessions e)"
    using free by (auto simp: session_key_def s_def session_is_broadcast_def)
  ultimately show ?thesis using assms(1) e' by (simp add: tp_inv_def sessions_ok_append)
qed

lemma handle_bam_safe:
  assumes "tp_inv e" and "pgn_is_valid p" and "valid_tp_source (frame_source f)"
  shows "\<exists>e'. handle_bam e f port p = Some (e', []) \<and> tp_inv e'"
proof (cases "receive_session_for e (frame_source f) BROADCAST_ADDRESS port p")
  case None
  then have "\<forall>s \<in> set (tp_sessions e). \<not> (ts_direction s = Receive \<and> ts_source s = frame_source f
        \<and> ts_can_port s = port \<and> ts_destination s = BROADCAST_ADDRESS \<and> ts_pgn s = p)"
    by (auto simp: receive_session_for_def position_None_iff)
  then show ?thesis
    using None accept_bam_inv [OF assms(1) _ assms(2,3), of port "fst (accept_bam e f port p)"
        "snd (accept_bam e f port p)"]
    by (auto simp: handle_bam_def prod_eq_iff)
next
  case (Some i)
  then have i: "i < length (tp_sessions e)" "ts_direction (tp_sessions e ! i) = Receive"
    "ts_source (tp_sessions e ! i) = frame_source f" "ts_can_port (tp_sessions e ! i) = port"
    "ts_destination (tp_sessions e ! i) = BROADCAST_ADDRESS" "ts_pgn (tp_sessions e ! i) = p"
    by (auto simp: receive_session_for_def dest: position_SomeD)
  let ?ss = "butlast ((tp_sessions e)[i := last (tp_sessions e)])"
  let ?e1 = "e\<lparr>tp_sessions := ?ss\<rparr>"
  have "set ?ss = {s \<in> set (tp_sessions e). session_key s \<noteq> session_key (tp_sessions e ! i)}"
    using assms(1) i(1) by (intro set_swap_remove) (simp_all add: tp_inv_def sessions_ok_def)
  then have "\<forall>s \<in> set ?ss. \<not> (ts_direction s = Receive \<and> ts_source s = frame_source f
        \<and> ts_can_port s = port \<and> ts_destination s = BROADCAST_ADDRESS \<and> ts_pgn s = p)"
    using i by (auto simp: session_key_def session_is_broadcast_def)
  moreover have "tp_inv ?e1" using assms(1) i(1) by (simp add: tp_inv_def sessions_ok_remove)
  ultimately show ?thesis
    using Some i(1) accept_bam_inv [OF _ _ assms(2,3), of ?e1 port "fst (accept_bam ?e1 f port p)"
        "snd (accept_bam ?e1 f port p)"]
    by (auto simp: handle_bam_def remove_session_Some prod_eq_iff)
qed

lemma handle_cm_safe:
  assumes "tp_inv e" and "valid_tp_source (frame_source f)" and "valid_tp_destination (frame_destination f)"
  shows "\<exists>e' fs. handle_cm e f port = Some (e', fs) \<and> tp_inv e' \<and> (\<forall>f \<in> set fs. tp_frame_ok f)"
proof -
  let ?p = "pgn_from_cm_bytes (fr_data f)"
  have drop: "tp_inv (note_dropped_frame e)" using assms(1) by (simp add: tp_inv_def)
  show ?thesis
  proof (cases "\<not> pgn_is_valid ?p \<or> fr_data f ! 0 \<noteq> tp_cm_BAM \<and> frame_destination f = BROADCAST_ADDRESS")
    case True
    then show ?thesis using drop by (auto simp: handle_cm_def Let_def)
  next
    case False
    then show ?thesis
      using assms drop handle_rts_safe [OF assms(1) _ assms(2,3), of ?p port]
        handle_cts_safe [OF assms(1,2), of port ?p] handle_eoma_safe [OF assms(1), of f port ?p]
        handle_bam_safe [OF assms(1) _ assms(2), of ?p port] handle_abort_safe [OF assms(1), of f port ?p]
      by (auto simp: handle_cm_def Let_def tp_cm_consts)
  qed
qed

end
