(* ===== verification/TP_Safety.thy ===== *)
theory TP_Safety
  imports TP_Invariant
begin

text \<open>
  The data path and the clock of the transport engine: what one data frame does to a receive
  session, that data frames, ticks and pending data keep the invariant and return, and the run of
  the whole engine over any sequence of inputs.
\<close>

section \<open>One data frame\<close>

definition rx_advance :: "nat \<Rightarrow> bytes \<Rightarrow> transport_session \<Rightarrow> transport_session" where
  "rx_advance k d s = s\<lparr>
     ts_data := copied_in 1 (7 * (k - 1)) (length (ts_data s)) 7 d (ts_data s),
     ts_bytes_transferred := of_nat (min (7 * k) (length (ts_data s))),
     ts_last_sequence := of_nat k, ts_timer_ms := 0\<rparr>"

lemma rx_advance_simps [simp]:
  "length (ts_data (rx_advance k d s)) = length (ts_data s)"
  "ts_source (rx_advance k d s) = ts_source s" "ts_destination (rx_advance k d s) = ts_destination s"
  "ts_state (rx_advance k d s) = ts_state s" "ts_total_bytes (rx_advance k d s) = ts_total_bytes s"
  "ts_pgn (rx_advance k d s) = ts_pgn s" "ts_direction (rx_advance k d s) = ts_direction s"
  "ts_can_port (rx_advance k d s) = ts_can_port s" "ts_last_sequence (rx_advance k d s) = of_nat k"
  "ts_max_packets_per_cts (rx_advance k d s) = ts_max_packets_per_cts s"
  "ts_cts_window_start (rx_advance k d s) = ts_cts_window_start s"
  "ts_cts_window_size (rx_advance k d s) = ts_cts_window_size s"
  "ts_timer_ms (rx_advance k d s) = 0"
  "session_is_broadcast (rx_advance k d s) = session_is_broadcast s"
  "session_key (rx_advance k d s) = session_key s"
  "total_packets (rx_advance k d s) = total_packets s"
  "session_packets (rx_advance k d s) = session_packets s"
  "session_common (rx_advance k d s) = session_common s"
  by (simp_all add: rx_advance_def session_is_broadcast_def session_key_def total_packets_def
      session_packets_def session_common_def)

lemma rx_advance_bytes [simp]:
  "session_common s \<Longrightarrow> unat (ts_bytes_transferred (rx_advance k d s)) = min (7 * k) (length (ts_data s))"
  unfolding rx_advance_def by (simp, subst unat_of_nat_u32) (auto simp: session_common_def)

lemma rx_advance_done:
  assumes "session_common s"
  shows "ts_total_bytes (rx_advance k d s) \<le> ts_bytes_transferred (rx_advance k d s)
    \<longleftrightarrow> session_packets s \<le> k"
  using assms packet_count_le [of "length (ts_data s)" k]
  by (auto simp: word_le_nat_alt session_common_def session_packets_def min_def)

lemma unat_min_advance:
  "unat x = 7 * k \<Longrightarrow> k < 255 \<Longrightarrow> unat (min (x + TP_BYTES_PER_FRAME) t) = min (7 * Suc k) (unat t)"
  by (simp add: unat_min unat_add_no_wrap limit_consts)

lemma ingest_dt_eq:
  assumes "session_common s" and "length d = 8" and "unat seq = Suc k" and "k < session_packets s"
  shows "ingest_dt seq d s = Some (rx_advance (Suc k) d s)"
proof -
  have len: "unat (ts_total_bytes s) = length (ts_data s)" "length (ts_data s) \<le> 1785"
    using assms(1) by (simp_all add: session_common_def)
  have k: "k < 255" using assms(4) session_packets_u8 [OF assms(1)] by linarith
  have seq: "seq \<noteq> 0" using assms(3) by auto
  have off: "unat ((ucast seq - 1) * 7 :: u32) = 7 * k"
    using k assms(3) unat_seq_pred32 [OF seq] by (subst unat_mult_no_wrap) (simp_all add: mult.commute)
  have "unat (min ((ucast seq - 1) * 7 + TP_BYTES_PER_FRAME) (ts_total_bytes s))
      = min (7 * Suc k) (length (ts_data s))"
    using unat_min_advance [OF off k] len by simp
  then have bt: "min ((ucast seq - 1) * 7 + TP_BYTES_PER_FRAME) (ts_total_bytes s)
      = of_nat (min (7 * Suc k) (length (ts_data s)))"
    by (intro of_nat_unat_word [symmetric])
  have sq: "seq = of_nat (Suc k)" using of_nat_unat_word [OF assms(3)] by simp
  show ?thesis
    unfolding ingest_dt_def Let_def off bt
    using assms(2) len by (simp add: copy_in_eq rx_advance_def) (simp add: sq)
qed

lemma rx_position:
  assumes "wf_session s" and "ts_direction s = Receive"
  shows "session_common s" "unat (ts_last_sequence s) < session_packets s"
    "unat (ts_last_sequence s) < 255"
  using assms session_packets_u8 [of s] by (auto simp: wf_session_def rx_ok_def Let_def)

lemma rx_advance_broadcast_wf:
  assumes "wf_session s" and "ts_direction s = Receive" and "session_is_broadcast s" and "k < session_packets s"
  shows "wf_session (rx_advance k d s)"
proof -
  note com = rx_position(1) [OF assms(1,2)]
  have "unat (of_nat k :: u8) = k" using session_packets_u8 [OF com] assms(4) by (simp add: unat_of_nat)
  moreover have "min (7 * k) (length (ts_data s)) = 7 * k"
    using assms(4) packet_count_less [of k] by (simp add: session_packets_def)
  ultimately show ?thesis
    using assms com by (simp add: wf_session_def rx_ok_def Let_def)
qed

section \<open>Granting the next window\<close>

text \<open>The receive session after packet \<open>k\<close> when its window is used up: the next window is granted.\<close>

definition regrant :: "nat \<Rightarrow> bytes \<Rightarrow> transport_session \<Rightarrow> transport_session" where
  "regrant k d s = (rx_advance k d s)\<lparr>ts_cts_window_start := of_nat (Suc k),
     ts_cts_window_size := of_nat (min (session_packets s - k) (unat (ts_max_packets_per_cts s)))\<rparr>"

definition window_open :: "nat \<Rightarrow> transport_session \<Rightarrow> bool" where
  "window_open k s \<longleftrightarrow> k + 1 < unat (ts_cts_window_start s) + unat (ts_cts_window_size s)"

lemma rx_window:
  assumes "wf_session s" and "ts_direction s = Receive" and "\<not> session_is_broadcast s"
  shows "ts_state s = WaitingForData" "1 \<le> unat (ts_cts_window_start s)"
    "unat (ts_cts_window_start s) \<le> unat (ts_last_sequence s) + 1"
    "unat (ts_last_sequence s) + 1 < unat (ts_cts_window_start s) + unat (ts_cts_window_size s)"
    "unat (ts_cts_window_start s) + unat (ts_cts_window_size s) \<le> session_packets s + 1"
  using assms by (auto simp: wf_session_def rx_ok_def Let_def)

lemma rx_advance_window_wf:
  assumes "wf_session s" and "ts_direction s = Receive" and "\<not> session_is_broadcast s"
    and k: "Suc (unat (ts_last_sequence s)) = k" and more: "k < session_packets s"
  shows "window_open k s \<Longrightarrow> wf_session (rx_advance k d s)" and "wf_session (regrant k d s)"
proof -
  note com = rx_position(1) [OF assms(1,2)] and w = rx_window [OF assms(1-3)]
  have n: "session_packets s \<le> 255" using session_packets_u8 [OF com] .
  have ls: "unat (of_nat k :: u8) = k" using n more by (simp add: unat_of_nat)
  have bt: "min (7 * k) (length (ts_data s)) = 7 * k"
    using more packet_count_less [of k] by (simp add: session_packets_def)
  show "wf_session (rx_advance k d s)" if "window_open k s"
    using that com w bt ls more k assms(2,3) by (simp add: wf_session_def rx_ok_def Let_def window_open_def)
  have c: "unat (of_nat (min (session_packets s - k) (unat (ts_max_packets_per_cts s))) :: u8)
      = min (session_packets s - k) (unat (ts_max_packets_per_cts s))"
    using n by (simp add: unat_of_nat)
  have "1 \<le> unat (ts_max_packets_per_cts s)" using com by (simp add: session_common_def)
  moreover have "unat (of_nat (Suc k) :: u8) = Suc k"
    using n more by (simp add: unat_of_nat del: of_nat_Suc)
  ultimately have "rx_ok (regrant k d s)"
    using com w bt ls c more k assms(2,3)
    by (simp add: rx_ok_def Let_def regrant_def session_packets_def session_is_broadcast_def del: of_nat_Suc)
  then show "wf_session (regrant k d s)"
    using com assms(2) by (simp add: wf_session_def regrant_def session_common_def)
qed

lemma session_key_regrant [simp]: "session_key (regrant k d s) = session_key s"
  by (simp add: regrant_def session_key_def session_is_broadcast_def)

lemma next_window_eq:
  assumes "wf_session s" and "ts_direction s = Receive" and "\<not> session_is_broadcast s"
    and k: "Suc (unat (ts_last_sequence s)) = unat seq" and more: "unat seq < session_packets s"
  shows "next_window i seq (rx_advance (unat seq) d s) e =
    (if window_open (unat seq) s then Some (put_session i (rx_advance (unat seq) d s) e, [])
     else Some (put_session i (regrant (unat seq) d s) e,
       [make_cts (ts_destination s) (ts_source s) (ts_cts_window_size (regrant (unat seq) d s))
          (of_nat (Suc (unat seq))) (ts_pgn s)]))"
proof -
  note com = rx_position(1) [OF assms(1,2)] and w = rx_window [OF assms(1-3)]
  have n: "session_packets s \<le> 255" using session_packets_u8 [OF com] .
  have w1: "unat (ts_cts_window_start s - 1) = unat (ts_cts_window_start s) - 1"
    using w(2) by (simp add: unat_sub_no_wrap)
  have in_window: "unat (seq - (ts_cts_window_start s - 1)) = unat seq + 1 - unat (ts_cts_window_start s)"
    using w k w1 by (simp add: unat_sub_no_wrap)
  have sub: "checked_sub (ts_cts_window_start s) 1 = Some (ts_cts_window_start s - 1)"
    "checked_sub seq (ts_cts_window_start s - 1) = Some (seq - (ts_cts_window_start s - 1))"
    "checked_sub (total_packets s) (ucast seq) = Some (total_packets s - ucast seq)"
    "checked_add seq 1 = Some (seq + 1)"
    using w w1 k more n total_packets_session [OF com]
    by (auto intro!: checked_sub_Some checked_add_Some)
  have "unat (min (ucast (total_packets s - ucast seq)) (ts_max_packets_per_cts s))
      = min (session_packets s - unat seq) (unat (ts_max_packets_per_cts s))"
    using n more total_packets_session [OF com]
    by (simp add: unat_min unat_ucast_u32_u8 unat_sub_no_wrap)
  then have c: "min (ucast (total_packets s - ucast seq)) (ts_max_packets_per_cts s)
      = of_nat (min (session_packets s - unat seq) (unat (ts_max_packets_per_cts s)))"
    by (intro of_nat_unat_word [symmetric])
  have s1: "seq + 1 = of_nat (Suc (unat seq))" by simp
  have open_iff: "ts_cts_window_size s \<le> seq - (ts_cts_window_start s - 1) \<longleftrightarrow> \<not> window_open (unat seq) s"
    using in_window w k by (auto simp: word_le_nat_alt window_open_def)
  show ?thesis
    unfolding next_window_def rx_advance_simps sub Let_def bind.bind_lunit open_iff c s1
    by (simp add: regrant_def del: of_nat_Suc of_nat_unat)
qed

section \<open>Data frames keep the invariant\<close>

lemma abort_receive_safe:
  assumes "tp_inv e" and "i < length (tp_sessions e)"
  shows "\<exists>e' fs. abort_receive i reason e = Some (e', fs) \<and> tp_inv e' \<and> (\<forall>f \<in> set fs. tp_frame_ok f)"
  using assms by (simp add: abort_receive_def Let_def remove_session_Some tp_inv_def remove_after_put)

lemma finish_receive_safe:
  assumes "tp_inv e" and "i < length (tp_sessions e)"
  shows "\<exists>e' fs. finish_receive i s e = Some (e', fs) \<and> tp_inv e' \<and> (\<forall>f \<in> set fs. tp_frame_ok f)"
  using assms by (simp add: finish_receive_def Let_def remove_session_Some tp_inv_def remove_after_put)

lemma handle_dt_cases:
  assumes "session_position (dt_matches (frame_source f) (frame_destination f) port) e = Some i"
    and "wf_session (tp_sessions e ! i)" and "wf_frame f"
  defines "s \<equiv> tp_sessions e ! i" and "seq \<equiv> fr_data f ! 0"
  shows "handle_dt e f port =
    (if seq = 0 \<or> unat (ts_last_sequence s) + 1 < unat seq then abort_receive i BadSequence e
     else if unat seq \<le> unat (ts_last_sequence s) then abort_receive i DuplicateSequence e
     else if unat seq = session_packets s then finish_receive i (rx_advance (unat seq) (fr_data f) s) e
     else if session_is_broadcast s
     then Some (put_session i (rx_advance (unat seq) (fr_data f) s) e, [])
     else next_window i seq (rx_advance (unat seq) (fr_data f) s) e)"
proof -
  have m: "dt_matches (frame_source f) (frame_destination f) port s"
    using assms(1) by (auto simp: session_position_def s_def dest: position_SomeD)
  then have rx: "ts_direction s = Receive" by (simp add: dt_matches_def)
  have wf: "wf_session s" using assms(2) by (simp add: s_def)
  note pos = rx_position [OF wf rx]
  have add: "checked_add (ts_last_sequence s) 1 = Some (ts_last_sequence s + 1)"
    "unat (ts_last_sequence s + 1) = unat (ts_last_sequence s) + 1"
    using pos(3) by (auto intro!: checked_add_Some simp: unat_add_no_wrap)
  have ing: "ingest_dt seq (fr_data f) s = Some (rx_advance (unat seq) (fr_data f) s)"
    if "unat seq = Suc (unat (ts_last_sequence s))"
    using ingest_dt_eq [OF pos(1) _ that pos(2), of "fr_data f"] assms(3) that by (simp add: wf_frame_def)
  have fin: "ts_total_bytes (rx_advance (unat seq) (fr_data f) s)
      \<le> ts_bytes_transferred (rx_advance (unat seq) (fr_data f) s) \<longleftrightarrow> unat seq = session_packets s"
    if "unat seq = Suc (unat (ts_last_sequence s))"
    using rx_advance_done [OF pos(1)] that pos(2) by auto
  have z: "seq = 0 \<longleftrightarrow> unat seq = 0" by (simp add: unat_eq_0)
  show ?thesis
  proof (cases "unat seq = Suc (unat (ts_last_sequence s))")
    case True
    then have "seq = ts_last_sequence s + 1" using add(2) by (simp add: word_unat_eq_iff)
    then show ?thesis
      using assms(1) add(1) ing [OF True] fin [OF True] True z
      by (simp add: handle_dt_def Let_def s_def seq_def)
  next
    case False
    then have "seq \<noteq> ts_last_sequence s + 1" using add(2) by auto
    then show ?thesis
      using assms(1) add False z
      by (auto simp: handle_dt_def Let_def s_def seq_def word_le_nat_alt word_less_nat_alt)
  qed
qed

lemma handle_dt_safe:
  assumes "tp_inv e" and "wf_frame f"
  shows "\<exists>e' fs. handle_dt e f port = Some (e', fs) \<and> tp_inv e' \<and> (\<forall>f \<in> set fs. tp_frame_ok f)"
proof (cases "session_position (dt_matches (frame_source f) (frame_destination f) port) e")
  case None
  then show ?thesis using assms(1) by (simp add: handle_dt_def tp_inv_def)
next
  case (Some i)
  let ?s = "tp_sessions e ! i" and ?seq = "fr_data f ! 0"
  have i: "i < length (tp_sessions e)" "dt_matches (frame_source f) (frame_destination f) port ?s"
    using Some by (auto simp: session_position_def dest: position_SomeD)
  then have rx: "ts_direction ?s = Receive" by (simp add: dt_matches_def)
  have wf: "wf_session ?s" using assms(1) i(1) by (simp add: tp_inv_def sessions_ok_nth)
  note pos = rx_position [OF wf rx]
  show ?thesis
  proof (cases "unat ?seq = Suc (unat (ts_last_sequence ?s)) \<and> unat ?seq \<noteq> session_packets ?s")
    case False
    then show ?thesis
      using handle_dt_cases [OF Some wf assms(2)] abort_receive_safe [OF assms(1) i(1)]
        finish_receive_safe [OF assms(1) i(1)] by (auto simp: not_less_eq)
  next
    case True
    then have more: "Suc (unat (ts_last_sequence ?s)) < session_packets ?s" using pos(2) by linarith
    have eq: "handle_dt e f port = (if session_is_broadcast ?s
        then Some (put_session i (rx_advance (unat ?seq) (fr_data f) ?s) e, [])
        else next_window i ?seq (rx_advance (unat ?seq) (fr_data f) ?s) e)"
      using handle_dt_cases [OF Some wf assms(2)] True by (auto simp: unat_eq_0)
    have "wf_session (rx_advance (unat ?seq) (fr_data f) ?s)"
      if "session_is_broadcast ?s \<or> window_open (unat ?seq) ?s"
      using that wf rx more True rx_advance_broadcast_wf rx_advance_window_wf(1)
      by (cases "session_is_broadcast ?s") auto
    moreover have "wf_session (regrant (unat ?seq) (fr_data f) ?s)" if "\<not> session_is_broadcast ?s"
      using that wf rx more True by (intro rx_advance_window_wf(2)) auto
    ultimately show ?thesis
      using eq next_window_eq [OF wf rx, of ?seq i "fr_data f" e] True more assms(1) i(1)
      by (auto simp: tp_inv_def sessions_ok_update)
  qed
qed

lemma tp_process_frame_safe:
  assumes "tp_inv e" and "wf_frame f"
  shows "\<exists>e' fs. tp_process_frame e f port = Some (e', fs) \<and> tp_inv e' \<and> (\<forall>f \<in> set fs. tp_frame_ok f)"
proof -
  have "tp_inv (note_dropped_frame e)" using assms(1) by (simp add: tp_inv_def)
  then show ?thesis
    using assms handle_cm_safe [OF assms(1), of f port] handle_dt_safe [OF assms, of port]
    by (auto simp: tp_process_frame_def)
qed

section \<open>The clock\<close>

text \<open>
  What a tick means for one session: \<open>None\<close> when the session leaves the table, and the frames sent
  on its behalf.
\<close>

definition tick_session :: "u32 \<Rightarrow> transport_session \<Rightarrow> transport_session option \<times> frame list" where
  "tick_session elapsed s0 =
     (let s = s0\<lparr>ts_timer_ms := saturating_add (ts_timer_ms s0) elapsed\<rparr>;
          k = Suc (unat (ts_last_sequence s))
      in if is_bam_tx s \<and> TP_BAM_INTER_PACKET_MS \<le> ts_timer_ms s
         then (if k = session_packets s then None else Some (tx_advance k (s\<lparr>ts_timer_ms := 0\<rparr>)),
               [dt_frame (ts_source s) (ts_destination s) (ts_data s) k])
         else if tp_timed_out s
         then (None, if session_is_broadcast s then [] else [make_session_abort s SessionTimeout])
         else (Some s, []))"

lemma is_bam_tx_wf:
  assumes "wf_session s" and "is_bam_tx s"
  shows "tx_position s (unat (ts_last_sequence s))" "unat (ts_last_sequence s) < session_packets s"
  using assms by (auto simp: wf_session_def is_bam_tx_def tx_ok_def Let_def)

lemma tx_advance_broadcast_wf:
  assumes "wf_session s" and "is_bam_tx s" and "k < session_packets s"
  shows "wf_session (tx_advance k s)" "session_key (tx_advance k s) = session_key s"
proof -
  have "tx_position (tx_advance k s) k"
    using assms by (intro tx_position_advance) (simp_all add: wf_session_def session_common_def session_packets_def)
  moreover have "unat (ts_last_sequence (tx_advance k s)) = k"
    using calculation by (simp add: tx_position_def)
  ultimately show "wf_session (tx_advance k s)"
    using assms by (simp add: wf_session_def session_common_def tx_ok_def session_packets_def
        session_is_broadcast_def is_bam_tx_def)
  show "session_key (tx_advance k s) = session_key s"
    by (simp add: session_key_def session_is_broadcast_def)
qed

lemma is_bam_tx_timer [simp]: "is_bam_tx (s\<lparr>ts_timer_ms := t\<rparr>) = is_bam_tx s"
  by (simp add: is_bam_tx_def session_is_broadcast_def)

lemma session_packets_timer [simp]: "session_packets (s\<lparr>ts_timer_ms := t\<rparr>) = session_packets s"
  by (simp add: session_packets_def)

lemma tick_session_inv:
  assumes "wf_session s" and "tick_session elapsed s = (r, fs)"
  shows "(\<forall>s'. r = Some s' \<longrightarrow> wf_session s' \<and> session_key s' = session_key s) \<and> (\<forall>f \<in> set fs. tp_frame_ok f)"
proof (cases "is_bam_tx s \<and> TP_BAM_INTER_PACKET_MS \<le> saturating_add (ts_timer_ms s) elapsed")
  case True
  let ?s = "s\<lparr>ts_timer_ms := 0\<rparr>" and ?k = "Suc (unat (ts_last_sequence s))"
  have "?k < session_packets ?s \<or> ?k = session_packets ?s"
    using is_bam_tx_wf(2) [OF assms(1)] True by auto
  then show ?thesis
    using assms True tx_advance_broadcast_wf [of ?s ?k]
    by (auto simp: tick_session_def Let_def)
next
  case False
  then show ?thesis using assms by (auto simp: tick_session_def Let_def split: if_splits)
qed

lemma make_session_abort_state [simp]:
  "make_session_abort (s\<lparr>ts_state := st\<rparr>) r = make_session_abort s r"
  by (cases "ts_direction s") (simp_all add: make_session_abort_def)

lemma session_is_broadcast_state [simp]:
  "session_is_broadcast (s\<lparr>ts_state := st\<rparr>) = session_is_broadcast s"
  by (simp add: session_is_broadcast_def)

lemma check_session_timeout_eq:
  assumes "i < length (tp_sessions e)"
  shows "\<exists>e'. check_session_timeout i s e = Some (e',
      if tp_timed_out s \<and> \<not> session_is_broadcast s then [make_session_abort s SessionTimeout] else [],
      tp_timed_out s)
    \<and> tp_sessions e' = (if tp_timed_out s then butlast ((tp_sessions e)[i := last (tp_sessions e)])
                        else (tp_sessions e)[i := s])"
  using assms
  by (simp add: check_session_timeout_def Let_def remove_session_Some swap_remove_update)

lemma tp_update_session_eq:
  assumes "i < length (tp_sessions e)" and "wf_session (tp_sessions e ! i)"
    and t: "tick_session elapsed (tp_sessions e ! i) = (r, fs)"
  shows "\<exists>e'. tp_update_session elapsed i e = Some (e', fs, r = None)
    \<and> tp_sessions e' = (case r of None \<Rightarrow> butlast ((tp_sessions e)[i := last (tp_sessions e)])
                        | Some s \<Rightarrow> (tp_sessions e)[i := s])"
proof -
  let ?s0 = "tp_sessions e ! i"
  let ?s = "?s0\<lparr>ts_timer_ms := saturating_add (ts_timer_ms ?s0) elapsed\<rparr>"
  let ?z = "?s0\<lparr>ts_timer_ms := 0\<rparr>" and ?k = "unat (ts_last_sequence ?s0)"
  show ?thesis
  proof (cases "is_bam_tx ?s \<and> TP_BAM_INTER_PACKET_MS \<le> ts_timer_ms ?s")
    case False
    then show ?thesis
      using t check_session_timeout_eq [OF assms(1), of ?s]
      by (auto simp: tp_update_session_def Let_def tick_session_def split: if_splits)
  next
    case True
    then have "is_bam_tx ?z" "wf_session ?z" using assms(2) by simp_all
    note pos = is_bam_tx_wf [OF this(2,1)]
    have lt: "?k < packet_count (length (ts_data ?z))" using pos(2) by (simp add: session_packets_def)
    have gen: "generate_data_frames 1 ?z = Some (tx_advance (Suc ?k) ?z,
        [dt_frame (ts_source ?s0) (ts_destination ?s0) (ts_data ?s0) (Suc ?k)])"
      using generate_data_frames_eq [OF pos(1), of 1] lt by (simp add: min_def)
    have adv: "tx_position (tx_advance (Suc ?k) ?z) (Suc ?k)"
      using pos lt by (intro tx_position_advance) (simp_all add: tx_position_def)
    have fin: "ts_total_bytes (tx_advance (Suc ?k) ?z) \<le> ts_bytes_transferred (tx_advance (Suc ?k) ?z)
        \<longleftrightarrow> Suc ?k = session_packets ?s0"
      using tx_position_done [OF adv] by (simp add: session_packets_def)
    have "\<not> tp_timed_out (tx_advance (Suc ?k) ?z)"
      using True by (simp add: tp_timed_out_def is_bam_tx_def)
    then show ?thesis
      using t True gen fin check_session_timeout_eq [OF assms(1), of "tx_advance (Suc ?k) ?z"] assms(1)
      by (auto simp: tp_update_session_def Let_def tick_session_def remove_session_Some swap_remove_update
          split: if_splits)
  qed
qed

text \<open>
  The loop of \<open>update\<close> ticks every session exactly once, although it removes sessions by swapping the last
  one into their place; the fuel, one per session, suffices.
\<close>

interpretation tp_ticks: tick_loop tp_sessions tp_inv "tick_session elapsed" "tp_update_session elapsed"
  "\<lambda>n. tp_update_loop n elapsed"
  for elapsed
proof unfold_locales
  fix e i r and out :: "frame list"
  assume e: "tp_inv e" and i: "i < length (tp_sessions e)" and t: "tick_session elapsed (tp_sessions e ! i) = (r, out)"
  have wf: "wf_session (tp_sessions e ! i)" using e i by (simp add: tp_inv_def sessions_ok_nth)
  obtain e' where e': "tp_update_session elapsed i e = Some (e', out, r = None)"
    "tp_sessions e' = (case r of None \<Rightarrow> butlast ((tp_sessions e)[i := last (tp_sessions e)])
                        | Some s \<Rightarrow> (tp_sessions e)[i := s])"
    using tp_update_session_eq [OF i wf t] by blast
  then show "\<exists>e'. tp_update_session elapsed i e = Some (e', out, r = None) \<and> tp_inv e'
      \<and> tp_sessions e' = (case r of None \<Rightarrow> butlast ((tp_sessions e)[i := last (tp_sessions e)])
                        | Some s \<Rightarrow> (tp_sessions e)[i := s])"
    using tick_session_inv [OF wf t] e i
    by (auto simp: tp_inv_def sessions_ok_remove sessions_ok_update split: option.splits)
qed simp_all

lemma tp_update_eq:
  assumes "tp_inv e"
  shows "\<exists>e' fs. tp_update e elapsed = Some (e', fs) \<and> tp_inv e' \<and> (\<forall>f \<in> set fs. tp_frame_ok f)
    \<and> mset (tp_sessions e') = mset (List.map_filter (fst \<circ> tick_session elapsed) (tp_sessions e))
    \<and> mset fs = mset (concat (map (snd \<circ> tick_session elapsed) (tp_sessions e)))"
proof -
  obtain e' fs where r: "tp_update e elapsed = Some (e', fs)" "tp_inv e'"
    "mset (tp_sessions e') = mset (List.map_filter (fst \<circ> tick_session elapsed) (tp_sessions e))"
    "mset fs = mset (concat (map (snd \<circ> tick_session elapsed) (tp_sessions e)))"
    using tp_ticks.loop_all [OF assms, of elapsed] by (auto simp: tp_update_def)
  have "f \<in> set (concat (map (snd \<circ> tick_session elapsed) (tp_sessions e))) \<Longrightarrow> tp_frame_ok f" for f
    using tick_session_inv [OF _ prod.collapse [symmetric], of _ elapsed] assms
    by (auto simp: tp_inv_def sessions_ok_def)
  then show ?thesis using r mset_eq_setD [OF r(4)] by blast
qed

section \<open>Pending data\<close>

definition drained_session :: "transport_session \<Rightarrow> transport_session \<times> frame list" where
  "drained_session s =
     (if is_cmdt_tx s
      then let k = unat (ts_last_sequence s); m = k + unat (ts_packets_to_send s) in
        ((tx_advance m s)\<lparr>ts_state := (if m = session_packets s then WaitingForEndOfMsg else WaitingForCTS),
                          ts_timer_ms := 0\<rparr>,
         map (dt_frame (ts_source s) (ts_destination s) (ts_data s)) [Suc k..<Suc m])
      else (s, []))"

lemma drain_session_eq:
  assumes "wf_session s"
  shows "drain_session s = Some (drained_session s) \<and> wf_session (fst (drained_session s))
    \<and> session_key (fst (drained_session s)) = session_key s
    \<and> (\<forall>f \<in> set (snd (drained_session s)). tp_frame_ok f)"
proof (cases "is_cmdt_tx s")
  case False
  then show ?thesis using assms by (simp add: drain_session_def drained_session_def)
next
  case True
  define k where "k = unat (ts_last_sequence s)"
  define m where "m = k + unat (ts_packets_to_send s)"
  have pos: "tx_position s k" "m \<le> session_packets s" "session_common s"
    using assms True by (auto simp: wf_session_def is_cmdt_tx_def tx_ok_def Let_def k_def m_def)
  have adv: "tx_position (tx_advance m s) m"
    using pos by (intro tx_position_advance) (simp_all add: session_common_def session_packets_def)
  have ls: "unat (ts_last_sequence (tx_advance m s)) = m" using adv by (simp add: tx_position_def)
  have fin: "ts_total_bytes (tx_advance m s) \<le> ts_bytes_transferred (tx_advance m s) \<longleftrightarrow> m = session_packets s"
    using tx_position_done [OF adv] by (simp add: session_packets_def)
  have gen: "generate_data_frames (unat (ts_packets_to_send s)) s = Some (tx_advance m s,
      map (dt_frame (ts_source s) (ts_destination s) (ts_data s)) [Suc k..<Suc m])"
    using generate_data_frames_eq [OF pos(1), of "unat (ts_packets_to_send s)"] pos(2)
    by (simp add: m_def session_packets_def min_def)
  have "drain_session s = Some (drained_session s)"
    using True gen fin by (simp add: drain_session_def drained_session_def Let_def k_def m_def)
  moreover have "wf_session (fst (drained_session s))"
    using True assms pos adv ls
    by (auto simp: drained_session_def is_cmdt_tx_def wf_session_def session_common_def tx_ok_def
        tx_position_def session_packets_def session_is_broadcast_def Let_def simp flip: k_def m_def)
  moreover have "session_key (fst (drained_session s)) = session_key s"
    by (simp add: drained_session_def session_key_def session_is_broadcast_def Let_def)
  ultimately show ?thesis by (auto simp: drained_session_def Let_def)
qed

lemma drain_sessions_eq:
  "\<forall>s \<in> set ss. wf_session s \<Longrightarrow> drain_sessions ss =
     Some (map (fst \<circ> drained_session) ss, concat (map (snd \<circ> drained_session) ss))"
  by (induction ss) (auto simp: drain_session_eq split: prod.splits)

lemma tp_get_pending_data_frames_eq:
  assumes "tp_inv e"
  shows "tp_get_pending_data_frames e =
    Some (e\<lparr>tp_sessions := map (fst \<circ> drained_session) (tp_sessions e)\<rparr>,
          concat (map (snd \<circ> drained_session) (tp_sessions e)))"
  using assms by (simp add: tp_get_pending_data_frames_def drain_sessions_eq tp_inv_def sessions_ok_def)

lemma sessions_ok_drained:
  assumes "sessions_ok ss"
  shows "sessions_ok (map (fst \<circ> drained_session) ss)"
proof -
  have "map session_key (map (fst \<circ> drained_session) ss) = map session_key ss"
    using assms by (simp add: sessions_ok_def drain_session_eq)
  then show ?thesis using assms unfolding sessions_ok_def by (simp add: drain_session_eq del: map_map)
qed

section \<open>Runs of the engine\<close>

text \<open>Every operation of the engine that changes its state, as an input.\<close>

datatype tp_input =
    TpSend pgn bytes address address u8 priority
  | TpFrame frame u8
  | TpUpdate u32
  | TpPending
  | TpAbortAddress u8 address
  | TpTrack address address pgn tp_session_state u8
  | TpPause address address pgn u8
  | TpResetTimer address address pgn u8
  | TpSetState address address pgn tp_session_state u8
  | TpUpdateSessions u32
  | TpConfigure u32 nat u8 u8
  | TpClearStats

definition tp_step :: "tp_input \<Rightarrow> tp_engine \<Rightarrow> (tp_engine \<times> frame list) option" where
  "tp_step i e =
     (case i of
        TpSend p data src dest port prio \<Rightarrow>
          (case tp_send e p data src dest port prio of
             (e', Inr frames) \<Rightarrow> Some (e', frames) | (e', Inl _) \<Rightarrow> Some (e', []))
      | TpFrame f port \<Rightarrow> tp_process_frame e f port
      | TpUpdate ms \<Rightarrow> tp_update e ms
      | TpPending \<Rightarrow> tp_get_pending_data_frames e
      | TpAbortAddress port a \<Rightarrow> Some (tp_abort_sessions_for_address e port a)
      | TpTrack src dst p st port \<Rightarrow> Some (tp_track_session src dst p st port e, [])
      | TpPause src dst p port \<Rightarrow> Some (tp_set_receiver_paused src dst p port e, [])
      | TpResetTimer src dst p port \<Rightarrow> Some (tp_reset_session_timer src dst p port e, [])
      | TpSetState src dst p st port \<Rightarrow> Some (tp_set_session_state src dst p st port e, [])
      | TpUpdateSessions ms \<Rightarrow> Some (tp_update_sessions e ms)
      | TpConfigure bytes n retries pkts \<Rightarrow>
          Some (tp_set_advertised_packets_per_cts pkts (tp_set_max_retransmits retries
                  (tp_set_max_sessions n (tp_set_max_receive_bytes bytes e))), [])
      | TpClearStats \<Rightarrow> Some (tp_clear_stats e, []))"

text \<open>A frame has eight data bytes by its type; a payload is shorter than four gigabytes.\<close>

definition tp_admissible :: "tp_input \<Rightarrow> bool" where
  "tp_admissible i = (case i of TpSend p data src dest port prio \<Rightarrow> length data < 2 ^ 32
     | TpFrame f port \<Rightarrow> wf_frame f | _ \<Rightarrow> True)"

lemma update_timer_session_frames: "f \<in> set (fst (snd (update_timer_session ms t))) \<Longrightarrow> tp_frame_ok f"
  by (auto simp: update_timer_session_def Let_def tp_frame_ok_def tp_frame_wire cm_frame_defs pgn_bytes_def
      split: if_splits option.splits)

lemma tp_step_inv:
  assumes "tp_inv e" and "tp_admissible i"
  shows "\<exists>e' out. tp_step i e = Some (e', out) \<and> tp_inv e' \<and> (\<forall>f \<in> set out. tp_frame_ok f)"
proof (cases i)
  case (TpSend p data src dest port prio)
  obtain e' r where r: "tp_send e p data src dest port prio = (e', r)" by (metis surj_pair)
  show ?thesis
    using tp_send_inv [OF assms(1) _ r] assms(2) TpSend r
    by (cases r) (auto simp: tp_step_def tp_admissible_def)
next
  case (TpFrame f port)
  then show ?thesis
    using tp_process_frame_safe [OF assms(1)] assms(2) by (simp add: tp_step_def tp_admissible_def)
next
  case (TpUpdate ms)
  then show ?thesis using tp_update_eq [OF assms(1), of ms] by (auto simp: tp_step_def)
next
  case TpPending
  have "\<forall>s \<in> set (tp_sessions e). wf_session s" using assms(1) by (simp add: tp_inv_def sessions_ok_def)
  then show ?thesis
    using TpPending tp_get_pending_data_frames_eq [OF assms(1)] sessions_ok_drained assms(1) drain_session_eq
    by (fastforce simp: tp_step_def tp_inv_def)
next
  case (TpUpdateSessions ms)
  then show ?thesis
    using assms(1) update_timer_session_frames
    by (auto simp: tp_step_def tp_update_sessions_def Let_def tp_inv_def)
qed (use assms(1) in \<open>auto simp: tp_step_def tp_inv_def tp_abort_sessions_for_address_def
    sessions_ok_filter tp_track_session_def tp_set_receiver_paused_def tp_reset_session_timer_def
    tp_set_session_state_def tp_set_advertised_packets_per_cts_def tp_set_max_retransmits_def
    tp_set_max_sessions_def tp_set_max_receive_bytes_def tp_clear_stats_def\<close>)

interpretation tp: safe_system tp_step tp_inv tp_admissible tp_frame_ok
  by unfold_locales (rule tp_step_inv)

section \<open>Properties\<close>

lemma tp_send_keeps_inv:
  "tp_inv e \<Longrightarrow> length data < 2 ^ 32 \<Longrightarrow> tp_inv (fst (tp_send e p data src dest port prio))"
  using tp_send_inv [of e data] by (metis prod.collapse)

lemma tp_new_inv: "tp_inv tp_new"
  by (simp add: tp_inv_def tp_new_def)

text \<open>C4: No sequence of calls on a new transport engine -- transfers started, any CAN frames
received, ticks, drained data, addresses aborted, timer sessions tracked, limits changed -- panics:
every call returns.  Afterwards every session in the table is consistent with its direction and
state, no two sessions share a data path, and every frame put out has eight data bytes, the lowest
priority and one of the two transport PGNs.\<close>

theorem tp_run_safe:
  assumes "\<forall>i \<in> set inputs. tp_admissible i"
  shows "\<exists>e out. run_inputs tp_step inputs tp_new = Some (e, out)
    \<and> (\<forall>s \<in> set (tp_sessions e). wf_session s) \<and> distinct (map session_key (tp_sessions e))
    \<and> (\<forall>f \<in> set out. tp_frame_ok f)"
  using tp.run_safe [OF tp_new_inv assms] by (auto simp: tp_inv_def sessions_ok_def)

definition sample_inputs :: "tp_input list" where
  "sample_inputs =
     [TpSend 0xFECA (replicate 20 0x11) 0x20 0x30 0 Default,
      TpFrame (make_cts 0x30 0x20 2 1 0xFECA) 0, TpPending,
      TpFrame (frame8 (id_encode Default PGN_TP_CM 0x31 0x20) (replicate 8 0x10)) 0, TpUpdate 2000]"

theorem tp_run_safe_witness:
  "\<exists>e out. run_inputs tp_step sample_inputs tp_new = Some (e, out)
    \<and> (\<forall>s \<in> set (tp_sessions e). wf_session s) \<and> distinct (map session_key (tp_sessions e))
    \<and> (\<forall>f \<in> set out. tp_frame_ok f)"
  by (rule tp_run_safe)
    (simp add: sample_inputs_def tp_admissible_def cm_frame_defs pgn_bytes_def)

text \<open>C14: One call of the engine's \<open>update\<close> ticks every session exactly once, although it removes
finished sessions by moving the last one into their place while it walks the table.  The sessions
left and the frames sent are, up to order, those of ticking each session by itself.\<close>

theorem tp_update_ticks_each_session:
  assumes "tp_inv e"
  shows "\<exists>e' fs. tp_update e elapsed = Some (e', fs)
    \<and> mset (tp_sessions e') = mset (List.map_filter (fst \<circ> tick_session elapsed) (tp_sessions e))
    \<and> mset fs = mset (concat (map (snd \<circ> tick_session elapsed) (tp_sessions e)))"
  using tp_update_eq [OF assms, of elapsed] by (auto simp: comp_def)

definition two_broadcasts :: tp_engine where
  "two_broadcasts = fst (tp_send (fst (tp_send tp_new 0xFECA (replicate 9 1) 0x20 0xFF 0 Default))
     0xFECA (replicate 9 2) 0x21 0xFF 0 Default)"

theorem tp_update_ticks_each_session_witness:
  "tp_inv two_broadcasts \<and> length (tp_sessions two_broadcasts) = 2
   \<and> (\<exists>e' fs. tp_update two_broadcasts 50 = Some (e', fs)
       \<and> mset (tp_sessions e') = mset (List.map_filter (fst \<circ> tick_session 50) (tp_sessions two_broadcasts))
       \<and> mset fs = mset (concat (map (snd \<circ> tick_session 50) (tp_sessions two_broadcasts))))"
proof -
  have inv: "tp_inv two_broadcasts"
    unfolding two_broadcasts_def by (intro tp_send_keeps_inv tp_new_inv) simp_all
  have "length (tp_sessions two_broadcasts) = 2" by code_simp
  then show ?thesis using inv tp_update_ticks_each_session [OF inv, of 50] by blast
qed

end
