(* ===== verification/TP_Capacity.thy ===== *)
theory TP_Capacity
  imports TP_Safety
begin

text \<open>
  The resource limit of the transport engine: the session table never grows beyond the configured
  number of sessions.
\<close>

text \<open>
  What an operation may do to the table: sessions leave it or are replaced one for one, and a new
  one enters only below the limit.
\<close>

definition grows_within :: "tp_engine \<Rightarrow> tp_engine \<Rightarrow> bool" where
  "grows_within e e' \<longleftrightarrow> tp_max_sessions e' = tp_max_sessions e
     \<and> length (tp_sessions e') \<le> max (length (tp_sessions e)) (tp_max_sessions e)"

lemma grows_within_refl [simp]: "grows_within e e"
  by (simp add: grows_within_def)

lemma max_sessions_notes [simp]:
  "tp_max_sessions (note_dropped_frame e) = tp_max_sessions e"
  "tp_max_sessions (note_dropped_session e) = tp_max_sessions e"
  "tp_max_sessions (note_abort_sent e) = tp_max_sessions e"
  "tp_max_sessions (note_abort_received e) = tp_max_sessions e"
  "tp_max_sessions (note_timeout e) = tp_max_sessions e"
  "tp_max_sessions (note_resource_rejection e) = tp_max_sessions e"
  "tp_max_sessions (emit_complete s e) = tp_max_sessions e"
  "tp_max_sessions (emit_abort evt e) = tp_max_sessions e"
  "tp_max_sessions (push_session s e) = tp_max_sessions e"
  "tp_max_sessions (put_session i s e) = tp_max_sessions e"
  by (simp_all add: note_defs emit_complete_def emit_abort_def push_session_def put_session_def)

lemma remove_session_SomeD:
  "remove_session i e = Some (s, e') \<Longrightarrow> length (tp_sessions e') = length (tp_sessions e) - 1
     \<and> tp_max_sessions e' = tp_max_sessions e"
  by (auto simp: remove_session_def swap_remove_def split: bind_splits if_splits)

lemma tp_send_grows: "grows_within e (fst (tp_send e p data src dest port prio))"
  by (auto simp: grows_within_def tp_send_def Let_def)

lemma accept_grows:
  "grows_within e (fst (accept_rts e f port p m n c))" "grows_within e (fst (accept_bam e f port p))"
  by (auto simp: grows_within_def accept_rts_def accept_bam_def Let_def split: sum.splits)

lemma grows_within_remove:
  "remove_session i e = Some (s, e1) \<Longrightarrow> grows_within e1 e' \<Longrightarrow> grows_within e e'"
  by (auto simp: grows_within_def dest!: remove_session_SomeD)

lemma grows_within_notes [simp]:
  "grows_within e (note_dropped_frame e') = grows_within e e'"
  "grows_within e (note_dropped_session e') = grows_within e e'"
  "grows_within e (note_abort_sent e') = grows_within e e'"
  "grows_within e (note_abort_received e') = grows_within e e'"
  "grows_within e (note_timeout e') = grows_within e e'"
  "grows_within e (note_resource_rejection e') = grows_within e e'"
  "grows_within e (emit_complete s e') = grows_within e e'"
  "grows_within e (emit_abort evt e') = grows_within e e'"
  "grows_within e (put_session i s e') = grows_within e e'"
  "grows_within (note_dropped_frame e) e' = grows_within e e'"
  "grows_within (note_dropped_session e) e' = grows_within e e'"
  "grows_within (note_abort_sent e) e' = grows_within e e'"
  "grows_within (note_timeout e) e' = grows_within e e'"
  "grows_within (emit_abort evt e) e' = grows_within e e'"
  "grows_within (put_session i s e) e' = grows_within e e'"
  by (simp_all add: grows_within_def)

lemma remove_session_grows: "remove_session i e = Some (s, e') \<Longrightarrow> grows_within e e'"
  by (auto simp: grows_within_def dest!: remove_session_SomeD)

lemma handle_rts_grows:
  assumes "handle_rts e f port p = Some (e', fs)"
  shows "grows_within e e'"
proof (cases "receive_session_for e (frame_source f) (frame_destination f) port p")
  case None
  then show ?thesis
    using assms accept_grows(1) [of e f port p "cm_size_bytes (fr_data f)" "fr_data f ! 3" "fr_data f ! 4"]
    by (auto simp: handle_rts_def Let_def split: if_splits)
next
  case (Some i)
  then show ?thesis
    using assms accept_grows(1) [of _ f port p "cm_size_bytes (fr_data f)" "fr_data f ! 3" "fr_data f ! 4"]
    by (auto simp: handle_rts_def Let_def split: if_splits bind_splits) (metis fst_conv grows_within_remove)
qed

lemma handle_bam_grows:
  assumes "handle_bam e f port p = Some (e', fs)"
  shows "grows_within e e'"
proof (cases "receive_session_for e (frame_source f) BROADCAST_ADDRESS port p")
  case None
  then show ?thesis using assms accept_grows(2) [of e f port p] by (auto simp: handle_bam_def)
next
  case (Some i)
  then show ?thesis
    using assms accept_grows(2) [of _ f port p]
    by (auto simp: handle_bam_def split: bind_splits) (metis fst_conv grows_within_remove)
qed

lemma handle_cts_grows: "handle_cts e f port p = Some (e', fs) \<Longrightarrow> grows_within e e'"
  by (auto simp: handle_cts_def Let_def dest!: remove_session_grows
      split: option.splits bind_splits prod.splits)

lemma handle_eoma_grows: "handle_eoma e f port p = Some (e', fs) \<Longrightarrow> grows_within e e'"
  by (auto simp: handle_eoma_def Let_def dest!: remove_session_grows
      split: option.splits bind_splits if_splits)

lemma handle_abort_grows: "handle_abort e f port p = Some (e', fs) \<Longrightarrow> grows_within e e'"
  by (auto simp: handle_abort_def Let_def dest!: remove_session_grows split: option.splits bind_splits)

lemma handle_cm_grows: "handle_cm e f port = Some (e', fs) \<Longrightarrow> grows_within e e'"
  by (auto simp: handle_cm_def Let_def split: if_splits
      dest: handle_rts_grows handle_cts_grows handle_eoma_grows handle_bam_grows handle_abort_grows)

lemma receive_branch_grows:
  "abort_receive i reason e = Some (e', fs) \<Longrightarrow> grows_within e e'"
  "finish_receive i s e = Some (e', fs) \<Longrightarrow> grows_within e e'"
  "next_window i seq s e = Some (e', fs) \<Longrightarrow> grows_within e e'"
  by (auto simp: abort_receive_def finish_receive_def next_window_def Let_def
      dest!: remove_session_grows split: bind_splits if_splits)

lemma handle_dt_grows: "handle_dt e f port = Some (e', fs) \<Longrightarrow> grows_within e e'"
  by (auto simp: handle_dt_def Let_def dest: receive_branch_grows split: option.splits bind_splits if_splits)

lemma tp_process_frame_grows: "tp_process_frame e f port = Some (e', fs) \<Longrightarrow> grows_within e e'"
  by (auto simp: tp_process_frame_def dest: handle_cm_grows handle_dt_grows split: if_splits)

lemma check_session_timeout_grows: "check_session_timeout i s e = Some (e', r) \<Longrightarrow> grows_within e e'"
  by (auto simp: check_session_timeout_def Let_def dest!: remove_session_grows split: if_splits bind_splits)

lemma tp_update_session_grows: "tp_update_session ms i e = Some (e', r) \<Longrightarrow> grows_within e e'"
  by (auto simp: tp_update_session_def Let_def dest!: remove_session_grows check_session_timeout_grows
      split: if_splits bind_splits)

lemma grows_within_trans: "grows_within e e1 \<Longrightarrow> grows_within e1 e' \<Longrightarrow> grows_within e e'"
  by (auto simp: grows_within_def)

lemma tp_update_loop_grows: "tp_update_loop n ms i e = Some (e', fs) \<Longrightarrow> grows_within e e'"
proof (induction n arbitrary: e i fs)
  case (Suc n)
  then show ?case
    by (auto split: if_splits bind_splits dest!: tp_update_session_grows)
      (blast intro: grows_within_trans)+
qed (simp split: if_splits)

text \<open>Only the configuration of the limit itself can leave more sessions than the limit.\<close>

definition within_capacity :: "nat \<Rightarrow> tp_engine \<Rightarrow> bool" where
  "within_capacity n e \<longleftrightarrow> tp_inv e \<and> tp_max_sessions e = n \<and> length (tp_sessions e) \<le> n"

definition is_configure :: "tp_input \<Rightarrow> bool" where
  "is_configure i = (case i of TpConfigure bytes n retries pkts \<Rightarrow> True | _ \<Rightarrow> False)"

lemma tp_step_grows:
  assumes "tp_step i e = Some (e', out)" and "\<not> is_configure i"
  shows "grows_within e e'"
proof (cases i)
  case (TpSend p data src dest port prio)
  then show ?thesis
    using assms(1) tp_send_grows [of e p data src dest port prio]
    by (auto simp: tp_step_def split: prod.splits sum.splits)
next
  case (TpFrame f port)
  then show ?thesis using assms(1) tp_process_frame_grows by (simp add: tp_step_def)
next
  case (TpUpdate ms)
  then show ?thesis using assms(1) tp_update_loop_grows by (simp add: tp_step_def tp_update_def)
next
  case TpPending
  have "drain_sessions ss = Some (ss', fs) \<Longrightarrow> length ss' = length ss" for ss ss' fs
    by (induction ss arbitrary: ss' fs) (auto split: bind_splits)
  then show ?thesis
    using assms(1) TpPending
    by (auto simp: tp_step_def tp_get_pending_data_frames_def grows_within_def split: bind_splits)
qed (use assms in \<open>auto simp: tp_step_def is_configure_def grows_within_def
    tp_abort_sessions_for_address_def le_max_iff_disj tp_track_session_def tp_set_receiver_paused_def
    tp_reset_session_timer_def tp_set_session_state_def tp_update_sessions_def tp_clear_stats_def Let_def\<close>)

interpretation bounded: safe_system tp_step "within_capacity n"
  "\<lambda>i. tp_admissible i \<and> \<not> is_configure i" tp_frame_ok
  for n
proof unfold_locales
  fix e i assume e: "within_capacity n e" and i: "tp_admissible i \<and> \<not> is_configure i"
  then obtain e' out where "tp_step i e = Some (e', out)" "tp_inv e'" "\<forall>f \<in> set out. tp_frame_ok f"
    using tp_step_inv [of e i] by (auto simp: within_capacity_def)
  moreover have "grows_within e e'" using tp_step_grows [OF calculation(1)] i by simp
  ultimately show "\<exists>e' out. tp_step i e = Some (e', out) \<and> within_capacity n e' \<and> (\<forall>f \<in> set out. tp_frame_ok f)"
    using e by (auto simp: within_capacity_def grows_within_def)
qed

text \<open>C27: An engine created with room for \<open>n\<close> sessions never holds more than \<open>n\<close>, whatever
transfers are started and whatever frames arrive, as long as the limit itself is not changed.\<close>

theorem tp_table_bounded:
  assumes "\<forall>i \<in> set inputs. tp_admissible i \<and> \<not> is_configure i"
  shows "\<exists>e out. run_inputs tp_step inputs (tp_with_max_sessions n) = Some (e, out)
    \<and> length (tp_sessions e) \<le> n"
proof -
  have "within_capacity n (tp_with_max_sessions n)"
    by (simp add: within_capacity_def tp_with_max_sessions_def tp_set_max_sessions_def tp_inv_def tp_new_def)
  from bounded.run_safe [OF this assms] show ?thesis by (auto simp: within_capacity_def)
qed

theorem tp_table_bounded_witness:
  "\<exists>e out. run_inputs tp_step (sample_inputs @ sample_inputs) (tp_with_max_sessions 1) = Some (e, out)
    \<and> length (tp_sessions e) \<le> 1"
  by (rule tp_table_bounded)
    (auto simp: sample_inputs_def tp_admissible_def is_configure_def cm_frame_defs pgn_bytes_def)

end
