(* ===== verification/Window_Exchange.thy ===== *)
theory Window_Exchange
  imports Prelude
begin

text \<open>
  The shape of a windowed transfer between two parties, shared by the transport and the extended transport
  protocol: every round of the exchange moves a linked pair of sessions on by at least one packet, the last
  data round ends with an acknowledgement, and the round after it finishes the transfer.
\<close>

primrec iterate_rounds :: "('st \<Rightarrow> 'st option) \<Rightarrow> nat \<Rightarrow> 'st \<Rightarrow> 'st option" where
  "iterate_rounds r 0 st = Some st"
| "iterate_rounds r (Suc n) st = Option.bind (r st) (iterate_rounds r n)"

locale windowed_link =
  fixes one_round :: "'st \<Rightarrow> 'st option"
    and packets :: nat
    and at_packet :: "nat \<Rightarrow> 'st \<Rightarrow> bool"
    and acked :: "'st \<Rightarrow> bool"
    and finished :: "'st \<Rightarrow> bool"
  assumes round_moves: "at_packet k st \<Longrightarrow> k < packets \<and> (\<exists>st' m. one_round st = Some st' \<and> k < m
      \<and> (if m = packets then acked st' else at_packet m st'))"
    and round_finishes: "acked st \<Longrightarrow> \<exists>st'. one_round st = Some st' \<and> finished st'"
    and finished_stays: "finished st \<Longrightarrow> one_round st = Some st"
begin

lemma rounds_idle: "finished st \<Longrightarrow> iterate_rounds one_round n st = Some st"
  by (induction n) (simp_all add: finished_stays)

lemma rounds_acked: "acked st \<Longrightarrow> \<exists>st'. iterate_rounds one_round (Suc n) st = Some st' \<and> finished st'"
  using round_finishes [of st] rounds_idle by auto

lemma rounds_complete:
  "at_packet k st \<Longrightarrow> packets - k \<le> n \<Longrightarrow> \<exists>st'. iterate_rounds one_round (Suc n) st = Some st' \<and> finished st'"
proof (induction n arbitrary: k st)
  case 0
  then show ?case using round_moves [OF 0(1)] by simp
next
  case (Suc n)
  obtain st' m where m: "one_round st = Some st'" "k < m" "if m = packets then acked st' else at_packet m st'"
    using round_moves [OF Suc.prems(1)] by blast
  have "iterate_rounds one_round (Suc (Suc n)) st = iterate_rounds one_round (Suc n) st'" using m(1) by simp
  then show ?case
    using m(2,3) Suc.prems(2) Suc.IH [of m st'] rounds_acked [of st' n] by (cases "m = packets") auto
qed

end

end
