(* ===== verification/TP_Transfer.thy ===== *)
theory TP_Transfer
  imports TP_Safety Window_Exchange
begin

text \<open>
  Whole transfers: a sending and a receiving engine exchange frames over a link that loses nothing
  and keeps the order.  A connection-mode transfer (RTS, then windows of data granted by CTS, then the
  acknowledgement) and a broadcast (BAM, then one packet per tick) both deliver exactly the payload.
\<close>

section \<open>Transfers and their sessions\<close>

record transfer =
  x_src :: address
  x_dst :: address
  x_port :: u8
  x_pgn :: pgn
  x_data :: bytes

definition valid_transfer :: "transfer \<Rightarrow> bool" where
  "valid_transfer x \<longleftrightarrow> pgn_is_valid (x_pgn x) \<and> valid_tp_source (x_src x)
     \<and> valid_tp_destination (x_dst x) \<and> 9 \<le> length (x_data x) \<and> length (x_data x) \<le> 1785"

definition x_packets :: "transfer \<Rightarrow> nat" where
  "x_packets x = packet_count (length (x_data x))"

definition x_dt :: "transfer \<Rightarrow> nat \<Rightarrow> frame" where
  "x_dt x k = dt_frame (x_src x) (x_dst x) (x_data x) k"

definition session_of :: "transfer \<Rightarrow> transport_direction \<Rightarrow> transport_session \<Rightarrow> bool" where
  "session_of x d s \<longleftrightarrow> ts_direction s = d \<and> ts_source s = x_src x \<and> ts_destination s = x_dst x
     \<and> ts_can_port s = x_port x \<and> ts_pgn s = x_pgn x \<and> unat (ts_total_bytes s) = length (x_data x)"

text \<open>A sender that has sent, and a receiver that has stored, the first \<open>k\<close> packets.\<close>

definition tx_at :: "transfer \<Rightarrow> nat \<Rightarrow> transport_session \<Rightarrow> bool" where
  "tx_at x k s \<longleftrightarrow> wf_session s \<and> session_of x Transmit s \<and> ts_data s = x_data x
     \<and> unat (ts_last_sequence s) = k \<and> unat (ts_max_packets_per_cts s) = 16"

definition rx_at :: "transfer \<Rightarrow> nat \<Rightarrow> transport_session \<Rightarrow> bool" where
  "rx_at x k s \<longleftrightarrow> wf_session s \<and> session_of x Receive s
     \<and> ts_data s = partial_copy 0xFF (x_data x) (7 * k) \<and> unat (ts_last_sequence s) = k
     \<and> unat (ts_cts_window_size s) \<le> 16"

definition deliver :: "u8 \<Rightarrow> frame list \<Rightarrow> tp_engine \<Rightarrow> tp_result option" where
  "deliver port fs e = run_inputs tp_step (map (\<lambda>f. TpFrame f port) fs) e"

lemma deliver_simps [simp]:
  "deliver port [] e = Some (e, [])"
  "deliver port (f # fs) e = do {
     (e1, out1) \<leftarrow> tp_process_frame e f port;
     (e2, out2) \<leftarrow> deliver port fs e1;
     Some (e2, out1 @ out2)
   }"
  by (simp_all add: deliver_def tp_step_def)

lemma events_simps [simp]:
  "tp_on_complete (put_session i s e) = tp_on_complete e" "tp_on_abort (put_session i s e) = tp_on_abort e"
  "tp_on_complete (push_session s e) = tp_on_complete e" "tp_on_abort (push_session s e) = tp_on_abort e"
  "tp_on_complete (emit_complete s e) = tp_on_complete e @ [s]"
  "tp_on_abort (emit_complete s e) = tp_on_abort e"
  by (simp_all add: put_session_def push_session_def emit_complete_def event_emit_def)

section \<open>The receiver\<close>

lemma session_of_rx [simp]:
  "session_of x d (rx_advance k b s) = session_of x d s" "session_of x d (regrant k b s) = session_of x d s"
  by (simp_all add: session_of_def regrant_def)

lemma rx_data_step:
  assumes "rx_at x k s" and "k < x_packets x"
  shows "ts_data (rx_advance (Suc k) (fr_data (x_dt x (Suc k))) s) = partial_copy 0xFF (x_data x) (7 * Suc k)"
proof -
  have "7 * k < length (x_data x)" using assms(2) packet_count_less by (simp add: x_packets_def)
  then have "copied_in 1 (7 * k) (length (x_data x)) 7 (fr_data (x_dt x (Suc k)))
      (partial_copy 0xFF (x_data x) (7 * k)) = partial_copy 0xFF (x_data x) (7 * k + 7)"
    unfolding x_dt_def dt_frame_def by (simp add: copied_in_out)
  then show ?thesis
    using assms(1) by (simp add: rx_advance_def rx_at_def add.commute)
qed

lemma x_dt_wire [simp]:
  "frame_pgn (x_dt x k) = PGN_TP_DT" "frame_source (x_dt x k) = x_src x"
  "frame_destination (x_dt x k) = x_dst x" "fr_length (x_dt x k) = 8" "wf_frame (x_dt x k)"
  "fr_data (x_dt x k) ! 0 = of_nat k"
  by (simp_all add: x_dt_def)

lemma rx_at_packets: "rx_at x k s \<Longrightarrow> session_packets s = x_packets x"
  by (simp add: rx_at_def session_packets_def x_packets_def)

lemma x_packets_u8: "valid_transfer x \<Longrightarrow> x_packets x \<le> 255"
  by (simp add: valid_transfer_def x_packets_def packet_count_u8)

lemma process_dt_next:
  assumes "valid_transfer x" and "tp_sessions e = [s]" and "rx_at x k s" and "k < x_packets x"
  shows "tp_process_frame e (x_dt x (Suc k)) (x_port x) =
    (if Suc k = x_packets x then finish_receive 0 (rx_advance (Suc k) (fr_data (x_dt x (Suc k))) s) e
     else if session_is_broadcast s
     then Some (put_session 0 (rx_advance (Suc k) (fr_data (x_dt x (Suc k))) s) e, [])
     else next_window 0 (of_nat (Suc k)) (rx_advance (Suc k) (fr_data (x_dt x (Suc k))) s) e)"
proof -
  have wf: "wf_session s" and so: "session_of x Receive s" and ls: "unat (ts_last_sequence s) = k"
    using assms(3) by (simp_all add: rx_at_def)
  have seq: "unat (of_nat (Suc k) :: u8) = Suc k"
    using assms(4) x_packets_u8 [OF assms(1)] by (simp add: unat_of_nat del: of_nat_Suc)
  then have z: "of_nat (Suc k) \<noteq> (0 :: u8)" by (metis nat.distinct(1) unat_0)
  have st: "ts_state s = WaitingForData \<or> ts_state s = ReceivingData"
    using wf so by (auto simp: wf_session_def session_of_def rx_ok_def Let_def split: if_splits)
  have "session_position (dt_matches (frame_source (x_dt x (Suc k))) (frame_destination (x_dt x (Suc k)))
      (x_port x)) e = Some 0"
    using assms(2) so st by (simp add: session_position_def dt_matches_def session_of_def)
  from handle_dt_cases [OF this] have "handle_dt e (x_dt x (Suc k)) (x_port x) =
    (if Suc k = x_packets x then finish_receive 0 (rx_advance (Suc k) (fr_data (x_dt x (Suc k))) s) e
     else if session_is_broadcast s
     then Some (put_session 0 (rx_advance (Suc k) (fr_data (x_dt x (Suc k))) s) e, [])
     else next_window 0 (of_nat (Suc k)) (rx_advance (Suc k) (fr_data (x_dt x (Suc k))) s) e)"
    using assms(2) wf ls seq z rx_at_packets [OF assms(3)]
    by (cases "Suc k = x_packets x") (simp_all del: of_nat_Suc)
  moreover have "tp_process_frame e (x_dt x (Suc k)) (x_port x) = handle_dt e (x_dt x (Suc k)) (x_port x)"
    using assms(1)
    by (simp add: tp_process_frame_def valid_transfer_def limit_consts tp_pgns_differ [symmetric])
  ultimately show ?thesis by (simp only:)
qed

definition completes :: "transfer \<Rightarrow> transport_direction \<Rightarrow> tp_engine \<Rightarrow> tp_engine \<Rightarrow> bool" where
  "completes x d e e' \<longleftrightarrow> tp_sessions e' = [] \<and> tp_on_abort e' = tp_on_abort e
     \<and> (\<exists>s. tp_on_complete e' = tp_on_complete e @ [s] \<and> session_of x d s \<and> ts_data s = x_data x
            \<and> ts_state s = SessionComplete)"

definition goes_on :: "tp_engine \<Rightarrow> tp_engine \<Rightarrow> transport_session \<Rightarrow> bool" where
  "goes_on e e' s \<longleftrightarrow> tp_sessions e' = [s] \<and> tp_on_abort e' = tp_on_abort e
     \<and> tp_on_complete e' = tp_on_complete e"

lemma goes_on_trans:
  "goes_on e e1 s \<Longrightarrow> goes_on e1 e' s' \<Longrightarrow> goes_on e e' s'"
  "goes_on e e1 s \<Longrightarrow> completes x d e1 e' \<Longrightarrow> completes x d e e'"
  by (auto simp: goes_on_def completes_def)

lemma goes_on_put [simp]: "tp_sessions e = [s] \<Longrightarrow> goes_on e (put_session 0 s' e) s'"
  by (simp add: goes_on_def)

definition x_eoma :: "transfer \<Rightarrow> frame" where
  "x_eoma x = make_eoma (x_dst x) (x_src x) (of_nat (length (x_data x))) (of_nat (x_packets x)) (x_pgn x)"

definition x_cts :: "transfer \<Rightarrow> u8 \<Rightarrow> nat \<Rightarrow> frame" where
  "x_cts x n k = make_cts (x_dst x) (x_src x) n (of_nat (Suc k)) (x_pgn x)"

lemma finish_receive_eq:
  assumes "valid_transfer x" and "tp_sessions e = [s]" and "rx_at x k s" and "Suc k = x_packets x"
  shows "\<exists>e'. finish_receive 0 (rx_advance (Suc k) (fr_data (x_dt x (Suc k))) s) e =
      Some (e', if session_is_broadcast s then [] else [x_eoma x]) \<and> completes x Receive e e'"
proof -
  let ?r = "rx_advance (Suc k) (fr_data (x_dt x (Suc k))) s"
  have so: "session_of x Receive s" and len: "length (ts_data s) = length (x_data x)"
    using assms(3) by (simp_all add: rx_at_def)
  have "length (x_data x) \<le> 7 * Suc k"
    using packet_count_le [of "length (x_data x)" "Suc k"] assms(4) by (simp add: x_packets_def)
  then have data: "ts_data ?r = x_data x" using rx_data_step [OF assms(3)] assms(4) by simp
  have "unat (total_packets s) = x_packets x"
    using so by (simp add: unat_total_packets_count session_of_def x_packets_def)
  then have "ucast (total_packets s) = (of_nat (x_packets x) :: u8)"
    by (metis of_nat_unat)
  then have "make_eoma (ts_destination s) (ts_source s) (ts_total_bytes s) (ucast (total_packets s)) (ts_pgn s)
      = x_eoma x"
    using so by (simp add: x_eoma_def session_of_def) (metis of_nat_unat_word)
  moreover have "session_of x Receive (?r\<lparr>ts_state := SessionComplete\<rparr>)"
    using so by (simp add: session_of_def)
  ultimately show ?thesis
    using assms(2) data
    by (auto simp: finish_receive_def Let_def remove_session_Some completes_def total_packets_def
        put_session_def emit_complete_def event_emit_def)
qed

lemma rx_at_next:
  assumes "valid_transfer x" and "x_dst x \<noteq> BROADCAST_ADDRESS" and "rx_at x k s" and "Suc k < x_packets x"
  shows "window_open (Suc k) s \<Longrightarrow> rx_at x (Suc k) (rx_advance (Suc k) (fr_data (x_dt x (Suc k))) s)"
    and "rx_at x (Suc k) (regrant (Suc k) (fr_data (x_dt x (Suc k))) s)"
    and "ts_cts_window_start (regrant (Suc k) d s) = of_nat (Suc (Suc k))"
proof -
  let ?d = "fr_data (x_dt x (Suc k))"
  have s: "wf_session s" "session_of x Receive s" "unat (ts_last_sequence s) = k"
    "unat (ts_cts_window_size s) \<le> 16" using assms(3) by (simp_all add: rx_at_def)
  have "unat (ts_max_packets_per_cts s) \<le> 16" using s(1) by (simp add: wf_session_def session_common_def)
  then have size: "unat (ts_cts_window_size (regrant (Suc k) ?d s)) \<le> 16"
    by (simp add: regrant_def unat_of_nat min_le_iff_disj)
  have "\<not> session_is_broadcast s" "ts_direction s = Receive"
    using s(2) assms(2) by (simp_all add: session_is_broadcast_def session_of_def)
  note wf = rx_advance_window_wf [OF s(1) this(2,1), of "Suc k" ?d]
  have data: "ts_data (rx_advance (Suc k) ?d s) = partial_copy 0xFF (x_data x) (7 * Suc k)"
    using rx_data_step [OF assms(3)] assms(4) by simp
  have ls: "unat (of_nat (Suc k) :: u8) = Suc k"
    using assms(4) x_packets_u8 [OF assms(1)] by (simp add: unat_of_nat del: of_nat_Suc)
  show "window_open (Suc k) s \<Longrightarrow> rx_at x (Suc k) (rx_advance (Suc k) ?d s)"
    using wf(1) s assms(4) rx_at_packets [OF assms(3)] data ls by (simp add: rx_at_def del: of_nat_Suc)
  show "rx_at x (Suc k) (regrant (Suc k) ?d s)"
    using wf(2) s assms(4) rx_at_packets [OF assms(3)] data ls size
    unfolding rx_at_def session_of_rx by (simp add: regrant_def del: of_nat_Suc)
  show "ts_cts_window_start (regrant (Suc k) d s) = of_nat (Suc (Suc k))"
    by (simp add: regrant_def)
qed

text \<open>One data frame in a connection-mode transfer that is not the last.\<close>

lemma process_dt_more:
  assumes "valid_transfer x" and "x_dst x \<noteq> BROADCAST_ADDRESS" and "tp_sessions e = [s]"
    and "rx_at x k s" and "Suc k < x_packets x"
  defines "d \<equiv> fr_data (x_dt x (Suc k))"
  shows "tp_process_frame e (x_dt x (Suc k)) (x_port x) =
    (if window_open (Suc k) s then Some (put_session 0 (rx_advance (Suc k) d s) e, [])
     else Some (put_session 0 (regrant (Suc k) d s) e,
       [x_cts x (ts_cts_window_size (regrant (Suc k) d s)) (Suc k)]))"
proof -
  have s: "wf_session s" "session_of x Receive s" "unat (ts_last_sequence s) = k"
    using assms(4) by (simp_all add: rx_at_def)
  have rx: "\<not> session_is_broadcast s" "ts_direction s = Receive"
    using s(2) assms(2) by (simp_all add: session_is_broadcast_def session_of_def)
  have ls: "unat (of_nat (Suc k) :: u8) = Suc k"
    using assms(5) x_packets_u8 [OF assms(1)] by (simp add: unat_of_nat del: of_nat_Suc)
  show ?thesis
    using process_dt_next [OF assms(1,3,4)] assms(5) rx s rx_at_packets [OF assms(4)]
      next_window_eq [OF s(1) rx(2,1), of "of_nat (Suc k)" 0 d e] ls
    by (simp add: x_cts_def session_of_def d_def del: of_nat_Suc)
qed

text \<open>
  All frames of a window: the receiver stores them, and answers the last one with the next grant or,
  at the end of the payload, with the acknowledgement.
\<close>

lemma deliver_window:
  assumes "valid_transfer x" and "x_dst x \<noteq> BROADCAST_ADDRESS"
    and "tp_sessions e = [s]" and "rx_at x k s"
    and "unat (ts_cts_window_start s) + unat (ts_cts_window_size s) = k + 2 + w"
  shows "\<exists>e'. if k + Suc w = x_packets x
    then deliver (x_port x) (map (x_dt x) [Suc k..<Suc (k + Suc w)]) e = Some (e', [x_eoma x])
      \<and> completes x Receive e e'
    else \<exists>s'. deliver (x_port x) (map (x_dt x) [Suc k..<Suc (k + Suc w)]) e =
          Some (e', [x_cts x (ts_cts_window_size s') (k + Suc w)])
      \<and> goes_on e e' s' \<and> rx_at x (k + Suc w) s' \<and> unat (ts_cts_window_start s') = Suc (k + Suc w)"
  using assms(3-5)
proof (induction w arbitrary: k s e)
  case 0
  have s: "wf_session s" "session_of x Receive s" "unat (ts_last_sequence s) = k"
    using 0 by (simp_all add: rx_at_def)
  have rx: "\<not> session_is_broadcast s" "ts_direction s = Receive"
    using s(2) assms(2) by (simp_all add: session_is_broadcast_def session_of_def)
  have lt: "k < x_packets x" using rx_position(2) [OF s(1) rx(2)] s(3) rx_at_packets [OF 0(2)] by simp
  show ?case
  proof (cases "Suc k = x_packets x")
    case True
    then show ?thesis
      using process_dt_next [OF assms(1) 0(1,2) lt] finish_receive_eq [OF assms(1) 0(1,2) True] rx by auto
  next
    case False
    then have more: "Suc k < x_packets x" using lt by simp
    have "\<not> window_open (Suc k) s" using 0(3) by (simp add: window_open_def)
    moreover have "unat (of_nat (Suc (Suc k)) :: u8) = Suc (Suc k)"
      using more x_packets_u8 [OF assms(1)] by (simp add: unat_of_nat del: of_nat_Suc)
    ultimately show ?thesis
      using False process_dt_more [OF assms(1,2) 0(1,2) more] rx_at_next [OF assms(1,2) 0(2) more] 0(1)
      by (auto simp del: of_nat_Suc intro!: exI [of _ "regrant (Suc k) (fr_data (x_dt x (Suc k))) s"])
  qed
next
  case (Suc w)
  have s: "wf_session s" "session_of x Receive s" "unat (ts_last_sequence s) = k"
    using Suc.prems by (simp_all add: rx_at_def)
  have rx: "\<not> session_is_broadcast s" "ts_direction s = Receive"
    using s(2) assms(2) by (simp_all add: session_is_broadcast_def session_of_def)
  let ?d = "fr_data (x_dt x (Suc k))"
  have more: "Suc k < x_packets x"
    using rx_window(5) [OF s(1) rx(2,1)] Suc.prems(3) rx_at_packets [OF Suc.prems(2)] by simp
  have op: "window_open (Suc k) s" using Suc.prems(3) by (simp add: window_open_def)
  let ?e1 = "put_session 0 (rx_advance (Suc k) ?d s) e"
  have step: "tp_process_frame e (x_dt x (Suc k)) (x_port x) = Some (?e1, [])"
    using process_dt_more [OF assms(1,2) Suc.prems(1,2) more] op by simp
  have go: "goes_on e ?e1 (rx_advance (Suc k) ?d s)" using Suc.prems(1) by simp
  have frames: "map (x_dt x) [Suc k..<Suc (k + Suc (Suc w))] =
      x_dt x (Suc k) # map (x_dt x) [Suc (Suc k)..<Suc (Suc k + Suc w)]"
    by (simp add: upt_rec_map del: upt_Suc)
  have ih: "\<exists>e'. if Suc k + Suc w = x_packets x
    then deliver (x_port x) (map (x_dt x) [Suc (Suc k)..<Suc (Suc k + Suc w)]) ?e1 = Some (e', [x_eoma x])
      \<and> completes x Receive ?e1 e'
    else \<exists>s'. deliver (x_port x) (map (x_dt x) [Suc (Suc k)..<Suc (Suc k + Suc w)]) ?e1 =
          Some (e', [x_cts x (ts_cts_window_size s') (Suc k + Suc w)])
      \<and> goes_on ?e1 e' s' \<and> rx_at x (Suc k + Suc w) s'
      \<and> unat (ts_cts_window_start s') = Suc (Suc k + Suc w)"
    using Suc.prems rx_at_next(1) [OF assms(1,2) Suc.prems(2) more op]
    by (intro Suc.IH [of ?e1 "rx_advance (Suc k) ?d s"]) simp_all
  have "Suc k + Suc w = k + Suc (Suc w)" by simp
  then show ?case
    using ih unfolding frames deliver_simps step
    by (auto simp del: upt_Suc split: if_splits dest: goes_on_trans [OF go])
qed

section \<open>The sender\<close>

lemma process_cm:
  assumes "valid_transfer x" and "length hd4 = 4" and "c = tp_cm_BAM \<or> dst \<noteq> BROADCAST_ADDRESS"
    and "valid_tp_source src" and "valid_tp_destination dst"
  defines "f \<equiv> frame8 (id_encode Lowest PGN_TP_CM src dst) (c # hd4 @ pgn_bytes (x_pgn x))"
  shows "tp_process_frame e f port =
    (if c = tp_cm_RTS then handle_rts e f port (x_pgn x)
     else if c = tp_cm_CTS then handle_cts e f port (x_pgn x)
     else if c = tp_cm_EOMA then handle_eoma e f port (x_pgn x)
     else if c = tp_cm_BAM then handle_bam e f port (x_pgn x)
     else if c = tp_cm_ABORT then handle_abort e f port (x_pgn x)
     else Some (note_dropped_frame e, []))"
proof -
  have "pgn_from_cm_bytes ((c # hd4) @ pgn_bytes (x_pgn x)) = x_pgn x"
    using assms(1,2) by (intro pgn_bytes_roundtrip) (simp_all add: valid_transfer_def)
  then have f: "pgn_from_cm_bytes (fr_data f) = x_pgn x" "fr_data f ! 0 = c" "frame_pgn f = PGN_TP_CM"
    "frame_source f = src" "frame_destination f = dst" "fr_length f = 8"
    by (simp_all add: f_def tp_frame_wire)
  have "tp_process_frame e f port = handle_cm e f port"
    using assms(4,5) f by (simp add: tp_process_frame_def limit_consts)
  also have "\<dots> = (if c = tp_cm_RTS then handle_rts e f port (x_pgn x)
     else if c = tp_cm_CTS then handle_cts e f port (x_pgn x)
     else if c = tp_cm_EOMA then handle_eoma e f port (x_pgn x)
     else if c = tp_cm_BAM then handle_bam e f port (x_pgn x)
     else if c = tp_cm_ABORT then handle_abort e f port (x_pgn x)
     else Some (note_dropped_frame e, []))"
    using assms(1,3) unfolding handle_cm_def Let_def f by (auto simp: valid_transfer_def)
  finally show ?thesis .
qed

lemma tx_at_packets: "tx_at x k s \<Longrightarrow> session_packets s = x_packets x"
  by (simp add: tx_at_def session_packets_def x_packets_def)

lemma process_cts_grant:
  assumes "valid_transfer x" and "x_dst x \<noteq> BROADCAST_ADDRESS" and "tp_sessions e = [s]"
    and "tx_at x k s" and "ts_state s = WaitingForCTS" and "valid_tp_source (x_dst x)"
    and w: "1 \<le> unat w" "unat w \<le> 16" "k + unat w \<le> x_packets x"
  shows "\<exists>s'. tp_process_frame e (x_cts x w k) (x_port x) = Some (put_session 0 s' e, [])
    \<and> tx_at x k s' \<and> ts_state s' = SendingData \<and> ts_packets_to_send s' = w"
proof -
  have s: "wf_session s" "session_of x Transmit s" "ts_data s = x_data x" "unat (ts_last_sequence s) = k"
    "unat (ts_max_packets_per_cts s) = 16" using assms(4) by (simp_all add: tx_at_def)
  have nb: "\<not> session_is_broadcast s" "ts_direction s = Transmit"
    using s(2) assms(2) by (simp_all add: session_is_broadcast_def session_of_def)
  have com: "session_common s" using s(1) by (simp add: wf_session_def)
  define q :: u8 where "q = of_nat (Suc k)"
  have q: "unat q = Suc k" using w x_packets_u8 [OF assms(1)] by (simp add: q_def unat_of_nat del: of_nat_Suc)
  then have q0: "q \<noteq> 0" "w \<noteq> 0" using w by auto
  have qn: "unat q \<le> session_packets s" using q w tx_at_packets [OF assms(4)] by simp
  have le: "\<not> total_packets s < ucast q"
    using qn by (simp add: word_less_nat_alt not_less total_packets_session [OF com])
  have "unat (cts_window s w q) = unat w"
    using w q s(5) tx_at_packets [OF assms(4)] unfolding unat_cts_window [OF com q0(1) qn] by simp
  then have win: "cts_window s w q = w" by (simp add: word_unat_eq_iff)
  have "unat (ts_bytes_transferred s) = 7 * k"
    using s(1,3,4) nb w packet_count_less [of k "length (x_data x)"]
    by (auto simp: wf_session_def tx_ok_def tx_position_def Let_def x_packets_def)
  moreover have "k \<le> 255" using q unat_u8_less [of q] by simp
  ultimately have "unat (div_ceil (ts_bytes_transferred s) TP_BYTES_PER_FRAME) = k"
    by (subst unat_div_ceil) (simp_all add: limit_consts)
  then have retry: "\<not> ucast q - 1 < div_ceil (ts_bytes_transferred s) TP_BYTES_PER_FRAME"
    using q unat_seq_pred32 [OF q0(1)] by (simp add: word_less_nat_alt)
  let ?s' = "s\<lparr>ts_retransmit_count := 0, ts_state := SendingData, ts_packets_to_send := w,
      ts_bytes_transferred := (ucast q - 1) * 7, ts_last_sequence := q - 1, ts_timer_ms := 0\<rparr>"
  have win0: "cts_window (s\<lparr>ts_retransmit_count := 0\<rparr>) w q = w"
    using win by (simp add: cts_window_def total_packets_def)
  have app: "apply_cts (tp_max_retransmits e) w q s = (?s', None)"
    using assms(5) q0 le retry win0 by (simp add: apply_cts_def Let_def)
  have "wf_session ?s'" using cts_grant_wf [OF s(1) nb(2,1) q0(2,1) qn, of 0] win by simp
  then have "tx_at x k ?s'"
    using s q unat_seq_pred [OF q0(1)] by (simp add: tx_at_def session_of_def)
  moreover have "handle_cts e (x_cts x w k) (x_port x) (x_pgn x) = Some (put_session 0 ?s' e, [])"
    using assms(3,5) s(2) app
    by (simp add: handle_cts_def x_cts_def make_cts_def tp_frame_wire cts_matches_def session_of_def Let_def
        flip: q_def del: of_nat_Suc)
  moreover have "tp_process_frame e (x_cts x w k) (x_port x) = handle_cts e (x_cts x w k) (x_port x) (x_pgn x)"
    using process_cm [OF assms(1), of "[w, q, 0xFF, 0xFF]" tp_cm_CTS "x_src x" "x_dst x" e "x_port x"] assms(1,6)
    by (simp add: x_cts_def make_cts_def tp_cm_consts valid_transfer_def valid_tp_source_def
        valid_tp_destination_def flip: q_def del: of_nat_Suc)
  ultimately show ?thesis by (intro exI [of _ ?s']) simp
qed

lemma pending_window:
  assumes "tp_sessions e = [s]" and "tx_at x k s" and "x_dst x \<noteq> BROADCAST_ADDRESS"
    and "ts_state s = SendingData" and "k + unat (ts_packets_to_send s) = m"
  shows "\<exists>e' s'. tp_get_pending_data_frames e = Some (e', map (x_dt x) [Suc k..<Suc m])
    \<and> goes_on e e' s' \<and> tx_at x m s'
    \<and> ts_state s' = (if m = x_packets x then WaitingForEndOfMsg else WaitingForCTS)"
proof -
  have s: "wf_session s" "session_of x Transmit s" "ts_data s = x_data x" "unat (ts_last_sequence s) = k"
    "unat (ts_max_packets_per_cts s) = 16" using assms(2) by (simp_all add: tx_at_def)
  have tx: "is_cmdt_tx s" "ts_source s = x_src x" "ts_destination s = x_dst x"
    using s(2) assms(3,4) by (simp_all add: is_cmdt_tx_def session_is_broadcast_def session_of_def)
  have m: "unat (of_nat m :: u8) = m"
    using s(1,4) tx(1) assms(5) session_packets_u8 [of s]
    by (auto simp: wf_session_def is_cmdt_tx_def tx_ok_def Let_def unat_of_nat)
  have d: "drained_session s = ((tx_advance m s)\<lparr>ts_state := (if m = x_packets x then WaitingForEndOfMsg
      else WaitingForCTS), ts_timer_ms := 0\<rparr>, map (x_dt x) [Suc k..<Suc m])"
    using tx s(3,4) assms(5) tx_at_packets [OF assms(2)]
    by (simp add: drained_session_def x_dt_def [abs_def] del: upt_Suc)
  have "tx_at x m (fst (drained_session s))"
    using drain_session_eq [OF s(1)] s m unfolding d
    by (simp add: tx_at_def session_of_def) (simp add: tx_advance_def)
  then show ?thesis
    using assms(1) drain_session_eq [OF s(1)] d
    by (auto simp: tp_get_pending_data_frames_def goes_on_def simp del: upt_Suc)
qed

lemma process_eoma:
  assumes "valid_transfer x" and "valid_tp_source (x_dst x)" and "tp_sessions e = [s]"
    and "tx_at x k s" and "ts_state s = WaitingForEndOfMsg"
  shows "\<exists>e'. tp_process_frame e (x_eoma x) (x_port x) = Some (e', []) \<and> completes x Transmit e e'"
proof -
  have s: "session_of x Transmit s" "ts_data s = x_data x" using assms(4) by (simp_all add: tx_at_def)
  have tot: "ts_total_bytes s = of_nat (length (x_data x))"
    using s(1) by (simp add: session_of_def) (metis of_nat_unat_word)
  have "unat (total_packets s) = x_packets x"
    using s(1) by (simp add: unat_total_packets_count session_of_def x_packets_def)
  then have n: "ucast (total_packets s) = (of_nat (x_packets x) :: u8)" by (metis of_nat_unat)
  have size: "cm_size_bytes (fr_data (x_eoma x)) = of_nat (length (x_data x))"
    using assms(1) size_bytes_roundtrip [of "of_nat (length (x_data x))" tp_cm_EOMA]
    by (simp add: x_eoma_def make_eoma_def valid_transfer_def unat_of_nat)
  have pk: "fr_data (x_eoma x) ! 3 = of_nat (x_packets x)" by (simp add: x_eoma_def make_eoma_def)
  have wire: "frame_source (x_eoma x) = x_dst x" "frame_destination (x_eoma x) = x_src x"
    by (simp_all add: x_eoma_def make_eoma_def tp_frame_wire)
  have "tp_process_frame e (x_eoma x) (x_port x) = handle_eoma e (x_eoma x) (x_port x) (x_pgn x)"
    using process_cm [OF assms(1), of "[low_byte (of_nat (length (x_data x))),
        low_byte (drop_bit 8 (of_nat (length (x_data x)))), of_nat (x_packets x), 0xFF]" tp_cm_EOMA
        "x_src x" "x_dst x" e "x_port x"] assms(1,2)
    by (simp add: x_eoma_def make_eoma_def tp_cm_consts valid_transfer_def valid_tp_source_def
        valid_tp_destination_def)
  moreover have "\<exists>e'. handle_eoma e (x_eoma x) (x_port x) (x_pgn x) = Some (e', []) \<and> completes x Transmit e e'"
    using assms(3,5) s tot n size pk wire
    by (simp add: handle_eoma_def Let_def session_position_def session_of_def remove_session_Some completes_def)
  ultimately show ?thesis by simp
qed

section \<open>Opening a transfer\<close>

definition x_send :: "transfer \<Rightarrow> priority \<Rightarrow> tp_engine \<Rightarrow> tp_engine \<times> frame list net_result" where
  "x_send x prio e = tp_send e (x_pgn x) (x_data x) (x_src x) (x_dst x) (x_port x) prio"

lemma x_send_eq:
  assumes "valid_transfer x" and "tp_sessions e = []" and "0 < tp_max_sessions e"
  shows "\<exists>s. x_send x prio e =
      (push_session s e, Inr [if x_dst x = BROADCAST_ADDRESS then make_bam s else make_rts s])
    \<and> tx_at x 0 s \<and> ts_state s = (if x_dst x = BROADCAST_ADDRESS then SendingData else WaitingForCTS)
    \<and> ts_advertised_packets_per_cts s = tp_advertised_packets_per_cts e \<and> ts_timer_ms s = 0"
proof -
  let ?s = "session_default\<lparr>ts_direction := Transmit, ts_pgn := x_pgn x, ts_data := x_data x,
                  ts_total_bytes := of_nat (length (x_data x)), ts_source := x_src x,
                  ts_destination := x_dst x, ts_can_port := x_port x, ts_priority := prio,
                  ts_advertised_packets_per_cts := tp_advertised_packets_per_cts e,
                  ts_state := (if x_dst x = BROADCAST_ADDRESS then SendingData else WaitingForCTS)\<rparr>"
  have len: "length (x_data x) < 2 ^ 32" "unat (of_nat (length (x_data x)) :: u32) = length (x_data x)"
    using assms(1) by (simp_all add: valid_transfer_def unat_of_nat)
  have eq: "x_send x prio e =
      (push_session ?s e, Inr [if x_dst x = BROADCAST_ADDRESS then make_bam ?s else make_rts ?s])"
    using assms len by (simp add: x_send_def tp_send_def Let_def valid_transfer_def limit_consts
        word_less_nat_alt word_le_nat_alt)
  have "tp_inv e" using assms(2) by (simp add: tp_inv_def)
  from tp_send_inv [OF this len(1) eq [unfolded x_send_def]] have "wf_session ?s"
    using assms(2) by (simp add: tp_inv_def sessions_ok_def)
  then have "tx_at x 0 ?s"
    using len(2) by (simp add: tx_at_def session_of_def session_default_def limit_consts)
  then show ?thesis using eq by (intro exI [of _ ?s]) (simp add: session_default_def)
qed

lemma x_shape:
  assumes "valid_transfer x"
  shows "valid_tp_payload_shape (of_nat (length (x_data x))) (of_nat (x_packets x))"
    and "ucast (div_ceil (of_nat (length (x_data x))) TP_BYTES_PER_FRAME :: u32) = (of_nat (x_packets x) :: u8)"
    and "of_nat (x_packets x) \<noteq> (0 :: u8)" and "unat (of_nat (x_packets x) :: u8) = x_packets x"
proof -
  have len: "9 \<le> length (x_data x)" "length (x_data x) \<le> 1785"
    "unat (of_nat (length (x_data x)) :: u32) = length (x_data x)"
    using assms by (simp_all add: valid_transfer_def unat_of_nat)
  show n: "unat (of_nat (x_packets x) :: u8) = x_packets x"
    using x_packets_u8 [OF assms] by (simp add: unat_of_nat)
  have pos: "0 < x_packets x" using len(1) by (auto simp: x_packets_def packet_count_def)
  then show z: "of_nat (x_packets x) \<noteq> (0 :: u8)" using n by (metis less_not_refl unat_0)
  have dc: "unat (div_ceil (of_nat (length (x_data x))) TP_BYTES_PER_FRAME :: u32) = x_packets x"
    using len by (subst unat_div_ceil) (simp_all add: limit_consts x_packets_def packet_count_def)
  then show "ucast (div_ceil (of_nat (length (x_data x))) TP_BYTES_PER_FRAME :: u32) = (of_nat (x_packets x) :: u8)"
    by (metis of_nat_unat)
  have "unat (ucast (of_nat (x_packets x) :: u8) :: u32) = x_packets x" using n by (simp only: unat_ucast_u8_u32)
  then have "ucast (of_nat (x_packets x) :: u8) = div_ceil (of_nat (length (x_data x))) TP_BYTES_PER_FRAME"
    using dc by (simp only: word_unat_eq_iff)
  then show "valid_tp_payload_shape (of_nat (length (x_data x))) (of_nat (x_packets x))"
    using z len
    by (simp only: valid_tp_payload_shape_def) (simp add: limit_consts word_less_nat_alt word_le_nat_alt)
qed

definition x_rts :: "transfer \<Rightarrow> u8 \<Rightarrow> frame" where
  "x_rts x adv = frame8 (id_encode Lowest PGN_TP_CM (x_src x) (x_dst x))
     (tp_cm_RTS # [low_byte (of_nat (length (x_data x))), low_byte (drop_bit 8 (of_nat (length (x_data x)))),
        of_nat (x_packets x), adv] @ pgn_bytes (x_pgn x))"

lemma x_rts_eq:
  assumes "valid_transfer x" and "session_of x Transmit s"
  shows "make_rts s = x_rts x (ts_advertised_packets_per_cts s)"
proof -
  have "ts_total_bytes s = of_nat (length (x_data x))"
    using assms(2) by (simp add: session_of_def) (metis of_nat_unat_word)
  then show ?thesis
    using assms(2) x_shape(2) [OF assms(1)]
    by (simp add: x_rts_def make_rts_def make_rts_fields_def session_of_def)
qed

lemma process_rts:
  assumes "valid_transfer x" and "x_dst x \<noteq> BROADCAST_ADDRESS" and "adv \<noteq> 0"
    and "tp_sessions e = []" and "0 < tp_max_sessions e" and "length (x_data x) \<le> unat (tp_max_receive_bytes e)"
  shows "\<exists>s. tp_process_frame e (x_rts x adv) (x_port x) =
      Some (push_session s e, [x_cts x (ts_cts_window_size s) 0])
    \<and> rx_at x 0 s \<and> ts_cts_window_start s = 1"
proof -
  let ?m = "of_nat (length (x_data x)) :: u32" and ?f = "x_rts x adv"
  let ?w = "min (of_nat (x_packets x)) (min adv (ucast TP_MAX_PACKETS_PER_CTS))"
  define s where "s = session_default\<lparr>ts_direction := Receive, ts_state := WaitingForData, ts_pgn := x_pgn x,
      ts_total_bytes := ?m, ts_source := x_src x, ts_destination := x_dst x,
      ts_can_port := x_port x, ts_priority := Lowest,
      ts_max_packets_per_cts := min adv (ucast TP_MAX_PACKETS_PER_CTS),
      ts_data := replicate (length (x_data x)) 0xFF, ts_cts_window_start := 1, ts_cts_window_size := ?w\<rparr>"
  have f: "frame_source ?f = x_src x" "frame_destination ?f = x_dst x" "frame_priority ?f = Lowest"
    "fr_data ?f ! 3 = of_nat (x_packets x)" "fr_data ?f ! 4 = adv" "wf_frame ?f"
    by (simp_all add: x_rts_def tp_frame_wire pgn_bytes_def)
  have m: "unat ?m = length (x_data x)" using assms(1) by (simp add: valid_transfer_def unat_of_nat)
  have size: "cm_size_bytes (fr_data ?f) = ?m"
    using assms(1) m size_bytes_roundtrip [of ?m tp_cm_RTS] by (simp add: x_rts_def valid_transfer_def)
  have rts: "tp_process_frame e ?f (x_port x) = handle_rts e ?f (x_port x) (x_pgn x)"
    unfolding x_rts_def using assms(1,2) by (subst process_cm) (simp_all add: valid_transfer_def)
  have "handle_rts e ?f (x_port x) (x_pgn x) = Some (push_session s e, [x_cts x ?w 0])"
    unfolding handle_rts_def Let_def f size
    using assms(3-6) x_shape(1) [OF assms(1)] m
    by (simp add: receive_session_for_def receive_path_is_active_def accept_rts_def f rx_buffer_def
        word_less_nat_alt s_def x_cts_def Let_def)
  moreover from this have "wf_session s"
    using tp_process_frame_safe [of e ?f "x_port x"] assms(4) f rts by (simp add: tp_inv_def sessions_ok_def)
  moreover from this have "rx_at x 0 s"
    using m by (simp add: rx_at_def s_def session_of_def session_default_def unat_min limit_consts)
  ultimately show ?thesis using rts by (intro exI [of _ s]) (simp add: s_def)
qed

section \<open>Connection-mode transfers\<close>

text \<open>
  One round of the exchange: the sender handles the frames addressed to it and hands over its pending
  data, the receiver handles all of it and answers.
\<close>

definition exchange_round ::
  "u8 \<Rightarrow> tp_engine \<times> tp_engine \<times> frame list \<Rightarrow> (tp_engine \<times> tp_engine \<times> frame list) option" where
  "exchange_round port st =
     (let (a, b, back) = st in do {
        (a1, out) \<leftarrow> deliver port back a;
        (a2, data) \<leftarrow> tp_get_pending_data_frames a1;
        (b1, back') \<leftarrow> deliver port (out @ data) b;
        Some (a2, b1, back')
      })"

definition exchange ::
  "u8 \<Rightarrow> nat \<Rightarrow> tp_engine \<times> tp_engine \<times> frame list \<Rightarrow> (tp_engine \<times> tp_engine \<times> frame list) option" where
  "exchange port = iterate_rounds (exchange_round port)"

definition linked ::
  "transfer \<Rightarrow> tp_engine \<Rightarrow> tp_engine \<Rightarrow> nat \<Rightarrow> tp_engine \<times> tp_engine \<times> frame list \<Rightarrow> bool" where
  "linked x a0 b0 k st \<longleftrightarrow> (\<exists>a b s r. st = (a, b, [x_cts x (ts_cts_window_size r) k])
     \<and> goes_on a0 a s \<and> tx_at x k s \<and> ts_state s = WaitingForCTS
     \<and> goes_on b0 b r \<and> rx_at x k r \<and> unat (ts_cts_window_start r) = Suc k)"

definition acknowledged ::
  "transfer \<Rightarrow> tp_engine \<Rightarrow> tp_engine \<Rightarrow> tp_engine \<times> tp_engine \<times> frame list \<Rightarrow> bool" where
  "acknowledged x a0 b0 st \<longleftrightarrow> (\<exists>a b s. st = (a, b, [x_eoma x])
     \<and> goes_on a0 a s \<and> tx_at x (x_packets x) s \<and> ts_state s = WaitingForEndOfMsg \<and> completes x Receive b0 b)"

lemma exchange_round_linked:
  assumes "valid_transfer x" and "x_dst x \<noteq> BROADCAST_ADDRESS" and "linked x a0 b0 k st"
  shows "k < x_packets x \<and> (\<exists>st' m. exchange_round (x_port x) st = Some st' \<and> k < m
    \<and> (if m = x_packets x then acknowledged x a0 b0 st' else linked x a0 b0 m st'))"
proof -
  obtain a b s r where st: "st = (a, b, [x_cts x (ts_cts_window_size r) k])"
    and a: "goes_on a0 a s" "tx_at x k s" "ts_state s = WaitingForCTS"
    and b: "goes_on b0 b r" "rx_at x k r" "unat (ts_cts_window_start r) = Suc k"
    using assms(3) by (auto simp: linked_def)
  have src: "valid_tp_source (x_dst x)"
    using assms(1,2) by (simp add: valid_transfer_def valid_tp_source_def valid_tp_destination_def)
  have r: "wf_session r" "ts_direction r = Receive" "\<not> session_is_broadcast r" "unat (ts_last_sequence r) = k"
    "unat (ts_cts_window_size r) \<le> 16"
    using b(2) assms(2) by (simp_all add: rx_at_def session_of_def session_is_broadcast_def)
  define w where "w = unat (ts_cts_window_size r) - 1"
  have w: "unat (ts_cts_window_size r) = Suc w" "k + Suc w \<le> x_packets x"
    using rx_window [OF r(1-3)] r(4) b(3) rx_at_packets [OF b(2)] by (simp_all add: w_def)
  have sa: "tp_sessions a = [s]" "tp_sessions b = [r]" using a(1) b(1) by (simp_all add: goes_on_def)
  obtain s1 where s1: "tp_process_frame a (x_cts x (ts_cts_window_size r) k) (x_port x)
      = Some (put_session 0 s1 a, [])" "tx_at x k s1" "ts_state s1 = SendingData"
      "ts_packets_to_send s1 = ts_cts_window_size r"
    using process_cts_grant [OF assms(1,2) sa(1) a(2,3) src, of "ts_cts_window_size r"] w r(5) by auto
  obtain a2 s2 where a2: "tp_get_pending_data_frames (put_session 0 s1 a) =
        Some (a2, map (x_dt x) [Suc k..<Suc (k + Suc w)])"
      "goes_on (put_session 0 s1 a) a2 s2" "tx_at x (k + Suc w) s2"
      "ts_state s2 = (if k + Suc w = x_packets x then WaitingForEndOfMsg else WaitingForCTS)"
    using pending_window [of "put_session 0 s1 a" s1 x k "k + Suc w"] sa(1) s1 assms(2) w by auto
  have "goes_on a (put_session 0 s1 a) s1" using sa(1) by simp
  then have ga: "goes_on a0 a2 s2" using a(1) a2(2) goes_on_trans(1) by blast
  have "unat (ts_cts_window_start r) + unat (ts_cts_window_size r) = k + 2 + w" using b(3) w by simp
  then obtain b1 where b1: "if k + Suc w = x_packets x
      then deliver (x_port x) (map (x_dt x) [Suc k..<Suc (k + Suc w)]) b = Some (b1, [x_eoma x])
        \<and> completes x Receive b b1
      else \<exists>r'. deliver (x_port x) (map (x_dt x) [Suc k..<Suc (k + Suc w)]) b =
            Some (b1, [x_cts x (ts_cts_window_size r') (k + Suc w)])
        \<and> goes_on b b1 r' \<and> rx_at x (k + Suc w) r' \<and> unat (ts_cts_window_start r') = Suc (k + Suc w)"
    using deliver_window [OF assms(1,2) sa(2) b(2)] by blast
  have round: "exchange_round (x_port x) st = map_option (\<lambda>(b1, back). (a2, b1, back))
      (deliver (x_port x) (map (x_dt x) [Suc k..<Suc (k + Suc w)]) b)"
    using st s1(1) a2(1)
    by (auto simp: exchange_round_def map_option_case simp del: upt_Suc split: bind_splits option.splits)
  show ?thesis
  proof (cases "k + Suc w = x_packets x")
    case True
    then have "acknowledged x a0 b0 (a2, b1, [x_eoma x])"
      using ga a2(3,4) b1 goes_on_trans(2) [OF b(1)] by (auto simp: acknowledged_def)
    then show ?thesis using True round b1 by (intro conjI exI [of _ "k + Suc w"]) (auto simp del: upt_Suc)
  next
    case False
    then obtain r' where r': "deliver (x_port x) (map (x_dt x) [Suc k..<Suc (k + Suc w)]) b =
            Some (b1, [x_cts x (ts_cts_window_size r') (k + Suc w)])"
        "goes_on b b1 r'" "rx_at x (k + Suc w) r'" "unat (ts_cts_window_start r') = Suc (k + Suc w)"
      using b1 by auto
    then have "linked x a0 b0 (k + Suc w) (a2, b1, [x_cts x (ts_cts_window_size r') (k + Suc w)])"
      using ga a2(3,4) False goes_on_trans(1) [OF b(1)] by (auto simp: linked_def)
    then show ?thesis
      using False round r'(1) w by (intro conjI exI [of _ "k + Suc w"]) (auto simp del: upt_Suc)
  qed
qed

definition delivered ::
  "transfer \<Rightarrow> tp_engine \<Rightarrow> tp_engine \<Rightarrow> tp_engine \<times> tp_engine \<times> frame list \<Rightarrow> bool" where
  "delivered x a0 b0 st \<longleftrightarrow> (\<exists>a b. st = (a, b, []) \<and> completes x Transmit a0 a \<and> completes x Receive b0 b)"

lemma exchange_round_acknowledged:
  assumes "valid_transfer x" and "x_dst x \<noteq> BROADCAST_ADDRESS" and "acknowledged x a0 b0 st"
  shows "\<exists>st'. exchange_round (x_port x) st = Some st' \<and> delivered x a0 b0 st'"
proof -
  obtain a b s where st: "st = (a, b, [x_eoma x])" "goes_on a0 a s" "tx_at x (x_packets x) s"
    "ts_state s = WaitingForEndOfMsg" "completes x Receive b0 b"
    using assms(3) by (auto simp: acknowledged_def)
  have src: "valid_tp_source (x_dst x)"
    using assms(1,2) by (simp add: valid_transfer_def valid_tp_source_def valid_tp_destination_def)
  have "tp_sessions a = [s]" using st(2) by (simp add: goes_on_def)
  then obtain a1 where a1: "tp_process_frame a (x_eoma x) (x_port x) = Some (a1, [])" "completes x Transmit a a1"
    using process_eoma [OF assms(1) src] st(3,4) by blast
  then have "exchange_round (x_port x) st = Some (a1, b, [])"
    using st(1) by (simp add: exchange_round_def tp_get_pending_data_frames_def completes_def)
  then show ?thesis using goes_on_trans(2) [OF st(2) a1(2)] st(5) by (simp add: delivered_def)
qed

lemma exchange_round_delivered: "delivered x a0 b0 st \<Longrightarrow> exchange_round port st = Some st"
  by (auto simp: delivered_def completes_def exchange_round_def tp_get_pending_data_frames_def)

text \<open>The link of two engines is an instance of the windowed exchange.\<close>

definition cmdt_ok :: "transfer \<Rightarrow> bool" where
  "cmdt_ok x \<longleftrightarrow> valid_transfer x \<and> x_dst x \<noteq> BROADCAST_ADDRESS"

interpretation tp_link: windowed_link "exchange_round (x_port x)" "x_packets x"
  "\<lambda>k st. cmdt_ok x \<and> linked x a0 b0 k st" "\<lambda>st. cmdt_ok x \<and> acknowledged x a0 b0 st" "delivered x a0 b0"
  for x a0 b0
proof unfold_locales
  fix k st
  assume "cmdt_ok x \<and> linked x a0 b0 k st"
  then show "k < x_packets x \<and> (\<exists>st' m. exchange_round (x_port x) st = Some st' \<and> k < m
      \<and> (if m = x_packets x then cmdt_ok x \<and> acknowledged x a0 b0 st' else cmdt_ok x \<and> linked x a0 b0 m st'))"
    unfolding cmdt_ok_def using exchange_round_linked [of x a0 b0 k st] by metis
qed (use exchange_round_acknowledged exchange_round_delivered in \<open>auto simp: cmdt_ok_def\<close>)

lemma unat_1_u8: "w = 1 \<Longrightarrow> unat (w :: u8) = Suc 0"
  by simp

definition cmdt_transfer ::
  "transfer \<Rightarrow> priority \<Rightarrow> tp_engine \<Rightarrow> tp_engine \<Rightarrow> (tp_engine \<times> tp_engine \<times> frame list) option" where
  "cmdt_transfer x prio a b =
     (case x_send x prio a of
        (a1, Inr frames) \<Rightarrow> do {
          (b1, back) \<leftarrow> deliver (x_port x) frames b;
          exchange (x_port x) (x_packets x + 1) (a1, b1, back)
        }
      | (_, Inl _) \<Rightarrow> None)"

text \<open>C1: A connection-mode transfer delivers its payload.  For every payload of 9 to 1785 bytes
between two valid addresses, a sender and a receiver with idle engines and enough room, over a link
that loses nothing, complete the transfer: the receiver's completion event carries exactly the
payload, PGN and addresses of the sender, the sender completes as well, no abort is reported, and both
tables are empty again.  The number of rounds (one per granted window and one for the
acknowledgement) is at most one more than the number of packets.\<close>

theorem cmdt_delivers:
  assumes "valid_transfer x" and "x_dst x \<noteq> BROADCAST_ADDRESS"
    and "tp_sessions a = []" and "0 < tp_max_sessions a" and "tp_advertised_packets_per_cts a \<noteq> 0"
    and "tp_sessions b = []" and "0 < tp_max_sessions b"
    and "length (x_data x) \<le> unat (tp_max_receive_bytes b)"
  shows "\<exists>a' b' s r. cmdt_transfer x prio a b = Some (a', b', [])
    \<and> tp_sessions a' = [] \<and> tp_sessions b' = []
    \<and> tp_on_abort a' = tp_on_abort a \<and> tp_on_abort b' = tp_on_abort b
    \<and> tp_on_complete a' = tp_on_complete a @ [s] \<and> tp_on_complete b' = tp_on_complete b @ [r]
    \<and> session_of x Transmit s \<and> ts_data s = x_data x
    \<and> session_of x Receive r \<and> ts_data r = x_data x"
proof -
  obtain s where s: "x_send x prio a = (push_session s a, Inr [make_rts s])" "tx_at x 0 s"
    "ts_state s = WaitingForCTS" "ts_advertised_packets_per_cts s = tp_advertised_packets_per_cts a"
    using x_send_eq [OF assms(1,3,4), of prio] assms(2) by auto
  have rts: "make_rts s = x_rts x (tp_advertised_packets_per_cts a)"
    using x_rts_eq [OF assms(1), of s] s(2,4) by (simp add: tx_at_def)
  obtain r where r: "tp_process_frame b (make_rts s) (x_port x) =
      Some (push_session r b, [x_cts x (ts_cts_window_size r) 0])" "rx_at x 0 r" "ts_cts_window_start r = 1"
    using process_rts [OF assms(1,2,5-8)] rts by auto
  have "goes_on a (push_session s a) s" "goes_on b (push_session r b) r"
    using assms(3,6) by (simp_all add: goes_on_def)
  then have "linked x a b 0 (push_session s a, push_session r b, [x_cts x (ts_cts_window_size r) 0])"
    unfolding linked_def using s(2,3) r(2) unat_1_u8 [OF r(3)] by blast
  with assms(1,2) have "cmdt_ok x \<and> linked x a b 0 (push_session s a, push_session r b, [x_cts x (ts_cts_window_size r) 0])"
    by (simp add: cmdt_ok_def)
  from tp_link.rounds_complete [OF this, of "x_packets x"]
  obtain a' b' where "cmdt_transfer x prio a b = Some (a', b', [])"
    "completes x Transmit a a'" "completes x Receive b b'"
    using s(1) r(1) by (auto simp: cmdt_transfer_def delivered_def exchange_def)
  then show ?thesis by (auto simp: completes_def)
qed

definition sample_transfer :: transfer where
  "sample_transfer = \<lparr>x_src = 0x20, x_dst = 0x30, x_port = 0, x_pgn = 0xFECA,
     x_data = map of_nat [0..<200]\<rparr>"

theorem cmdt_delivers_witness:
  "\<exists>a' b' s r. cmdt_transfer sample_transfer Default tp_new tp_new = Some (a', b', [])
    \<and> tp_sessions a' = [] \<and> tp_sessions b' = []
    \<and> tp_on_abort a' = tp_on_abort tp_new \<and> tp_on_abort b' = tp_on_abort tp_new
    \<and> tp_on_complete a' = tp_on_complete tp_new @ [s] \<and> tp_on_complete b' = tp_on_complete tp_new @ [r]
    \<and> session_of sample_transfer Transmit s \<and> ts_data s = x_data sample_transfer
    \<and> session_of sample_transfer Receive r \<and> ts_data r = x_data sample_transfer"
  by (rule cmdt_delivers)
    (simp_all add: sample_transfer_def valid_transfer_def valid_tp_source_def valid_tp_destination_def
      address_consts pgn_is_valid_def tp_new_def limit_consts TP_DEFAULT_MAX_SESSIONS_def)

end
