(* ===== verification/TP_Broadcast.thy ===== *)
theory TP_Broadcast
  imports TP_Transfer
begin

text \<open>
  Broadcasts: the sender announces the payload with a BAM and its \<open>update\<close> sends one packet per tick;
  a receiver that sees every frame assembles exactly the payload.  Two unfinished broadcasts of one
  node share a data path, and then neither arrives.
\<close>

section \<open>One tick of the sender\<close>

lemma bam_tx_tick:
  assumes "valid_transfer x" and "x_dst x = BROADCAST_ADDRESS" and "tp_sessions e = [s]" and "tx_at x k s"
    and "TP_BAM_INTER_PACKET_MS \<le> ms"
  shows "k < x_packets x" and "\<exists>e'. tp_update e ms = Some (e', [x_dt x (Suc k)])
    \<and> (if Suc k = x_packets x then completes x Transmit e e' else \<exists>s'. goes_on e e' s' \<and> tx_at x (Suc k) s')"
proof -
  have s: "wf_session s" "session_of x Transmit s" "ts_data s = x_data x" "unat (ts_last_sequence s) = k"
    "unat (ts_max_packets_per_cts s) = 16" using assms(4) by (simp_all add: tx_at_def)
  have bam: "is_bam_tx s" "ts_source s = x_src x" "ts_destination s = x_dst x"
    using s(1,2) assms(2)
    by (auto simp: wf_session_def tx_ok_def Let_def session_of_def session_is_broadcast_def is_bam_tx_def)
  let ?z = "s\<lparr>ts_timer_ms := 0\<rparr>"
  note pos = is_bam_tx_wf [OF s(1) bam(1)]
  show lt: "k < x_packets x" using pos(2) s(4) tx_at_packets [OF assms(4)] by simp
  have posz: "tx_position ?z k" using pos(1) s(4) by (simp add: tx_position_def)
  have gen: "generate_data_frames 1 ?z = Some (tx_advance (Suc k) ?z, [x_dt x (Suc k)])"
    using generate_data_frames_eq [OF posz, of 1] lt s(3) bam
    by (simp add: min_def x_packets_def x_dt_def)
  have adv: "tx_position (tx_advance (Suc k) ?z) (Suc k)"
    using posz lt s(3) by (intro tx_position_advance) (simp_all add: tx_position_def x_packets_def)
  have fin: "ts_total_bytes (tx_advance (Suc k) ?z) \<le> ts_bytes_transferred (tx_advance (Suc k) ?z)
      \<longleftrightarrow> Suc k = x_packets x"
    using tx_position_done [OF adv] s(3) by (simp add: x_packets_def)
  have "\<not> tp_timed_out (tx_advance (Suc k) ?z)" using bam(1) by (simp add: tp_timed_out_def is_bam_tx_def)
  moreover have due: "TP_BAM_INTER_PACKET_MS \<le> saturating_add (ts_timer_ms s) ms"
    using assms(5) saturating_add_ge_right by (rule order_trans)
  moreover have "session_of x Transmit (tx_advance (Suc k) ?z)"
    "session_of x Transmit ((tx_advance (Suc k) ?z)\<lparr>ts_state := SessionComplete\<rparr>)"
    using s(2) by (simp_all add: session_of_def)
  moreover have "tx_at x (Suc k) (tx_advance (Suc k) ?z)" if "Suc k \<noteq> x_packets x"
    using tx_advance_broadcast_wf(1) [of ?z "Suc k"] bam(1) s that lt adv calculation(3) tx_at_packets [OF assms(4)]
    by (simp add: tx_at_def tx_position_def)
  ultimately show "\<exists>e'. tp_update e ms = Some (e', [x_dt x (Suc k)])
    \<and> (if Suc k = x_packets x then completes x Transmit e e' else \<exists>s'. goes_on e e' s' \<and> tx_at x (Suc k) s')"
    using assms(3) bam(1) gen fin s(3)
    by (auto simp: tp_update_def tp_update_session_def check_session_timeout_def Let_def remove_session_Some
        completes_def goes_on_def emit_complete_def event_emit_def)
qed

section \<open>The receiver\<close>

lemma bam_rx_tick:
  assumes "x_dst x = BROADCAST_ADDRESS" and "tp_sessions e = [s]" and "rx_at x k s" and "ts_timer_ms s = 0"
    and "ms < TP_TIMEOUT_T1_MS"
  shows "\<exists>e' s'. tp_update e ms = Some (e', []) \<and> goes_on e e' s' \<and> rx_at x k s'"
proof -
  let ?s = "s\<lparr>ts_timer_ms := saturating_add (ts_timer_ms s) ms\<rparr>"
  have s: "wf_session s" "session_of x Receive s" using assms(3) by (simp_all add: rx_at_def)
  then have st: "ts_state s = ReceivingData" "ts_direction s = Receive"
    using assms(1) by (auto simp: wf_session_def rx_ok_def Let_def session_of_def session_is_broadcast_def)
  have "saturating_add (ts_timer_ms s) ms = ms"
    using assms(4) unat_bound [of ms] by (simp add: saturating_add_def)
  then have "\<not> tp_timed_out ?s" using st assms(5) by (simp add: tp_timed_out_def)
  moreover have "\<not> is_bam_tx ?s" using st by (simp add: is_bam_tx_def)
  moreover have "rx_at x k ?s" using assms(3) by (simp add: rx_at_def session_of_def)
  ultimately show ?thesis
    using assms(2)
    by (intro exI [of _ "put_session 0 ?s e"] exI [of _ ?s])
      (simp add: tp_update_def tp_update_session_def check_session_timeout_def Let_def)
qed

lemma rx_at_broadcast_next:
  assumes "valid_transfer x" and "x_dst x = BROADCAST_ADDRESS" and "rx_at x k s" and "Suc k < x_packets x"
  shows "rx_at x (Suc k) (rx_advance (Suc k) (fr_data (x_dt x (Suc k))) s)"
proof -
  have s: "wf_session s" "session_of x Receive s" "ts_direction s = Receive" "session_is_broadcast s"
    "unat (ts_cts_window_size s) \<le> 16"
    using assms(2,3) by (simp_all add: rx_at_def session_of_def session_is_broadcast_def)
  have seq: "unat (of_nat (Suc k) :: u8) = Suc k"
    using assms(4) x_packets_u8 [OF assms(1)] by (simp add: unat_of_nat del: of_nat_Suc)
  have "wf_session (rx_advance (Suc k) (fr_data (x_dt x (Suc k))) s)"
    using s assms(4) rx_at_packets [OF assms(3)] by (intro rx_advance_broadcast_wf) simp_all
  then show ?thesis
    using s seq rx_data_step [OF assms(3)] assms(4) by (simp add: rx_at_def del: of_nat_Suc)
qed

lemma bam_rx_frame:
  assumes "valid_transfer x" and "x_dst x = BROADCAST_ADDRESS" and "tp_sessions e = [s]" and "rx_at x k s"
    and "k < x_packets x"
  shows "\<exists>e'. tp_process_frame e (x_dt x (Suc k)) (x_port x) = Some (e', [])
    \<and> (if Suc k = x_packets x then completes x Receive e e'
        else \<exists>s'. goes_on e e' s' \<and> rx_at x (Suc k) s' \<and> ts_timer_ms s' = 0)"
proof -
  let ?r = "rx_advance (Suc k) (fr_data (x_dt x (Suc k))) s"
  have "session_is_broadcast s"
    using assms(2,4) by (simp add: rx_at_def session_of_def session_is_broadcast_def)
  then show ?thesis
    using process_dt_next [OF assms(1,3-5)] finish_receive_eq [OF assms(1,3,4)] assms(3,5)
      rx_at_broadcast_next [OF assms(1,2,4)]
    by (cases "Suc k = x_packets x") (auto intro!: exI [of _ ?r])
qed

definition x_bam :: "transfer \<Rightarrow> frame" where
  "x_bam x = frame8 (id_encode Lowest PGN_TP_CM (x_src x) BROADCAST_ADDRESS)
     (tp_cm_BAM # [low_byte (of_nat (length (x_data x))), low_byte (drop_bit 8 (of_nat (length (x_data x)))),
        of_nat (x_packets x), 0xFF] @ pgn_bytes (x_pgn x))"

lemma x_bam_eq:
  assumes "valid_transfer x" and "session_of x Transmit s"
  shows "make_bam s = x_bam x"
proof -
  have "ts_total_bytes s = of_nat (length (x_data x))"
    using assms(2) by (simp add: session_of_def) (metis of_nat_unat_word)
  then show ?thesis
    using assms(2) x_shape(2) [OF assms(1)]
    by (simp add: x_bam_def make_bam_def make_bam_fields_def session_of_def)
qed

definition bam_session :: "transfer \<Rightarrow> transport_session" where
  "bam_session x = session_default\<lparr>ts_direction := Receive, ts_state := ReceivingData, ts_pgn := x_pgn x,
     ts_total_bytes := of_nat (length (x_data x)), ts_source := x_src x,
     ts_destination := BROADCAST_ADDRESS, ts_can_port := x_port x, ts_priority := Lowest,
     ts_data := replicate (length (x_data x)) 0xFF\<rparr>"

lemma bam_session_rx_at:
  assumes "valid_transfer x" and "x_dst x = BROADCAST_ADDRESS"
  shows "rx_at x 0 (bam_session x)" and "ts_timer_ms (bam_session x) = 0"
proof -
  have "unat (of_nat (length (x_data x)) :: u32) = length (x_data x)"
    using assms(1) by (simp add: valid_transfer_def unat_of_nat)
  moreover have "2 \<le> packet_count (length (x_data x))"
    using assms(1) by (auto simp: valid_transfer_def packet_count_def)
  ultimately show "rx_at x 0 (bam_session x)"
    using assms
    by (simp add: rx_at_def bam_session_def session_of_def session_default_def wf_session_def
        session_common_def rx_ok_def session_packets_def session_is_broadcast_def limit_consts
        valid_transfer_def)
  show "ts_timer_ms (bam_session x) = 0" by (simp add: bam_session_def session_default_def)
qed

text \<open>A BAM opens a receive session beside those that are already in the table.\<close>

lemma process_bam:
  assumes "valid_transfer x" and "x_dst x = BROADCAST_ADDRESS"
    and "receive_session_for e (x_src x) BROADCAST_ADDRESS (x_port x) (x_pgn x) = None"
    and "length (tp_sessions e) < tp_max_sessions e" and "length (x_data x) \<le> unat (tp_max_receive_bytes e)"
  shows "tp_process_frame e (x_bam x) (x_port x) = Some (push_session (bam_session x) e, [])"
proof -
  let ?m = "of_nat (length (x_data x)) :: u32" and ?f = "x_bam x"
  have f: "frame_source ?f = x_src x" "frame_destination ?f = BROADCAST_ADDRESS" "frame_priority ?f = Lowest"
    "fr_data ?f ! 3 = of_nat (x_packets x)" "frame_is_broadcast ?f"
    by (simp_all add: x_bam_def tp_frame_wire frame_is_broadcast_def id_is_broadcast_def flip: frame_destination_def)
  have m: "unat ?m = length (x_data x)" using assms(1) by (simp add: valid_transfer_def unat_of_nat)
  have size: "cm_size_bytes (fr_data ?f) = ?m"
    using assms(1) m size_bytes_roundtrip [of ?m tp_cm_BAM] by (simp add: x_bam_def valid_transfer_def)
  have "tp_process_frame e ?f (x_port x) = handle_bam e ?f (x_port x) (x_pgn x)"
    unfolding x_bam_def using assms(1,2)
    by (subst process_cm) (simp_all add: valid_transfer_def tp_cm_consts)
  moreover have "handle_bam e ?f (x_port x) (x_pgn x) = Some (push_session (bam_session x) e, [])"
    using assms(3-5) x_shape(1) [OF assms(1)] m f size
    by (simp add: handle_bam_def accept_bam_def rx_buffer_def word_less_nat_alt bam_session_def Let_def)
  ultimately show ?thesis by simp
qed

section \<open>A whole broadcast\<close>

text \<open>Each tick lets the same time pass on both sides and delivers what the sender sent.\<close>

primrec bam_ticks :: "u8 \<Rightarrow> u32 list \<Rightarrow> tp_engine \<times> tp_engine \<Rightarrow> (tp_engine \<times> tp_engine) option" where
  "bam_ticks port [] st = Some st"
| "bam_ticks port (ms # mss) st = (let (a, b) = st in do {
     (a1, frames) \<leftarrow> tp_update a ms;
     (b1, _) \<leftarrow> tp_update b ms;
     (b2, _) \<leftarrow> deliver port frames b1;
     bam_ticks port mss (a1, b2)
   })"

lemma bam_ticks_deliver:
  assumes "valid_transfer x" and "x_dst x = BROADCAST_ADDRESS"
    and "goes_on a0 a s" and "tx_at x k s" and "goes_on b0 b r" and "rx_at x k r" and "ts_timer_ms r = 0"
    and "\<forall>ms \<in> set mss. TP_BAM_INTER_PACKET_MS \<le> ms \<and> ms < TP_TIMEOUT_T1_MS"
    and "k + length mss = x_packets x"
  shows "\<exists>a' b'. bam_ticks (x_port x) mss (a, b) = Some (a', b')
    \<and> completes x Transmit a0 a' \<and> completes x Receive b0 b'"
  using assms(3-9)
proof (induction mss arbitrary: k a b s r)
  case Nil
  have "tp_sessions a = [s]" using Nil(1) by (simp add: goes_on_def)
  from bam_tx_tick(1) [OF assms(1,2) this Nil(2) order_refl] show ?case using Nil(7) by simp
next
  case (Cons ms mss)
  have sa: "tp_sessions a = [s]" "tp_sessions b = [r]" using Cons.prems(1,3) by (simp_all add: goes_on_def)
  have ms: "TP_BAM_INTER_PACKET_MS \<le> ms" "ms < TP_TIMEOUT_T1_MS" using Cons.prems(6) by simp_all
  note lt = bam_tx_tick(1) [OF assms(1,2) sa(1) Cons.prems(2) ms(1)]
  obtain a1 where a1: "tp_update a ms = Some (a1, [x_dt x (Suc k)])"
    "if Suc k = x_packets x then completes x Transmit a a1 else \<exists>s'. goes_on a a1 s' \<and> tx_at x (Suc k) s'"
    using bam_tx_tick(2) [OF assms(1,2) sa(1) Cons.prems(2) ms(1)] by blast
  obtain b1 r1 where b1: "tp_update b ms = Some (b1, [])" "goes_on b b1 r1" "rx_at x k r1"
    using bam_rx_tick [OF assms(2) sa(2) Cons.prems(4,5) ms(2)] by blast
  have "tp_sessions b1 = [r1]" using b1(2) by (simp add: goes_on_def)
  then obtain b2 where b2: "tp_process_frame b1 (x_dt x (Suc k)) (x_port x) = Some (b2, [])"
    "if Suc k = x_packets x then completes x Receive b1 b2
     else \<exists>s'. goes_on b1 b2 s' \<and> rx_at x (Suc k) s' \<and> ts_timer_ms s' = 0"
    using bam_rx_frame [OF assms(1,2) _ b1(3) lt] by blast
  have step: "bam_ticks (x_port x) (ms # mss) (a, b) = bam_ticks (x_port x) mss (a1, b2)"
    using a1(1) b1(1) b2(1) by simp
  note gb = goes_on_trans(1) [OF Cons.prems(3) b1(2)]
  show ?case
  proof (cases "Suc k = x_packets x")
    case True
    moreover have "Suc k + length mss = x_packets x" using Cons.prems(7) by simp
    ultimately have "mss = []" by (metis add_eq_self_zero length_0_conv)
    then show ?thesis
      using \<open>Suc k = x_packets x\<close> step a1(2) b2(2) goes_on_trans(2) [OF Cons.prems(1)] goes_on_trans(2) [OF gb] by simp
  next
    case False
    then obtain s' r' where "goes_on a a1 s'" "tx_at x (Suc k) s'" "goes_on b1 b2 r'" "rx_at x (Suc k) r'"
      "ts_timer_ms r' = 0" using a1(2) b2(2) by auto
    then show ?thesis
      using step Cons.IH [of a1 s' "Suc k" b2 r'] goes_on_trans(1) [OF Cons.prems(1)] goes_on_trans(1) [OF gb]
        Cons.prems(6,7) by simp
  qed
qed

definition bam_transfer ::
  "transfer \<Rightarrow> priority \<Rightarrow> u32 list \<Rightarrow> tp_engine \<Rightarrow> tp_engine \<Rightarrow> (tp_engine \<times> tp_engine) option" where
  "bam_transfer x prio mss a b =
     (case x_send x prio a of
        (a1, Inr frames) \<Rightarrow> do {
          (b1, _) \<leftarrow> deliver (x_port x) frames b;
          bam_ticks (x_port x) mss (a1, b1)
        }
      | (_, Inl _) \<Rightarrow> None)"

text \<open>C12: A broadcast delivers its payload.  With idle engines and enough room, when the engines are
updated at intervals of at least the 50 ms packet spacing and less than the 750 ms receive timeout, as
many updates as the payload has packets send the whole payload; the receiver's completion event carries
exactly the payload, and both tables are empty again.\<close>

theorem bam_delivers:
  assumes "valid_transfer x" and "x_dst x = BROADCAST_ADDRESS"
    and "tp_sessions a = []" and "0 < tp_max_sessions a"
    and "tp_sessions b = []" and "0 < tp_max_sessions b"
    and "length (x_data x) \<le> unat (tp_max_receive_bytes b)"
    and "\<forall>ms \<in> set mss. TP_BAM_INTER_PACKET_MS \<le> ms \<and> ms < TP_TIMEOUT_T1_MS"
    and "length mss = x_packets x"
  shows "\<exists>a' b' s r. bam_transfer x prio mss a b = Some (a', b')
    \<and> tp_sessions a' = [] \<and> tp_sessions b' = []
    \<and> tp_on_abort a' = tp_on_abort a \<and> tp_on_abort b' = tp_on_abort b
    \<and> tp_on_complete a' = tp_on_complete a @ [s] \<and> tp_on_complete b' = tp_on_complete b @ [r]
    \<and> session_of x Transmit s \<and> ts_data s = x_data x
    \<and> session_of x Receive r \<and> ts_data r = x_data x"
proof -
  obtain s where s: "x_send x prio a = (push_session s a, Inr [make_bam s])" "tx_at x 0 s"
    using x_send_eq [OF assms(1,3,4), of prio] assms(2) by auto
  have bam: "make_bam s = x_bam x" using x_bam_eq [OF assms(1)] s(2) by (simp add: tx_at_def)
  have r: "tp_process_frame b (make_bam s) (x_port x) = Some (push_session (bam_session x) b, [])"
    using process_bam [OF assms(1,2), of b] assms(5-7) by (simp add: bam receive_session_for_def)
  have "goes_on a (push_session s a) s" "goes_on b (push_session (bam_session x) b) (bam_session x)"
    using assms(3,5) by (simp_all add: goes_on_def)
  from bam_ticks_deliver [OF assms(1,2) this(1) s(2) this(2) bam_session_rx_at [OF assms(1,2)] assms(8)]
  obtain a' b' where "bam_transfer x prio mss a b = Some (a', b')"
    "completes x Transmit a a'" "completes x Receive b b'"
    using s(1) r assms(9) by (auto simp: bam_transfer_def)
  then show ?thesis by (auto simp: completes_def)
qed

theorem bam_delivers_witness:
  "\<exists>a' b' s r. bam_transfer (sample_transfer\<lparr>x_dst := 0xFF\<rparr>) Default (replicate 29 100) tp_new tp_new = Some (a', b')
    \<and> tp_sessions a' = [] \<and> tp_sessions b' = []
    \<and> tp_on_abort a' = tp_on_abort tp_new \<and> tp_on_abort b' = tp_on_abort tp_new
    \<and> tp_on_complete a' = tp_on_complete tp_new @ [s] \<and> tp_on_complete b' = tp_on_complete tp_new @ [r]
    \<and> session_of (sample_transfer\<lparr>x_dst := 0xFF\<rparr>) Transmit s \<and> ts_data s = x_data (sample_transfer\<lparr>x_dst := 0xFF\<rparr>)
    \<and> session_of (sample_transfer\<lparr>x_dst := 0xFF\<rparr>) Receive r \<and> ts_data r = x_data (sample_transfer\<lparr>x_dst := 0xFF\<rparr>)"
  by (rule bam_delivers)
    (simp_all add: sample_transfer_def valid_transfer_def valid_tp_source_def valid_tp_destination_def
      address_consts pgn_is_valid_def tp_new_def limit_consts TP_DEFAULT_MAX_SESSIONS_def x_packets_def
      packet_count_def TP_BAM_INTER_PACKET_MS_def TP_TIMEOUT_T1_MS_def)

section \<open>Two broadcasts of one node\<close>

lemma abort_receive_broadcast:
  assumes "i < length (tp_sessions e)" and "session_is_broadcast (tp_sessions e ! i)"
  shows "\<exists>e'. abort_receive i reason e = Some (e', [])
    \<and> tp_sessions e' = butlast ((tp_sessions e)[i := last (tp_sessions e)])
    \<and> tp_on_complete e' = tp_on_complete e \<and> length (tp_on_abort e') = Suc (length (tp_on_abort e))"
  using assms
  by (simp add: abort_receive_def Let_def remove_session_Some swap_remove_update put_session_def emit_abort_def
      event_emit_def note_defs)

lemma process_dt_bad:
  assumes "valid_transfer y" and "x_dst y = BROADCAST_ADDRESS" and "wf_session s" and "tp_sessions e = s # ss"
    and "dt_matches (x_src y) BROADCAST_ADDRESS (x_port y) s"
    and "unat (of_nat m :: u8) = m" and "0 < m" and "m \<noteq> Suc (unat (ts_last_sequence s))"
  shows "\<exists>e'. tp_process_frame e (x_dt y m) (x_port y) = Some (e', [])
    \<and> tp_sessions e' = butlast ((s # ss)[0 := last (s # ss)])
    \<and> tp_on_complete e' = tp_on_complete e \<and> length (tp_on_abort e') = Suc (length (tp_on_abort e))"
proof -
  have pos: "session_position (dt_matches (frame_source (x_dt y m)) (frame_destination (x_dt y m)) (x_port y)) e
      = Some 0"
    using assms(2,4,5) by (simp add: session_position_def)
  have bc: "session_is_broadcast s" using assms(5) by (simp add: dt_matches_def session_is_broadcast_def)
  have "(of_nat m :: u8) \<noteq> 0" using assms(6,7) by (metis less_not_refl unat_0)
  then have "\<exists>reason. handle_dt e (x_dt y m) (x_port y) = abort_receive 0 reason e"
    using handle_dt_cases [OF pos] assms(3,4,6-8) by auto
  moreover have "tp_process_frame e (x_dt y m) (x_port y) = handle_dt e (x_dt y m) (x_port y)"
    using assms(1) by (simp add: tp_process_frame_def valid_transfer_def limit_consts tp_pgns_differ [symmetric])
  ultimately show ?thesis using abort_receive_broadcast [of 0 e] assms(4) bc by auto
qed

lemma deliver_dt_idle:
  assumes "valid_transfer y" and "tp_sessions e = []"
  shows "\<exists>e'. deliver (x_port y) (map (x_dt y) ks) e = Some (e', []) \<and> tp_sessions e' = []
    \<and> tp_on_complete e' = tp_on_complete e \<and> tp_on_abort e' = tp_on_abort e"
  using assms(2)
proof (induction ks arbitrary: e)
  case (Cons k ks)
  let ?e1 = "note_dropped_frame e"
  have "tp_process_frame e (x_dt y k) (x_port y) = Some (?e1, [])"
    using assms(1) Cons.prems
    by (simp add: tp_process_frame_def handle_dt_def session_position_def valid_transfer_def limit_consts
        tp_pgns_differ [symmetric])
  then show ?case using Cons.IH [of ?e1] Cons.prems by (auto simp: note_defs)
qed simp


definition first_broadcast :: transfer where
  "first_broadcast = \<lparr>x_src = 0x20, x_dst = 0xFF, x_port = 0, x_pgn = 0xFECA, x_data = replicate 30 0x11\<rparr>"

definition second_broadcast :: transfer where
  "second_broadcast = \<lparr>x_src = 0x20, x_dst = 0xFF, x_port = 0, x_pgn = 0xFEE6, x_data = replicate 20 0x22\<rparr>"

definition broadcast_begun :: tp_engine where
  "broadcast_begun = tp_new\<lparr>tp_sessions := [rx_advance 1 (fr_data (x_dt first_broadcast 1)) (bam_session first_broadcast)]\<rparr>"


end
