(* ===== verification/Fixed_Storage.thy ===== *)
theory Fixed_Storage
  imports Can_Frame
begin

text \<open>
  The fixed-capacity containers of the allocation-free profile (\<open>fixed.rs\<close>): the ring-buffer queue,
  the packed slot table, the byte buffer, the message envelope over it, and the buffer pool.  Each is
  shown to behave as the list it stands for.  The const generic \<open>N\<close> is the length of the array.
\<close>

section \<open>The queue\<close>

record 'a fixed_queue =
  fq_buf :: "'a option list"
  fq_head :: nat
  fq_len :: nat

definition fq_new :: "nat \<Rightarrow> 'a fixed_queue" where
  "fq_new n = \<lparr>fq_buf = replicate n None, fq_head = 0, fq_len = 0\<rparr>"

definition fq_capacity :: "'a fixed_queue \<Rightarrow> nat" where
  "fq_capacity q = length (fq_buf q)"

definition fq_is_empty :: "'a fixed_queue \<Rightarrow> bool" where
  "fq_is_empty q = (fq_len q = 0)"

definition fq_is_full :: "'a fixed_queue \<Rightarrow> bool" where
  "fq_is_full q = (fq_len q = fq_capacity q)"

definition fq_advance :: "'a fixed_queue \<Rightarrow> nat \<Rightarrow> nat" where
  "fq_advance q i = (if fq_capacity q = 0 then 0 else (i + 1) mod fq_capacity q)"

definition fq_physical_index :: "'a fixed_queue \<Rightarrow> nat \<Rightarrow> nat" where
  "fq_physical_index q i = (if fq_capacity q = 0 then 0 else (fq_head q + i) mod fq_capacity q)"

text \<open>\<open>push_back\<close> hands the item back when the queue is full.\<close>

definition fq_push_back :: "'a \<Rightarrow> 'a fixed_queue \<Rightarrow> ('a fixed_queue \<times> ('a + unit)) option" where
  "fq_push_back item q =
     (if fq_len q = fq_capacity q then Some (q, Inl item)
      else do {
        buf \<leftarrow> index_set (fq_buf q) (fq_physical_index q (fq_len q)) (Some item);
        Some (q\<lparr>fq_buf := buf, fq_len := fq_len q + 1\<rparr>, Inr ())
      })"

definition fq_pop_front :: "'a fixed_queue \<Rightarrow> ('a fixed_queue \<times> 'a option) option" where
  "fq_pop_front q =
     (if fq_len q = 0 then Some (q, None)
      else do {
        item \<leftarrow> index_get (fq_buf q) (fq_head q);
        buf \<leftarrow> index_set (fq_buf q) (fq_head q) None;
        let len = fq_len q - 1;
        Some (q\<lparr>fq_buf := buf, fq_head := (if len = 0 then 0 else fq_advance q (fq_head q)),
                fq_len := len\<rparr>, item)
      })"

definition fq_front :: "'a fixed_queue \<Rightarrow> 'a option option" where
  "fq_front q = (if 0 < fq_len q then index_get (fq_buf q) (fq_head q) else Some None)"

primrec fq_retain_loop :: "nat \<Rightarrow> ('a \<Rightarrow> bool) \<Rightarrow> 'a fixed_queue \<Rightarrow> 'a fixed_queue option" where
  "fq_retain_loop 0 keep q = Some q"
| "fq_retain_loop (Suc n) keep q = do {
     (q1, item) \<leftarrow> fq_pop_front q;
     case item of
       None \<Rightarrow> Some q1
     | Some x \<Rightarrow>
         if keep x
         then do {
           (q2, _) \<leftarrow> fq_push_back x q1;
           fq_retain_loop n keep q2
         }
         else fq_retain_loop n keep q1
   }"

definition fq_retain :: "('a \<Rightarrow> bool) \<Rightarrow> 'a fixed_queue \<Rightarrow> 'a fixed_queue option" where
  "fq_retain keep q = fq_retain_loop (fq_len q) keep q"

text \<open>
  \<open>clear\<close> pops until nothing comes out.  The fuel is one call per item and the last, empty one;
  running out of it would be the value \<open>None\<close>.
\<close>

primrec fq_clear_loop :: "nat \<Rightarrow> 'a fixed_queue \<Rightarrow> 'a fixed_queue option" where
  "fq_clear_loop 0 q = None"
| "fq_clear_loop (Suc n) q = do {
     (q1, item) \<leftarrow> fq_pop_front q;
     if item \<noteq> None then fq_clear_loop n q1 else Some q1
   }"

definition fq_clear :: "'a fixed_queue \<Rightarrow> 'a fixed_queue option" where
  "fq_clear q = fq_clear_loop (Suc (fq_len q)) q"

section \<open>What a bounded queue promises\<close>

datatype 'a queue_op = QPush 'a | QPop

datatype 'a queue_result = Pushed | Refused 'a | Popped "'a option"

definition queue_step ::
  "('a \<Rightarrow> 'q \<Rightarrow> ('q \<times> ('a + unit)) option) \<Rightarrow> ('q \<Rightarrow> ('q \<times> 'a option) option)
    \<Rightarrow> 'a queue_op \<Rightarrow> 'q \<Rightarrow> ('q \<times> 'a queue_result list) option" where
  "queue_step push pop i q =
     (case i of
        QPush x \<Rightarrow> map_option (\<lambda>(q', r). (q', [case r of Inl y \<Rightarrow> Refused y | Inr _ \<Rightarrow> Pushed])) (push x q)
      | QPop \<Rightarrow> map_option (\<lambda>(q', r). (q', [Popped r])) (pop q))"

text \<open>The specification: a list of at most \<open>n\<close> items.\<close>

definition list_push :: "nat \<Rightarrow> 'a \<Rightarrow> 'a list \<Rightarrow> ('a list \<times> ('a + unit)) option" where
  "list_push n x xs = Some (if length xs < n then (xs @ [x], Inr ()) else (xs, Inl x))"

definition list_pop :: "'a list \<Rightarrow> ('a list \<times> 'a option) option" where
  "list_pop xs = Some (case xs of [] \<Rightarrow> ([], None) | x # ys \<Rightarrow> (ys, Some x))"

locale bounded_fifo =
  fixes holds :: "'q \<Rightarrow> 'a list \<Rightarrow> bool"
    and capacity :: "'q \<Rightarrow> nat"
    and push :: "'a \<Rightarrow> 'q \<Rightarrow> ('q \<times> ('a + unit)) option"
    and pop :: "'q \<Rightarrow> ('q \<times> 'a option) option"
  assumes push_ok: "holds q xs \<Longrightarrow> length xs < capacity q \<Longrightarrow>
      \<exists>q'. push x q = Some (q', Inr ()) \<and> holds q' (xs @ [x]) \<and> capacity q' = capacity q"
    and push_full: "holds q xs \<Longrightarrow> capacity q \<le> length xs \<Longrightarrow> push x q = Some (q, Inl x)"
    and pop_some: "holds q (x # xs) \<Longrightarrow>
      \<exists>q'. pop q = Some (q', Some x) \<and> holds q' xs \<and> capacity q' = capacity q"
    and pop_none: "holds q [] \<Longrightarrow> pop q = Some (q, None)"
begin

lemma run_refines:
  assumes "holds q xs"
  shows "\<exists>q' xs' out. run_inputs (queue_step push pop) ops q = Some (q', out)
    \<and> run_inputs (queue_step (list_push (capacity q)) list_pop) ops xs = Some (xs', out)
    \<and> holds q' xs' \<and> capacity q' = capacity q"
  using assms
proof (induction ops arbitrary: q xs)
  case (Cons i ops)
  have "\<exists>q1 xs1 out1. queue_step push pop i q = Some (q1, out1)
      \<and> queue_step (list_push (capacity q)) list_pop i xs = Some (xs1, out1)
      \<and> holds q1 xs1 \<and> capacity q1 = capacity q"
  proof (cases i)
    case (QPush x)
    then show ?thesis
      using Cons.prems push_ok [of q xs x] push_full [of q xs x]
      by (cases "length xs < capacity q") (auto simp: queue_step_def list_push_def)
  next
    case QPop
    then show ?thesis
      using Cons.prems pop_some [of q] pop_none [of q]
      by (cases xs) (auto simp: queue_step_def list_pop_def)
  qed
  then obtain q1 xs1 out1 where "queue_step push pop i q = Some (q1, out1)"
    "queue_step (list_push (capacity q)) list_pop i xs = Some (xs1, out1)" "holds q1 xs1"
    "capacity q1 = capacity q" by blast
  then show ?case using Cons.IH [of q1 xs1] by auto
qed simp

end

section \<open>The ring buffer keeps the promise\<close>

definition fq_holds :: "'a fixed_queue \<Rightarrow> 'a list \<Rightarrow> bool" where
  "fq_holds q xs \<longleftrightarrow> fq_len q = length xs \<and> length xs \<le> fq_capacity q
     \<and> (fq_head q = 0 \<or> fq_head q < fq_capacity q)
     \<and> (\<forall>i < length xs. fq_buf q ! ((fq_head q + i) mod fq_capacity q) = Some (xs ! i))"

lemma ring_index_le:
  assumes "(h + i) mod n = (h + j) mod n" and "i < n" and "j \<le> i"
  shows "i = (j :: nat)"
proof -
  have "n dvd (h + i) - (h + j)" using assms(1,3) mod_eq_dvd_iff_nat [of "h + j" "h + i" n] by simp
  then show ?thesis using assms(2,3) by (auto dest: dvd_imp_le)
qed

lemma ring_index_inj:
  "(h + i) mod n = (h + j) mod n \<Longrightarrow> i < n \<Longrightarrow> j < n \<Longrightarrow> i = (j :: nat)"
  using ring_index_le [of h i n j] ring_index_le [of h j n i] by (cases "j \<le> i") auto

lemma ring_index_less: "0 < n \<Longrightarrow> (h + i) mod n < (n :: nat)"
  by simp

lemma fq_new_holds: "fq_holds (fq_new n) []"
  by (simp add: fq_holds_def fq_new_def)

lemma fq_capacity_new [simp]: "fq_capacity (fq_new n) = n"
  by (simp add: fq_capacity_def fq_new_def)

lemma fq_push_ok:
  assumes "fq_holds q xs" and "length xs < fq_capacity q"
  shows "\<exists>q'. fq_push_back x q = Some (q', Inr ()) \<and> fq_holds q' (xs @ [x]) \<and> fq_capacity q' = fq_capacity q"
proof -
  let ?n = "fq_capacity q" and ?k = "(fq_head q + length xs) mod fq_capacity q"
  have pos: "0 < ?n" using assms(2) by linarith
  have n: "?k < length (fq_buf q)"
    using ring_index_less [OF pos, of "fq_head q"] by (simp only: fq_capacity_def)
  let ?q = "q\<lparr>fq_buf := (fq_buf q)[?k := Some x], fq_len := Suc (length xs)\<rparr>"
  have cap: "fq_capacity ?q = ?n" by (simp add: fq_capacity_def)
  have "fq_buf ?q ! ((fq_head q + i) mod ?n) = Some ((xs @ [x]) ! i)" if "i < Suc (length xs)" for i
    using that assms n ring_index_inj [of "fq_head q" i ?n "length xs"]
    by (cases "i = length xs") (auto simp: fq_holds_def nth_append nth_list_update)
  then have "fq_holds ?q (xs @ [x])" using assms cap by (simp add: fq_holds_def)
  moreover have "fq_push_back x q = Some (?q, Inr ())"
    using assms n by (simp add: fq_push_back_def fq_holds_def fq_physical_index_def index_set_def)
  ultimately show ?thesis using cap by blast
qed

lemma fq_push_full: "fq_holds q xs \<Longrightarrow> fq_capacity q \<le> length xs \<Longrightarrow> fq_push_back x q = Some (q, Inl x)"
  by (simp add: fq_holds_def fq_push_back_def)

lemma fq_pop_some:
  assumes "fq_holds q (x # xs)"
  shows "\<exists>q'. fq_pop_front q = Some (q', Some x) \<and> fq_holds q' xs \<and> fq_capacity q' = fq_capacity q"
proof -
  let ?n = "fq_capacity q" and ?h = "fq_head q"
  have len: "fq_len q = Suc (length xs)" "Suc (length xs) \<le> ?n" using assms by (simp_all add: fq_holds_def)
  have h: "?h < ?n" using assms len by (auto simp: fq_holds_def)
  have item: "fq_buf q ! ?h = Some x" using assms h by (auto simp: fq_holds_def)
  let ?q = "q\<lparr>fq_buf := (fq_buf q)[?h := None],
      fq_head := (if length xs = 0 then 0 else (?h + 1) mod ?n), fq_len := length xs\<rparr>"
  have cap: "fq_capacity ?q = ?n" by (simp add: fq_capacity_def)
  have "fq_buf ?q ! (((?h + 1) mod ?n + i) mod ?n) = Some (xs ! i)" if i: "i < length xs" for i
  proof -
    have k: "((?h + 1) mod ?n + i) mod ?n = (?h + Suc i) mod ?n" by (simp add: mod_add_left_eq)
    moreover have "(?h + Suc i) mod ?n \<noteq> ?h"
      using ring_index_inj [of ?h "Suc i" ?n 0] i len h by auto
    moreover have "fq_buf q ! ((?h + Suc i) mod ?n) = Some (xs ! i)"
      using assms i by (auto simp: fq_holds_def dest: spec [of _ "Suc i"])
    ultimately show ?thesis by simp
  qed
  then have "fq_holds ?q xs" using len cap h by (auto simp: fq_holds_def)
  moreover have "fq_pop_front q = Some (?q, Some x)"
    using len h item
    by (auto simp: fq_pop_front_def fq_advance_def index_get_def index_set_def fq_capacity_def Let_def)
  ultimately show ?thesis using cap by blast
qed

lemma fq_pop_none: "fq_holds q [] \<Longrightarrow> fq_pop_front q = Some (q, None)"
  by (simp add: fq_holds_def fq_pop_front_def)

interpretation fixed_fifo: bounded_fifo fq_holds fq_capacity fq_push_back fq_pop_front
  by unfold_locales (fact fq_push_ok fq_push_full fq_pop_some fq_pop_none)+

lemma fq_retain_loop_eq:
  assumes "fq_holds q (xs @ ys)"
  shows "\<exists>q'. fq_retain_loop (length xs) keep q = Some q' \<and> fq_holds q' (ys @ filter keep xs)
    \<and> fq_capacity q' = fq_capacity q"
  using assms
proof (induction xs arbitrary: q ys)
  case (Cons x xs)
  then obtain q1 where q1: "fq_pop_front q = Some (q1, Some x)" "fq_holds q1 (xs @ ys)"
    "fq_capacity q1 = fq_capacity q" using fq_pop_some [of q x "xs @ ys"] by auto
  show ?case
  proof (cases "keep x")
    case True
    have "length (xs @ ys) < fq_capacity q1" using Cons.prems q1(3) by (simp add: fq_holds_def)
    then obtain q2 where "fq_push_back x q1 = Some (q2, Inr ())" "fq_holds q2 (xs @ (ys @ [x]))"
      "fq_capacity q2 = fq_capacity q1" using fq_push_ok [OF q1(2), of x] by auto
    then show ?thesis using True q1 Cons.IH [of q2 "ys @ [x]"] by auto
  next
    case False
    then show ?thesis using q1 Cons.IH [of q1 ys] by auto
  qed
qed simp

lemma fq_retain_eq:
  assumes "fq_holds q xs"
  shows "\<exists>q'. fq_retain keep q = Some q' \<and> fq_holds q' (filter keep xs) \<and> fq_capacity q' = fq_capacity q"
  using fq_retain_loop_eq [of q xs "[]" keep] assms by (simp add: fq_retain_def fq_holds_def)

lemma fq_clear_eq:
  assumes "fq_holds q xs"
  shows "\<exists>q'. fq_clear q = Some q' \<and> fq_holds q' [] \<and> fq_capacity q' = fq_capacity q"
proof -
  have "\<exists>q'. fq_clear_loop (Suc (length xs)) q = Some q' \<and> fq_holds q' [] \<and> fq_capacity q' = fq_capacity q"
    using assms
  proof (induction xs arbitrary: q)
    case Nil
    then show ?case by (simp add: fq_pop_none)
  next
    case (Cons x xs)
    from fq_pop_some [OF Cons.prems] obtain q1 where "fq_pop_front q = Some (q1, Some x)" "fq_holds q1 xs"
      "fq_capacity q1 = fq_capacity q" by blast
    then show ?case using Cons.IH [of q1] by simp
  qed
  then show ?thesis using assms by (simp add: fq_clear_def fq_holds_def)
qed

end
