(* ===== verification/Fixed_Buffers.thy ===== *)
theory Fixed_Buffers
  imports Fixed_Storage
begin

text \<open>
  The packed slot table, the byte buffer with its message envelope, and the buffer pool of
  \<open>fixed.rs\<close>.  The slot table and the growable vector of the hosted build keep one contract, so a
  client sees no difference until the table is full.
\<close>

section \<open>The slot table\<close>

record 'a fixed_slots =
  fs_buf :: "'a option list"
  fs_len :: nat

definition fs_new :: "nat \<Rightarrow> 'a fixed_slots" where
  "fs_new n = \<lparr>fs_buf = replicate n None, fs_len = 0\<rparr>"

definition fs_capacity :: "'a fixed_slots \<Rightarrow> nat" where
  "fs_capacity t = length (fs_buf t)"

definition fs_is_empty :: "'a fixed_slots \<Rightarrow> bool" where
  "fs_is_empty t = (fs_len t = 0)"

definition fs_is_full :: "'a fixed_slots \<Rightarrow> bool" where
  "fs_is_full t = (fs_len t = fs_capacity t)"

text \<open>Iterating expects every slot below the length to be filled.\<close>

primrec expect_all :: "'a option list \<Rightarrow> 'a list option" where
  "expect_all [] = Some []"
| "expect_all (s # ss) = do { x \<leftarrow> s; xs \<leftarrow> expect_all ss; Some (x # xs) }"

definition fs_iter :: "'a fixed_slots \<Rightarrow> 'a list option" where
  "fs_iter t = (if fs_len t \<le> fs_capacity t then expect_all (take (fs_len t) (fs_buf t)) else None)"

definition fs_push :: "'a \<Rightarrow> 'a fixed_slots \<Rightarrow> ('a fixed_slots \<times> ('a + unit)) option" where
  "fs_push item t =
     (if fs_len t = fs_capacity t then Some (t, Inl item)
      else do {
        buf \<leftarrow> index_set (fs_buf t) (fs_len t) (Some item);
        Some (t\<lparr>fs_buf := buf, fs_len := fs_len t + 1\<rparr>, Inr ())
      })"

definition fs_swap_remove :: "nat \<Rightarrow> 'a fixed_slots \<Rightarrow> ('a fixed_slots \<times> 'a option) option" where
  "fs_swap_remove i t =
     (if fs_len t \<le> i then Some (t, None)
      else do {
        let last_idx = fs_len t - 1;
        removed \<leftarrow> index_get (fs_buf t) i;
        buf \<leftarrow> index_set (fs_buf t) i None;
        buf' \<leftarrow> (if i \<noteq> last_idx
          then do {
            moved \<leftarrow> index_get buf last_idx;
            buf1 \<leftarrow> index_set buf last_idx None;
            index_set buf1 i moved
          }
          else Some buf);
        Some (t\<lparr>fs_buf := buf', fs_len := fs_len t - 1\<rparr>, removed)
      })"

definition fs_index :: "nat \<Rightarrow> 'a fixed_slots \<Rightarrow> 'a option" where
  "fs_index i t = (if i < fs_len t then Option.bind (index_get (fs_buf t) i) id else None)"

text \<open>Assignment through \<open>index_mut\<close>.\<close>

definition fs_index_set :: "nat \<Rightarrow> 'a \<Rightarrow> 'a fixed_slots \<Rightarrow> 'a fixed_slots option" where
  "fs_index_set i v t = do {
     _ \<leftarrow> fs_index i t;
     buf \<leftarrow> index_set (fs_buf t) i (Some v);
     Some (t\<lparr>fs_buf := buf\<rparr>)
   }"

text \<open>The loop of \<open>retain\<close>; each iteration moves on or removes a slot, so the length is enough fuel.\<close>

primrec fs_retain_loop :: "nat \<Rightarrow> ('a \<Rightarrow> bool) \<Rightarrow> nat \<Rightarrow> 'a fixed_slots \<Rightarrow> 'a fixed_slots option" where
  "fs_retain_loop 0 keep i t = (if i < fs_len t then None else Some t)"
| "fs_retain_loop (Suc n) keep i t =
     (if i < fs_len t
      then do {
        slot \<leftarrow> index_get (fs_buf t) i;
        let dropped = (case slot of None \<Rightarrow> False | Some x \<Rightarrow> \<not> keep x);
        if dropped
        then do { (t1, _) \<leftarrow> fs_swap_remove i t; fs_retain_loop n keep i t1 }
        else fs_retain_loop n keep (i + 1) t
      }
      else Some t)"

definition fs_retain :: "('a \<Rightarrow> bool) \<Rightarrow> 'a fixed_slots \<Rightarrow> 'a fixed_slots option" where
  "fs_retain keep t = fs_retain_loop (fs_len t) keep 0 t"

primrec fs_clear_loop :: "nat \<Rightarrow> 'a fixed_slots \<Rightarrow> 'a fixed_slots option" where
  "fs_clear_loop 0 t = (if 0 < fs_len t then None else Some t)"
| "fs_clear_loop (Suc n) t =
     (if 0 < fs_len t
      then do { (t1, _) \<leftarrow> fs_swap_remove (fs_len t - 1) t; fs_clear_loop n t1 }
      else Some t)"

definition fs_clear :: "'a fixed_slots \<Rightarrow> 'a fixed_slots option" where
  "fs_clear t = fs_clear_loop (fs_len t) t"

section \<open>What a session table promises\<close>

text \<open>
  The operations the transport engines use: append, remove by swapping, and indexed access.  Removal
  and access out of range panic in both builds.
\<close>

datatype 'a table_op = TPush 'a | TRemove nat | TGet nat

datatype 'a table_result = Stored | Rejected 'a | Item 'a

definition table_step ::
  "('a \<Rightarrow> 't \<Rightarrow> ('t \<times> ('a + unit)) option) \<Rightarrow> (nat \<Rightarrow> 't \<Rightarrow> ('a \<times> 't) option) \<Rightarrow> (nat \<Rightarrow> 't \<Rightarrow> 'a option)
    \<Rightarrow> 'a table_op \<Rightarrow> 't \<Rightarrow> ('t \<times> 'a table_result list) option" where
  "table_step push remove get i t =
     (case i of
        TPush x \<Rightarrow> map_option (\<lambda>(t', r). (t', [case r of Inl y \<Rightarrow> Rejected y | Inr _ \<Rightarrow> Stored])) (push x t)
      | TRemove k \<Rightarrow> map_option (\<lambda>(x, t'). (t', [Item x])) (remove k t)
      | TGet k \<Rightarrow> map_option (\<lambda>x. (t, [Item x])) (get k t))"

text \<open>The specification: a list, bounded or, for the growable vector, not.\<close>

definition vec_push :: "nat option \<Rightarrow> 'a \<Rightarrow> 'a list \<Rightarrow> ('a list \<times> ('a + unit)) option" where
  "vec_push cap x xs = Some (if cap = Some (length xs) then (xs, Inl x) else (xs @ [x], Inr ()))"

definition vec_get :: "nat \<Rightarrow> 'a list \<Rightarrow> 'a option" where
  "vec_get i xs = index_get xs i"

text \<open>Both runs panic, or both end with the same results and the table holds the list.\<close>

definition table_agrees ::
  "('t \<Rightarrow> 'a list \<Rightarrow> bool) \<Rightarrow> ('t \<Rightarrow> nat option) \<Rightarrow> nat option \<Rightarrow> ('t \<times> 'a table_result list) option
    \<Rightarrow> ('a list \<times> 'a table_result list) option \<Rightarrow> bool" where
  "table_agrees holds capacity cap =
     rel_option (\<lambda>(t, out) (xs, out'). holds t xs \<and> capacity t = cap \<and> out = out')"

locale slot_table =
  fixes holds :: "'t \<Rightarrow> 'a list \<Rightarrow> bool"
    and capacity :: "'t \<Rightarrow> nat option"
    and push :: "'a \<Rightarrow> 't \<Rightarrow> ('t \<times> ('a + unit)) option"
    and remove :: "nat \<Rightarrow> 't \<Rightarrow> ('a \<times> 't) option"
    and get :: "nat \<Rightarrow> 't \<Rightarrow> 'a option"
  assumes push_stores: "holds t xs \<Longrightarrow> capacity t \<noteq> Some (length xs) \<Longrightarrow>
      \<exists>t'. push x t = Some (t', Inr ()) \<and> holds t' (xs @ [x]) \<and> capacity t' = capacity t"
    and push_rejects: "holds t xs \<Longrightarrow> capacity t = Some (length xs) \<Longrightarrow> push x t = Some (t, Inl x)"
    and remove_in: "holds t xs \<Longrightarrow> i < length xs \<Longrightarrow>
      \<exists>t'. remove i t = Some (xs ! i, t') \<and> holds t' (butlast (xs[i := last xs])) \<and> capacity t' = capacity t"
    and remove_out: "holds t xs \<Longrightarrow> length xs \<le> i \<Longrightarrow> remove i t = None"
    and get_item: "holds t xs \<Longrightarrow> get i t = index_get xs i"
begin

lemma table_step_agrees:
  assumes "holds t xs"
  shows "table_agrees holds capacity (capacity t) (table_step push remove get i t)
    (table_step (vec_push (capacity t)) swap_remove vec_get i xs)"
proof (cases i)
  case (TPush x)
  then show ?thesis
    using assms push_stores [of t xs x] push_rejects [of t xs x]
    by (cases "capacity t = Some (length xs)") (auto simp: table_agrees_def table_step_def vec_push_def)
next
  case (TRemove k)
  then show ?thesis
    using assms remove_in [of t xs k] remove_out [of t xs k]
    by (cases "k < length xs") (auto simp: table_agrees_def table_step_def swap_remove_def)
next
  case (TGet k)
  then show ?thesis
    using assms get_item [of t xs k]
    by (cases "k < length xs") (auto simp: table_agrees_def table_step_def vec_get_def index_get_def)
qed

lemma table_run_agrees:
  assumes "holds t xs"
  shows "table_agrees holds capacity (capacity t) (run_inputs (table_step push remove get) ops t)
    (run_inputs (table_step (vec_push (capacity t)) swap_remove vec_get) ops xs)"
  using assms
proof (induction ops arbitrary: t xs)
  case (Cons i ops)
  note step = table_step_agrees [OF Cons.prems, of i, unfolded table_agrees_def]
  show ?case
  proof (cases "table_step push remove get i t")
    case None
    then show ?thesis using step by (auto simp: table_agrees_def)
  next
    case (Some r)
    then obtain t1 out xs1 where 1: "table_step push remove get i t = Some (t1, out)"
      "table_step (vec_push (capacity t)) swap_remove vec_get i xs = Some (xs1, out)"
      "holds t1 xs1" "capacity t1 = capacity t"
      using step by (cases r) (auto simp: option_rel_Some1)
    from Cons.IH [OF 1(3)] show ?thesis
      using 1 by (auto simp: table_agrees_def rel_option_iff split: bind_splits option.splits)
  qed
qed (simp add: table_agrees_def)

end

section \<open>The two session tables\<close>

definition fs_holds :: "'a fixed_slots \<Rightarrow> 'a list \<Rightarrow> bool" where
  "fs_holds t xs \<longleftrightarrow> fs_len t = length xs \<and> length xs \<le> fs_capacity t
     \<and> (\<forall>i < length xs. fs_buf t ! i = Some (xs ! i))"

text \<open>The removal of the embedded engine: \<open>swap_remove\<close> with \<open>expect\<close>.\<close>

definition fs_remove :: "nat \<Rightarrow> 'a fixed_slots \<Rightarrow> ('a \<times> 'a fixed_slots) option" where
  "fs_remove i t = do { (t', removed) \<leftarrow> fs_swap_remove i t; x \<leftarrow> removed; Some (x, t') }"

lemma fs_new_holds: "fs_holds (fs_new n) []"
  by (simp add: fs_holds_def fs_new_def)

lemma fs_capacity_new [simp]: "fs_capacity (fs_new n) = n"
  by (simp add: fs_capacity_def fs_new_def)

lemma fs_push_stores:
  assumes "fs_holds t xs" and "length xs \<noteq> fs_capacity t"
  shows "\<exists>t'. fs_push x t = Some (t', Inr ()) \<and> fs_holds t' (xs @ [x]) \<and> fs_capacity t' = fs_capacity t"
  using assms
  by (auto simp: fs_push_def fs_holds_def fs_capacity_def index_set_def nth_append nth_list_update less_Suc_eq)

lemma fs_swap_remove_in:
  assumes "fs_holds t xs" and "i < length xs"
  shows "\<exists>t'. fs_swap_remove i t = Some (t', Some (xs ! i)) \<and> fs_holds t' (butlast (xs[i := last xs]))
    \<and> fs_capacity t' = fs_capacity t"
proof -
  let ?l = "length xs - 1"
  let ?buf = "if i \<noteq> ?l then (fs_buf t)[i := None, ?l := None, i := fs_buf t ! ?l] else (fs_buf t)[i := None]"
  let ?t = "t\<lparr>fs_buf := ?buf, fs_len := ?l\<rparr>"
  have len: "fs_len t = length xs" "length xs \<le> length (fs_buf t)" "xs \<noteq> []"
    "\<And>j. j < length xs \<Longrightarrow> fs_buf t ! j = Some (xs ! j)"
    using assms by (auto simp: fs_holds_def fs_capacity_def)
  have "fs_swap_remove i t = Some (?t, Some (xs ! i))"
    using assms(2) len
    by (auto simp: fs_swap_remove_def index_get_def index_set_def Let_def)
  moreover have "?buf ! j = Some (butlast (xs[i := last xs]) ! j)" if "j < ?l" for j
    using that assms(2) len by (auto simp: nth_butlast nth_list_update last_conv_nth)
  ultimately show ?thesis
    using len by (intro exI [of _ ?t]) (auto simp: fs_holds_def fs_capacity_def)
qed

lemma fs_remove_in:
  assumes "fs_holds t xs" and "i < length xs"
  shows "\<exists>t'. fs_remove i t = Some (xs ! i, t') \<and> fs_holds t' (butlast (xs[i := last xs]))
    \<and> fs_capacity t' = fs_capacity t"
  using fs_swap_remove_in [OF assms] by (auto simp: fs_remove_def)

lemma fs_index_eq: "fs_holds t xs \<Longrightarrow> fs_index i t = index_get xs i"
  by (auto simp: fs_index_def fs_holds_def index_get_def fs_capacity_def)

interpretation fixed_table: slot_table fs_holds "\<lambda>t. Some (fs_capacity t)" fs_push fs_remove fs_index
proof unfold_locales
  fix t :: "'a fixed_slots" and xs x i
  assume h: "fs_holds t xs"
  show "Some (fs_capacity t) \<noteq> Some (length xs) \<Longrightarrow> \<exists>t'. fs_push x t = Some (t', Inr ())
      \<and> fs_holds t' (xs @ [x]) \<and> Some (fs_capacity t') = Some (fs_capacity t)"
    using fs_push_stores [OF h, of x] by auto
  show "Some (fs_capacity t) = Some (length xs) \<Longrightarrow> fs_push x t = Some (t, Inl x)"
    using h by (simp add: fs_push_def fs_holds_def)
  show "i < length xs \<Longrightarrow> \<exists>t'. fs_remove i t = Some (xs ! i, t')
      \<and> fs_holds t' (butlast (xs[i := last xs])) \<and> Some (fs_capacity t') = Some (fs_capacity t)"
    using fs_remove_in [OF h] by simp
  show "length xs \<le> i \<Longrightarrow> fs_remove i t = None"
    using h by (simp add: fs_remove_def fs_swap_remove_def fs_holds_def)
  show "fs_index i t = index_get xs i" using fs_index_eq [OF h] .
qed

interpretation vec_table: slot_table "(=)" "\<lambda>_. None" "vec_push None" swap_remove vec_get
  by unfold_locales (auto simp: vec_push_def swap_remove_def vec_get_def)

text \<open>Iteration, \<open>retain\<close> and \<open>clear\<close> of the slot table.\<close>

lemma expect_all_map: "expect_all (map Some xs) = Some xs"
  by (induction xs) simp_all

lemma fs_iter_eq: "fs_holds t xs \<Longrightarrow> fs_iter t = Some xs"
proof -
  assume h: "fs_holds t xs"
  then have "take (fs_len t) (fs_buf t) = map Some xs"
    by (intro nth_equalityI) (auto simp: fs_holds_def fs_capacity_def)
  then show ?thesis using h by (simp add: fs_iter_def expect_all_map fs_holds_def)
qed

lemma fs_retain_loop_eq:
  assumes "fs_holds t xs" and "i \<le> length xs" and "n = length xs - i" and "\<forall>x \<in> set (take i xs). keep x"
  shows "\<exists>t' ys. fs_retain_loop n keep i t = Some t' \<and> fs_holds t' ys \<and> mset ys = mset (filter keep xs)
    \<and> fs_capacity t' = fs_capacity t"
  using assms
proof (induction n arbitrary: t xs i)
  case 0
  then show ?case by (intro exI [of _ t] exI [of _ xs]) (auto simp: fs_holds_def)
next
  case (Suc n)
  have i: "i < length xs" using Suc.prems by simp
  have slot: "index_get (fs_buf t) i = Some (Some (xs ! i))" "i < fs_len t"
    using i Suc.prems(1) by (auto simp: fs_holds_def fs_capacity_def index_get_def)
  show ?case
  proof (cases "keep (xs ! i)")
    case True
    then have "\<forall>x \<in> set (take (Suc i) xs). keep x"
      using Suc.prems(4) i by (auto simp: take_Suc_conv_app_nth)
    moreover have "n = length xs - Suc i" "Suc i \<le> length xs" using Suc.prems(3) i by simp_all
    moreover have "fs_retain_loop (Suc n) keep i t = fs_retain_loop n keep (Suc i) t" using slot True by simp
    ultimately show ?thesis using Suc.IH [of t xs "Suc i"] Suc.prems(1) by simp
  next
    case False
    from fs_swap_remove_in [OF Suc.prems(1) i] obtain t1 where
      t1: "fs_swap_remove i t = Some (t1, Some (xs ! i))" "fs_holds t1 (butlast (xs[i := last xs]))"
      "fs_capacity t1 = fs_capacity t" by blast
    have "mset (filter keep (butlast (xs[i := last xs]))) = mset (filter keep xs)"
      using False mset_swap_remove [OF i] by simp
    moreover have "fs_retain_loop (Suc n) keep i t = fs_retain_loop n keep i t1" using slot False t1(1) by simp
    moreover have "n = length (butlast (xs[i := last xs])) - i" "i \<le> length (butlast (xs[i := last xs]))"
      using Suc.prems(3) i by simp_all
    ultimately show ?thesis
      using Suc.IH [OF t1(2), of i] Suc.prems(4) t1(3) swap_remove_rest(1) [OF i] by simp
  qed
qed

lemma fs_clear_loop_eq:
  "fs_holds t xs \<Longrightarrow> \<exists>t'. fs_clear_loop (length xs) t = Some t' \<and> fs_holds t' [] \<and> fs_capacity t' = fs_capacity t"
proof (induction "length xs" arbitrary: t xs)
  case 0
  then show ?case by (auto simp: fs_holds_def)
next
  case (Suc n)
  have i: "length xs - 1 < length xs" "xs \<noteq> []" using Suc.hyps(2) by auto
  from fs_swap_remove_in [OF Suc.prems i(1)] obtain t1 where
    t1: "fs_swap_remove (length xs - 1) t = Some (t1, Some (xs ! (length xs - 1)))"
    "fs_holds t1 (butlast xs)" "fs_capacity t1 = fs_capacity t"
    using i by (auto simp: last_conv_nth)
  have "fs_clear_loop (length xs) t = fs_clear_loop (length (butlast xs)) t1"
    using t1(1) Suc.prems i Suc.hyps(2) by (cases "length xs") (auto simp: fs_holds_def)
  moreover have "n = length (butlast xs)" using Suc.hyps(2) by simp
  ultimately show ?case using Suc.hyps(1) [OF _ t1(2)] t1(3) by simp
qed

section \<open>The byte buffer\<close>

record fixed_capacity_error =
  fce_capacity :: nat
  fce_requested :: nat

definition fixed_capacity_error_new :: "nat \<Rightarrow> nat \<Rightarrow> fixed_capacity_error" where
  "fixed_capacity_error_new capacity requested = \<lparr>fce_capacity = capacity, fce_requested = requested\<rparr>"

record fixed_bytes =
  fb_data :: bytes
  fb_len :: nat

definition fb_new :: "nat \<Rightarrow> fixed_bytes" where
  "fb_new n = \<lparr>fb_data = replicate n 0, fb_len = 0\<rparr>"

definition fb_capacity :: "fixed_bytes \<Rightarrow> nat" where
  "fb_capacity b = length (fb_data b)"

definition fb_is_empty :: "fixed_bytes \<Rightarrow> bool" where
  "fb_is_empty b = (fb_len b = 0)"

definition fb_is_full :: "fixed_bytes \<Rightarrow> bool" where
  "fb_is_full b = (fb_len b = fb_capacity b)"

text \<open>\<open>&data[..len]\<close> panics when the length is out of range.\<close>

definition fb_as_slice :: "fixed_bytes \<Rightarrow> bytes option" where
  "fb_as_slice b = (if fb_len b \<le> fb_capacity b then Some (take (fb_len b) (fb_data b)) else None)"

type_synonym fb_result = "(fixed_bytes \<times> (fixed_capacity_error + unit)) option"

definition fb_push :: "u8 \<Rightarrow> fixed_bytes \<Rightarrow> fb_result" where
  "fb_push v b =
     (if fb_len b = fb_capacity b
      then Some (b, Inl (fixed_capacity_error_new (fb_capacity b) (fb_len b + 1)))
      else do {
        data \<leftarrow> index_set (fb_data b) (fb_len b) v;
        Some (b\<lparr>fb_data := data, fb_len := fb_len b + 1\<rparr>, Inr ())
      })"

text \<open>Writing a range, with the panic of \<open>data[from..to]\<close> when it is out of order or out of range.\<close>

definition write_range :: "nat \<Rightarrow> bytes \<Rightarrow> bytes \<Rightarrow> bytes option" where
  "write_range from src data =
     (if from + length src \<le> length data
      then Some (take from data @ src @ drop (from + length src) data) else None)"

definition fb_extend_from_slice :: "bytes \<Rightarrow> fixed_bytes \<Rightarrow> fb_result" where
  "fb_extend_from_slice src b =
     (let requested = fb_len b + length src
      in if fb_capacity b < requested
         then Some (b, Inl (fixed_capacity_error_new (fb_capacity b) requested))
         else do {
           data \<leftarrow> write_range (fb_len b) src (fb_data b);
           Some (b\<lparr>fb_data := data, fb_len := requested\<rparr>, Inr ())
         })"

definition fb_resize :: "nat \<Rightarrow> u8 \<Rightarrow> fixed_bytes \<Rightarrow> fb_result" where
  "fb_resize new_len v b =
     (if fb_capacity b < new_len
      then Some (b, Inl (fixed_capacity_error_new (fb_capacity b) new_len))
      else do {
        data \<leftarrow> (if fb_len b < new_len
          then write_range (fb_len b) (replicate (new_len - fb_len b) v) (fb_data b)
          else Some (fb_data b));
        Some (b\<lparr>fb_data := data, fb_len := new_len\<rparr>, Inr ())
      })"

definition fb_clear :: "fixed_bytes \<Rightarrow> fixed_bytes" where
  "fb_clear b = b\<lparr>fb_len := 0\<rparr>"

definition fb_from_slice :: "nat \<Rightarrow> bytes \<Rightarrow> (fixed_capacity_error + fixed_bytes) option" where
  "fb_from_slice n src = do {
     (b, r) \<leftarrow> fb_extend_from_slice src (fb_new n);
     case r of Inl e \<Rightarrow> Some (Inl e) | Inr _ \<Rightarrow> Some (Inr b)
   }"

definition fb_holds :: "fixed_bytes \<Rightarrow> bytes \<Rightarrow> bool" where
  "fb_holds b xs \<longleftrightarrow> fb_as_slice b = Some xs"

lemma fb_holds_iff: "fb_holds b xs \<longleftrightarrow> fb_len b \<le> fb_capacity b \<and> take (fb_len b) (fb_data b) = xs"
  by (auto simp: fb_holds_def fb_as_slice_def)

lemma fb_new_holds [simp]: "fb_holds (fb_new n) []"
  by (simp add: fb_holds_iff fb_new_def fb_capacity_def)

lemma fb_capacity_new [simp]: "fb_capacity (fb_new n) = n"
  by (simp add: fb_new_def fb_capacity_def)

lemma fb_holds_length: "fb_holds b xs \<Longrightarrow> fb_len b = length xs \<and> length xs \<le> fb_capacity b"
  by (auto simp: fb_holds_iff fb_capacity_def)

lemma fb_extend_eq:
  assumes "fb_holds b xs"
  shows "length xs + length src \<le> fb_capacity b \<Longrightarrow>
      \<exists>b'. fb_extend_from_slice src b = Some (b', Inr ()) \<and> fb_holds b' (xs @ src) \<and> fb_capacity b' = fb_capacity b"
    and "fb_capacity b < length xs + length src \<Longrightarrow> fb_extend_from_slice src b =
      Some (b, Inl (fixed_capacity_error_new (fb_capacity b) (length xs + length src)))"
  using assms fb_holds_length [OF assms]
  by (auto simp: fb_extend_from_slice_def fb_holds_iff write_range_def Let_def fb_capacity_def)

lemma fb_push_eq:
  assumes "fb_holds b xs"
  shows "length xs < fb_capacity b \<Longrightarrow>
      \<exists>b'. fb_push v b = Some (b', Inr ()) \<and> fb_holds b' (xs @ [v]) \<and> fb_capacity b' = fb_capacity b"
    and "fb_capacity b = length xs \<Longrightarrow> fb_push v b =
      Some (b, Inl (fixed_capacity_error_new (fb_capacity b) (Suc (length xs))))"
  using assms fb_holds_length [OF assms]
  by (auto simp: fb_push_def fb_holds_iff index_set_def fb_capacity_def take_Suc_conv_app_nth)

lemma fb_resize_eq:
  assumes "fb_holds b xs"
  shows "n \<le> fb_capacity b \<Longrightarrow> \<exists>b'. fb_resize n v b = Some (b', Inr ())
      \<and> fb_holds b' (take n xs @ replicate (n - length xs) v) \<and> fb_capacity b' = fb_capacity b"
    and "fb_capacity b < n \<Longrightarrow> fb_resize n v b = Some (b, Inl (fixed_capacity_error_new (fb_capacity b) n))"
proof -
  have len: "fb_len b = length xs" "length xs \<le> fb_capacity b" using fb_holds_length [OF assms] by simp_all
  have data: "take (length xs) (fb_data b) = xs" using assms len by (simp add: fb_holds_iff)
  have "take n (fb_data b) = take n xs" if "n \<le> length xs" using that by (metis data min.absorb1 take_take)
  then show "n \<le> fb_capacity b \<Longrightarrow> \<exists>b'. fb_resize n v b = Some (b', Inr ())
      \<and> fb_holds b' (take n xs @ replicate (n - length xs) v) \<and> fb_capacity b' = fb_capacity b"
    using len data by (auto simp: fb_resize_def fb_holds_iff write_range_def fb_capacity_def)
qed (simp add: fb_resize_def)

lemma fb_from_slice_eq:
  "length src \<le> n \<Longrightarrow> \<exists>b. fb_from_slice n src = Some (Inr b) \<and> fb_holds b src \<and> fb_capacity b = n"
  "n < length src \<Longrightarrow> fb_from_slice n src = Some (Inl (fixed_capacity_error_new n (length src)))"
  using fb_extend_eq [OF fb_new_holds [of n], of src] by (auto simp: fb_from_slice_def)

section \<open>The message envelope\<close>

record fixed_message =
  fm_pgn :: pgn
  fm_data :: fixed_bytes
  fm_source :: address
  fm_destination :: address
  fm_priority :: priority
  fm_timestamp_us :: u64

definition fm_default :: "nat \<Rightarrow> fixed_message" where
  "fm_default n = \<lparr>fm_pgn = 0, fm_data = fb_new n, fm_source = NULL_ADDRESS,
     fm_destination = BROADCAST_ADDRESS, fm_priority = Default, fm_timestamp_us = 0\<rparr>"

text \<open>The constructors copy the payload first and pass its error on.\<close>

definition with_payload ::
  "nat \<Rightarrow> bytes \<Rightarrow> (fixed_bytes \<Rightarrow> fixed_message) \<Rightarrow> (fixed_capacity_error + fixed_message) option" where
  "with_payload n payload k = do {
     r \<leftarrow> fb_from_slice n payload;
     case r of Inl e \<Rightarrow> Some (Inl e) | Inr b \<Rightarrow> Some (Inr (k b))
   }"

definition fm_new :: "nat \<Rightarrow> pgn \<Rightarrow> bytes \<Rightarrow> address \<Rightarrow> (fixed_capacity_error + fixed_message) option" where
  "fm_new n p payload src = with_payload n payload
     (\<lambda>b. (fm_default n)\<lparr>fm_pgn := p, fm_data := b, fm_source := src\<rparr>)"

definition fm_with_addressing ::
  "nat \<Rightarrow> pgn \<Rightarrow> bytes \<Rightarrow> address \<Rightarrow> address \<Rightarrow> priority \<Rightarrow> (fixed_capacity_error + fixed_message) option" where
  "fm_with_addressing n p payload src dst prio = with_payload n payload
     (\<lambda>b. \<lparr>fm_pgn = p, fm_data = b, fm_source = src, fm_destination = dst, fm_priority = prio,
          fm_timestamp_us = 0\<rparr>)"

definition fm_from_frame :: "nat \<Rightarrow> frame \<Rightarrow> (fixed_capacity_error + fixed_message) option" where
  "fm_from_frame n f = with_payload n (frame_payload f)
     (\<lambda>b. \<lparr>fm_pgn = frame_pgn f, fm_data = b, fm_source = frame_source f,
          fm_destination = frame_destination f, fm_priority = frame_priority f,
          fm_timestamp_us = fr_timestamp_us f\<rparr>)"

definition fm_from_message :: "nat \<Rightarrow> message \<Rightarrow> (fixed_capacity_error + fixed_message) option" where
  "fm_from_message n m = with_payload n (msg_data m)
     (\<lambda>b. \<lparr>fm_pgn = msg_pgn m, fm_data = b, fm_source = msg_source m,
          fm_destination = msg_destination m, fm_priority = msg_priority m,
          fm_timestamp_us = msg_timestamp_us m\<rparr>)"

definition fm_to_frame :: "fixed_message \<Rightarrow> frame net_result option" where
  "fm_to_frame m =
     (if 8 < fb_len (fm_data m) then Some (Inl error_buffer_overflow)
      else do {
        payload \<leftarrow> fb_as_slice (fm_data m);
        Some (frame_try_from_message_at (fm_priority m) (fm_pgn m) (fm_source m) (fm_destination m)
                payload (fm_timestamp_us m))
      })"

lemma fm_frame_roundtrip:
  assumes "wf_frame f" and "raw (fr_id f) \<le> 0x1FFFFFFF" and "fr_length f \<le> 8" and "unat (fr_length f) \<le> n"
  shows "\<exists>m g. fm_from_frame n f = Some (Inr m) \<and> fm_to_frame m = Some (Inr g) \<and> fr_id g = fr_id f
    \<and> fr_length g = fr_length f \<and> frame_payload g = frame_payload f \<and> fr_timestamp_us g = fr_timestamp_us f"
proof -
  have len: "length (frame_payload f) = unat (fr_length f)" "unat (fr_length f) \<le> 8"
    using assms(1,3) by (simp_all add: length_frame_payload word_le_nat_alt)
  obtain b where b: "fb_from_slice n (frame_payload f) = Some (Inr b)" "fb_holds b (frame_payload f)"
    using fb_from_slice_eq(1) [of "frame_payload f" n] len assms(4) by auto
  have fl: "fb_len b = unat (fr_length f)" using fb_holds_length [OF b(2)] len by simp
  have id: "id_encode (frame_priority f) (frame_pgn f) (frame_source f) (frame_destination f) = fr_id f"
    using assms(2) by (simp add: frame_accessors id_encode_decode)
  have v: "pgn_is_valid (frame_pgn f)" by (simp add: frame_pgn_def)
  show ?thesis
    using b len fl id v
    by (auto simp: fm_from_frame_def with_payload_def fm_to_frame_def fb_holds_def
        frame_try_from_message_at_def frame_try_from_message_def frame_payload_def)
qed

section \<open>The buffer pool\<close>

record buffer_pool =
  bp_buffers :: "bytes list"
  bp_used :: "bool list"

definition bp_new :: "nat \<Rightarrow> nat \<Rightarrow> buffer_pool" where
  "bp_new slots buf_len = \<lparr>bp_buffers = replicate slots (replicate buf_len 0), bp_used = replicate slots False\<rparr>"

text \<open>\<open>acquire\<close> lends a buffer out: the slot and the content the caller finds there.\<close>

definition bp_acquire :: "buffer_pool \<Rightarrow> (buffer_pool \<times> (nat \<times> bytes) option) option" where
  "bp_acquire p =
     (case position Not (bp_used p) of
        None \<Rightarrow> Some (p, None)
      | Some i \<Rightarrow> do {
          buffer \<leftarrow> index_get (bp_buffers p) i;
          Some (p\<lparr>bp_used := (bp_used p)[i := True]\<rparr>, Some (i, buffer))
        })"

definition bp_release :: "nat \<Rightarrow> buffer_pool \<Rightarrow> (buffer_pool \<times> bool) option" where
  "bp_release slot p =
     (if slot < length (bp_used p) \<and> bp_used p ! slot
      then do {
        buffer \<leftarrow> index_get (bp_buffers p) slot;
        Some (p\<lparr>bp_used := (bp_used p)[slot := False],
                bp_buffers := (bp_buffers p)[slot := replicate (length buffer) 0]\<rparr>, True)
      }
      else Some (p, False))"

text \<open>
  A client acquires a buffer and writes into it what it likes, or releases a slot.  The output of
  an acquisition is the content that was found.
\<close>

datatype pool_op = PoolAcquire bytes | PoolRelease nat

definition pool_step :: "pool_op \<Rightarrow> buffer_pool \<Rightarrow> (buffer_pool \<times> bytes list) option" where
  "pool_step i p =
     (case i of
        PoolAcquire content \<Rightarrow> do {
          (p1, r) \<leftarrow> bp_acquire p;
          case r of
            None \<Rightarrow> Some (p1, [])
          | Some (slot, found) \<Rightarrow> Some (p1\<lparr>bp_buffers := (bp_buffers p1)[slot := content]\<rparr>, [found])
        }
      | PoolRelease slot \<Rightarrow> do { (p1, _) \<leftarrow> bp_release slot p; Some (p1, []) })"

definition pool_inv :: "nat \<Rightarrow> buffer_pool \<Rightarrow> bool" where
  "pool_inv buf_len p \<longleftrightarrow> length (bp_buffers p) = length (bp_used p)
     \<and> (\<forall>b \<in> set (bp_buffers p). length b = buf_len)
     \<and> (\<forall>i < length (bp_used p). \<not> bp_used p ! i \<longrightarrow> bp_buffers p ! i = replicate buf_len 0)"

definition pool_admissible :: "nat \<Rightarrow> pool_op \<Rightarrow> bool" where
  "pool_admissible buf_len i = (case i of PoolAcquire content \<Rightarrow> length content = buf_len | PoolRelease _ \<Rightarrow> True)"

lemma pool_step_inv:
  assumes "pool_inv n p" and "pool_admissible n i"
  shows "\<exists>p' out. pool_step i p = Some (p', out) \<and> pool_inv n p' \<and> (\<forall>b \<in> set out. b = replicate n 0)"
proof (cases i)
  case (PoolAcquire content)
  show ?thesis
  proof (cases "position Not (bp_used p)")
    case None
    then show ?thesis using assms PoolAcquire by (simp add: pool_step_def bp_acquire_def)
  next
    case (Some k)
    then have k: "k < length (bp_used p)" "\<not> bp_used p ! k" using position_SomeD by fastforce+
    then show ?thesis
      using assms PoolAcquire Some set_update_subset_insert [of "bp_buffers p" k content]
      by (auto simp: pool_step_def bp_acquire_def pool_inv_def pool_admissible_def index_get_def
          nth_list_update)
  qed
next
  case (PoolRelease slot)
  show ?thesis
  proof (cases "slot < length (bp_used p) \<and> bp_used p ! slot")
    case True
    then have "length (bp_buffers p ! slot) = n" using assms(1) by (simp add: pool_inv_def)
    then show ?thesis
      using True assms PoolRelease set_update_subset_insert [of "bp_buffers p" slot "replicate n 0"]
      by (auto simp: pool_step_def bp_release_def pool_inv_def index_get_def nth_list_update)
  next
    case False
    then have "bp_release slot p = Some (p, False)" by (auto simp: bp_release_def)
    then show ?thesis using assms(1) PoolRelease by (simp add: pool_step_def)
  qed
qed

interpretation pool: safe_system pool_step "pool_inv n" "pool_admissible n" "\<lambda>b. b = replicate n 0"
  for n
  by unfold_locales (rule pool_step_inv)

section \<open>Properties\<close>

text \<open>C15: The ring-buffer queue is a bounded FIFO queue: any sequence of pushes and pops on a new queue
of any capacity, zero included, panics nowhere and returns what the same sequence returns on a list
of at most that many items; a push onto a full queue hands the item back.\<close>

theorem fixed_queue_is_fifo:
  "\<exists>q xs out. run_inputs (queue_step fq_push_back fq_pop_front) ops (fq_new n) = Some (q, out)
    \<and> run_inputs (queue_step (list_push n) list_pop) ops [] = Some (xs, out) \<and> fq_holds q xs"
  using fixed_fifo.run_refines [OF fq_new_holds [of n], of ops] by auto

text \<open>C31: The slot table is interchangeable with the growable vector: on any sequence of appends,
swap-removals and indexed reads the table and a list bounded by its capacity either both panic or return
the same results, and the table then holds that list.\<close>

theorem fixed_slots_refine_vector:
  "rel_option (\<lambda>(t, out) (xs, out'). fs_holds t xs \<and> Some (fs_capacity t) = Some n \<and> out = out')
     (run_inputs (table_step fs_push fs_remove fs_index) ops (fs_new n))
     (run_inputs (table_step (vec_push (Some n)) swap_remove vec_get) ops [])"
  using fixed_table.table_run_agrees [OF fs_new_holds [of n], of ops] by (simp add: table_agrees_def)

text \<open>\<open>retain\<close> of the slot table keeps exactly the items the predicate accepts, in some order, and
\<open>retain\<close> of the queue keeps them in their order.\<close>

theorem fixed_retain_keeps:
  assumes "fs_holds t xs" and "fq_holds q xs"
  shows "\<exists>t' ys q'. fs_retain keep t = Some t' \<and> fs_iter t' = Some ys \<and> mset ys = mset (filter keep xs)
    \<and> fq_retain keep q = Some q' \<and> fq_holds q' (filter keep xs)"
proof -
  from fs_retain_loop_eq [OF assms(1), of 0 "length xs" keep]
  obtain t' ys where "fs_retain_loop (length xs) keep 0 t = Some t'" "fs_holds t' ys"
    "mset ys = mset (filter keep xs)" by auto
  moreover from this(2) have "fs_iter t' = Some ys" by (rule fs_iter_eq)
  moreover have "fs_len t = length xs" using assms(1) by (simp add: fs_holds_def)
  ultimately show ?thesis using fq_retain_eq [OF assms(2), of keep] by (auto simp: fs_retain_def)
qed

lemma full_tables_hold:
  "fs_holds \<lparr>fs_buf = map Some xs, fs_len = length xs\<rparr> xs"
  "fq_holds \<lparr>fq_buf = map Some xs, fq_head = 0, fq_len = length xs\<rparr> xs"
  by (simp_all add: fs_holds_def fs_capacity_def fq_holds_def fq_capacity_def)

theorem fixed_retain_keeps_witness:
  "\<exists>t' ys q'. fs_retain even \<lparr>fs_buf = map Some [1, 2, 4::nat], fs_len = length [1, 2, 4::nat]\<rparr> = Some t'
    \<and> fs_iter t' = Some ys \<and> mset ys = mset (filter even [1, 2, 4])
    \<and> fq_retain even \<lparr>fq_buf = map Some [1, 2, 4], fq_head = 0, fq_len = length [1, 2, 4::nat]\<rparr> = Some q'
    \<and> fq_holds q' (filter even [1, 2, 4::nat])"
  by (rule fixed_retain_keeps [OF full_tables_hold])

text \<open>A CAN frame survives the fixed message envelope: with room for its payload, copying it in
and building a frame from the envelope gives the same identifier, length, payload and timestamp.\<close>

theorem fixed_message_frame_round_trip:
  assumes "wf_frame f" and "raw (fr_id f) \<le> 0x1FFFFFFF" and "fr_length f \<le> 8" and "unat (fr_length f) \<le> n"
  shows "\<exists>m g. fm_from_frame n f = Some (Inr m) \<and> fm_to_frame m = Some (Inr g) \<and> fr_id g = fr_id f
    \<and> fr_length g = fr_length f \<and> frame_payload g = frame_payload f \<and> fr_timestamp_us g = fr_timestamp_us f"
  using assms by (rule fm_frame_roundtrip)

theorem fixed_message_frame_round_trip_witness:
  "\<exists>m g. fm_from_frame 8 (frame8 \<lparr>raw = 0x18EA2680\<rparr> [1, 2, 3, 4, 5, 6, 7, 8]) = Some (Inr m)
    \<and> fm_to_frame m = Some (Inr g) \<and> fr_id g = \<lparr>raw = 0x18EA2680\<rparr> \<and> frame_payload g = [1, 2, 3, 4, 5, 6, 7, 8]"
  using fixed_message_frame_round_trip [of "frame8 \<lparr>raw = 0x18EA2680\<rparr> [1, 2, 3, 4, 5, 6, 7, 8]" 8]
  by (fastforce simp: frame_payload_def)

text \<open>The buffer pool never leaks data between owners: whatever clients write into the buffers they
acquire, and in whatever order slots are acquired and released, every buffer handed out is all
zero.\<close>

theorem pool_buffers_are_clean:
  assumes "\<forall>i \<in> set ops. pool_admissible buf_len i"
  shows "\<exists>p out. run_inputs pool_step ops (bp_new slots buf_len) = Some (p, out)
    \<and> (\<forall>b \<in> set out. b = replicate buf_len 0)"
proof -
  have "pool_inv buf_len (bp_new slots buf_len)" by (simp add: pool_inv_def bp_new_def)
  from pool.run_safe [OF this assms] show ?thesis by blast
qed

theorem pool_buffers_are_clean_witness:
  "\<exists>p out. run_inputs pool_step [PoolAcquire [1, 2], PoolRelease 0, PoolAcquire [3, 4]] (bp_new 1 2) = Some (p, out)
    \<and> (\<forall>b \<in> set out. b = replicate 2 0)"
  by (rule pool_buffers_are_clean) (simp add: pool_admissible_def)

end
