(* ===== verification/Fast_Packet.thy ===== *)
theory Fast_Packet
  imports Transport_Session Can_Frame Fixed_Buffers
begin

unbundle bit_operations_syntax

text \<open>
  The NMEA 2000 fast-packet protocol (\<open>fast_packet.rs\<close>): a payload of 9 to 223 bytes in at most 32
  frames of one parameter group, the first with the length and six bytes, the others with seven.  The
  hosted build is modelled, and of the allocation-free one the sender and the receiver's fixed-capacity messages.
\<close>

section \<open>State\<close>

definition FIRST_FRAME_DATA :: nat where "FIRST_FRAME_DATA = 6"
definition SUBSEQUENT_FRAME_DATA :: nat where "SUBSEQUENT_FRAME_DATA = 7"
definition FAST_PACKET_DEFAULT_MAX_RX_SESSIONS :: nat where "FAST_PACKET_DEFAULT_MAX_RX_SESSIONS = 32"

lemmas fp_consts = FIRST_FRAME_DATA_def SUBSEQUENT_FRAME_DATA_def FAST_PACKET_DEFAULT_MAX_RX_SESSIONS_def

record fp_session =
  fps_pgn :: pgn
  fps_data :: bytes
  fps_total_bytes :: u32
  fps_bytes_received :: u32
  fps_source :: address
  fps_destination :: address
  fps_priority :: priority
  fps_sequence_counter :: u8
  fps_expected_frame :: u8
  fps_timer_ms :: u32
  fps_last_timestamp_us :: u64

record fast_packet =
  fp_rx_sessions :: "fp_session list"
  fp_tx_sequence_counter :: u8
  fp_max_rx_sessions :: nat
  fp_stats :: transport_stats

definition fp_new :: fast_packet where
  "fp_new = \<lparr>fp_rx_sessions = [], fp_tx_sequence_counter = 0,
     fp_max_rx_sessions = FAST_PACKET_DEFAULT_MAX_RX_SESSIONS, fp_stats = stats_default\<rparr>"

definition fp_set_max_rx_sessions :: "nat \<Rightarrow> fast_packet \<Rightarrow> fast_packet" where
  "fp_set_max_rx_sessions n e = e\<lparr>fp_max_rx_sessions := n\<rparr>"

definition fp_with_max_rx_sessions :: "nat \<Rightarrow> fast_packet" where
  "fp_with_max_rx_sessions n = fp_set_max_rx_sessions n fp_new"

definition fp_clear_stats :: "fast_packet \<Rightarrow> fast_packet" where
  "fp_clear_stats e = e\<lparr>fp_stats := stats_default\<rparr>"

definition fp_count_dropped_frame :: "fast_packet \<Rightarrow> fast_packet" where
  "fp_count_dropped_frame e = e\<lparr>fp_stats := (fp_stats e)
     \<lparr>st_dropped_frames := saturating_add (st_dropped_frames (fp_stats e)) 1\<rparr>\<rparr>"

definition fp_count_dropped_session :: "fast_packet \<Rightarrow> fast_packet" where
  "fp_count_dropped_session e = e\<lparr>fp_stats := (fp_stats e)
     \<lparr>st_dropped_sessions := saturating_add (st_dropped_sessions (fp_stats e)) 1\<rparr>\<rparr>"

definition fp_count_resource_rejection :: "fast_packet \<Rightarrow> fast_packet" where
  "fp_count_resource_rejection e = e\<lparr>fp_stats := (fp_stats e)
     \<lparr>st_resource_rejections := saturating_add (st_resource_rejections (fp_stats e)) 1\<rparr>\<rparr>"

definition fp_count_timeout :: "fast_packet \<Rightarrow> fast_packet" where
  "fp_count_timeout e = e\<lparr>fp_stats := (fp_stats e)
     \<lparr>st_timeouts := saturating_add (st_timeouts (fp_stats e)) 1\<rparr>\<rparr>"

lemmas fp_count_defs = fp_count_dropped_frame_def fp_count_dropped_session_def
  fp_count_resource_rejection_def fp_count_timeout_def

section \<open>Sending\<close>

definition valid_fast_packet_source :: "address \<Rightarrow> bool" where
  "valid_fast_packet_source a = (a \<noteq> NULL_ADDRESS \<and> a \<noteq> BROADCAST_ADDRESS)"

definition fp_more_frames :: "nat \<Rightarrow> nat" where
  "fp_more_frames n = (n - FIRST_FRAME_DATA + (SUBSEQUENT_FRAME_DATA - 1)) div SUBSEQUENT_FRAME_DATA"

definition fp_total_frames :: "nat \<Rightarrow> nat" where
  "fp_total_frames n = 1 + fp_more_frames n"

definition fp_first_frame :: "can_identifier \<Rightarrow> u8 \<Rightarrow> bytes \<Rightarrow> frame" where
  "fp_first_frame i seq data =
     (let n_first = min FIRST_FRAME_DATA (length data)
      in frame8 i ([seq, of_nat (length data)] @ take n_first data @ replicate (6 - n_first) 0xFF))"

primrec fp_subsequent_frames ::
  "can_identifier \<Rightarrow> u8 \<Rightarrow> bytes \<Rightarrow> nat list \<Rightarrow> nat \<Rightarrow> frame list option" where
  "fp_subsequent_frames i seq data [] offset = Some []"
| "fp_subsequent_frames i seq data (k # ks) offset = do {
     buf \<leftarrow> copy_out 1 offset (length data) data [0..<SUBSEQUENT_FRAME_DATA]
              ((replicate 8 0xFF)[0 := seq OR of_nat k]);
     rest \<leftarrow> fp_subsequent_frames i seq data ks (offset + SUBSEQUENT_FRAME_DATA);
     Some (frame8 i buf # rest)
   }"

definition fp_send_to ::
  "fast_packet \<Rightarrow> pgn \<Rightarrow> bytes \<Rightarrow> address \<Rightarrow> address \<Rightarrow> priority
    \<Rightarrow> (fast_packet \<times> frame list net_result) option" where
  "fp_send_to e p data src dst prio =
     (if \<not> pgn_is_valid p then Some (e, Inl (error_invalid_pgn p))
      else if \<not> valid_fast_packet_source src then Some (e, Inl (error_invalid_address src))
      else if FAST_PACKET_MAX_DATA < of_nat (length data)
      then Some (fp_count_resource_rejection e, Inl error_buffer_overflow)
      else if of_nat (length data) \<le> CAN_DATA_LENGTH
      then Some (e, Inl (error_invalid_state ''use single frame for <= 8 bytes''))
      else do {
        let seq = push_bit 5 (fp_tx_sequence_counter e AND 7);
        next \<leftarrow> checked_add (fp_tx_sequence_counter e) 1;
        total_frames \<leftarrow> checked_add (1 :: u8) (of_nat (fp_more_frames (length data)));
        let i = id_encode prio p src dst;
        rest \<leftarrow> fp_subsequent_frames i seq data [1..<unat total_frames] FIRST_FRAME_DATA;
        Some (e\<lparr>fp_tx_sequence_counter := next AND 7\<rparr>, Inr (fp_first_frame i seq data # rest))
      })"

definition fp_send :: "fast_packet \<Rightarrow> pgn \<Rightarrow> bytes \<Rightarrow> address \<Rightarrow> (fast_packet \<times> frame list net_result) option" where
  "fp_send e p data src = fp_send_to e p data src BROADCAST_ADDRESS Default"

text \<open>The sender of the allocation-free build puts the same frames into a slot table.\<close>

primrec fp_push_frames :: "frame list \<Rightarrow> frame fixed_slots \<Rightarrow> frame fixed_slots net_result option" where
  "fp_push_frames [] t = Some (Inr t)"
| "fp_push_frames (f # fs) t = do {
     (t1, r) \<leftarrow> fs_push f t;
     case r of Inl _ \<Rightarrow> Some (Inl error_buffer_overflow) | Inr _ \<Rightarrow> fp_push_frames fs t1
   }"

definition fp_send_fixed ::
  "nat \<Rightarrow> fast_packet \<Rightarrow> pgn \<Rightarrow> bytes \<Rightarrow> address \<Rightarrow> (fast_packet \<times> frame fixed_slots net_result) option" where
  "fp_send_fixed n e p data src =
     (if \<not> pgn_is_valid p then Some (e, Inl (error_invalid_pgn p))
      else if \<not> valid_fast_packet_source src then Some (e, Inl (error_invalid_address src))
      else if FAST_PACKET_MAX_DATA < of_nat (length data)
      then Some (fp_count_resource_rejection e, Inl error_buffer_overflow)
      else if of_nat (length data) \<le> CAN_DATA_LENGTH
      then Some (e, Inl (error_invalid_state ''use single frame for <= 8 bytes''))
      else if n < fp_total_frames (length data)
      then Some (fp_count_resource_rejection e, Inl error_buffer_overflow)
      else do {
        let seq = push_bit 5 (fp_tx_sequence_counter e AND 7);
        next \<leftarrow> checked_add (fp_tx_sequence_counter e) 1;
        let i = id_encode Default p src BROADCAST_ADDRESS;
        rest \<leftarrow> fp_subsequent_frames i seq data [1..<fp_total_frames (length data)] FIRST_FRAME_DATA;
        r \<leftarrow> fp_push_frames (fp_first_frame i seq data # rest) (fs_new n);
        Some (e\<lparr>fp_tx_sequence_counter := next AND 7\<rparr>, r)
      })"

section \<open>Receiving\<close>

definition fp_put :: "nat \<Rightarrow> fp_session \<Rightarrow> fast_packet \<Rightarrow> fast_packet" where
  "fp_put i s e = e\<lparr>fp_rx_sessions := (fp_rx_sessions e)[i := s]\<rparr>"

definition push_rx_session :: "fp_session \<Rightarrow> fast_packet \<Rightarrow> fast_packet" where
  "push_rx_session s e = e\<lparr>fp_rx_sessions := fp_rx_sessions e @ [s]\<rparr>"

definition remove_rx_session :: "nat \<Rightarrow> fast_packet \<Rightarrow> (fp_session \<times> fast_packet) option" where
  "remove_rx_session i e = do {
     (s, ss) \<leftarrow> swap_remove i (fp_rx_sessions e);
     Some (s, e\<lparr>fp_rx_sessions := ss\<rparr>)
   }"

definition fp_make_message :: "fp_session \<Rightarrow> message" where
  "fp_make_message s = \<lparr>msg_pgn = fps_pgn s, msg_data = fps_data s, msg_source = fps_source s,
     msg_destination = fps_destination s, msg_priority = fps_priority s,
     msg_timestamp_us = fps_last_timestamp_us s\<rparr>"

definition new_rx_payload :: "nat \<Rightarrow> bytes \<Rightarrow> bytes option" where
  "new_rx_payload n first = write_range 0 first (replicate n 0xFF)"

definition fp_matches :: "address \<Rightarrow> pgn \<Rightarrow> u8 \<Rightarrow> fp_session \<Rightarrow> bool" where
  "fp_matches src p seq s = (fps_source s = src \<and> fps_pgn s = p \<and> fps_sequence_counter s = seq)"

definition start_new_session ::
  "fast_packet \<Rightarrow> frame \<Rightarrow> pgn \<Rightarrow> address \<Rightarrow> u8 \<Rightarrow> (fast_packet \<times> fp_session option) option" where
  "start_new_session e f p src seq =
     (let total_bytes = ucast (fr_data f ! 1) :: u32
      in if total_bytes \<le> CAN_DATA_LENGTH \<or> FAST_PACKET_MAX_DATA < total_bytes
         then Some ((if FAST_PACKET_MAX_DATA < total_bytes then fp_count_resource_rejection else id)
                      (fp_count_dropped_frame e), None)
         else do {
           let copy_len = min (unat total_bytes) FIRST_FRAME_DATA;
           data \<leftarrow> new_rx_payload (unat total_bytes) (take copy_len (drop 2 (fr_data f)));
           let s = \<lparr>fps_pgn = p, fps_data = data, fps_total_bytes = total_bytes,
                    fps_bytes_received = of_nat copy_len, fps_source = src,
                    fps_destination = frame_destination f, fps_priority = frame_priority f,
                    fps_sequence_counter = seq, fps_expected_frame = 1, fps_timer_ms = 0,
                    fps_last_timestamp_us = fr_timestamp_us f\<rparr>;
           if fps_total_bytes s \<le> fps_bytes_received s then Some (e, Some s)
           else do {
             e1 \<leftarrow> (case position (fp_matches src p seq) (fp_rx_sessions e) of
                None \<Rightarrow> Some e
              | Some i \<Rightarrow> do {
                  (_, e') \<leftarrow> remove_rx_session i (fp_count_dropped_session e);
                  Some e'
                });
             if fp_max_rx_sessions e1 \<le> length (fp_rx_sessions e1)
             then Some (fp_count_resource_rejection (fp_count_dropped_frame e1), None)
             else Some (push_rx_session s e1, None)
           }
         })"

definition fp_ingest :: "frame \<Rightarrow> u8 \<Rightarrow> fp_session \<Rightarrow> fp_session option" where
  "fp_ingest f frame_counter s = do {
     let offset = FIRST_FRAME_DATA + (unat frame_counter - 1) * SUBSEQUENT_FRAME_DATA;
     data \<leftarrow> copy_in 1 offset (unat (fps_total_bytes s)) (fr_data f) [0..<SUBSEQUENT_FRAME_DATA] (fps_data s);
     Some (s\<lparr>fps_data := data,
        fps_bytes_received := min (of_nat (offset + SUBSEQUENT_FRAME_DATA)) (fps_total_bytes s),
        fps_expected_frame := fps_expected_frame s + 1, fps_timer_ms := 0,
        fps_last_timestamp_us := fr_timestamp_us f\<rparr>)
   }"

definition process_frame_session :: "fast_packet \<Rightarrow> frame \<Rightarrow> (fast_packet \<times> fp_session option) option" where
  "process_frame_session e f =
     (if fr_length f \<noteq> ucast CAN_DATA_LENGTH then Some (fp_count_dropped_frame e, None)
      else
        let frame_counter = fr_data f ! 0 AND 0x1F;
            seq = drop_bit 5 (fr_data f ! 0) AND 7;
            src = frame_source f;
            p = frame_pgn f
        in if \<not> valid_fast_packet_source src then Some (fp_count_dropped_frame e, None)
           else if frame_counter = 0 then start_new_session e f p src seq
           else case position (fp_matches src p seq) (fp_rx_sessions e) of
             None \<Rightarrow> Some (fp_count_dropped_frame e, None)
           | Some i \<Rightarrow>
               let s = fp_rx_sessions e ! i
               in if frame_counter \<noteq> fps_expected_frame s
                  then do {
                    (_, e') \<leftarrow> remove_rx_session i (fp_count_dropped_session (fp_count_dropped_frame e));
                    Some (e', None)
                  }
                  else do {
                    s1 \<leftarrow> fp_ingest f frame_counter s;
                    if fps_total_bytes s1 \<le> fps_bytes_received s1
                    then do {
                      (done_session, e') \<leftarrow> remove_rx_session i (fp_put i s1 e);
                      Some (e', Some done_session)
                    }
                    else Some (fp_put i s1 e, None)
                  })"

definition fp_process_frame :: "fast_packet \<Rightarrow> frame \<Rightarrow> (fast_packet \<times> message option) option" where
  "fp_process_frame e f = do {
     (e', s) \<leftarrow> process_frame_session e f;
     Some (e', map_option fp_make_message s)
   }"

definition fp_make_fixed_message :: "nat \<Rightarrow> fp_session \<Rightarrow> fixed_message net_result option" where
  "fp_make_fixed_message n s = do {
     r \<leftarrow> fm_with_addressing n (fps_pgn s) (fps_data s) (fps_source s) (fps_destination s) (fps_priority s);
     case r of
       Inl _ \<Rightarrow> Some (Inl error_buffer_overflow)
     | Inr m \<Rightarrow> Some (Inr (m\<lparr>fm_timestamp_us := fps_last_timestamp_us s\<rparr>))
   }"

definition fp_process_frame_fixed ::
  "nat \<Rightarrow> fast_packet \<Rightarrow> frame \<Rightarrow> (fast_packet \<times> fixed_message option net_result) option" where
  "fp_process_frame_fixed n e f = do {
     (e', s) \<leftarrow> process_frame_session e f;
     case s of
       None \<Rightarrow> Some (e', Inr None)
     | Some session \<Rightarrow> do {
         r \<leftarrow> fp_make_fixed_message n session;
         case r of
           Inl error \<Rightarrow> Some (fp_count_resource_rejection e', Inl error)
         | Inr m \<Rightarrow> Some (e', Inr (Some m))
       }
   }"

text \<open>The loop of \<open>update\<close> with one unit of fuel per session, as in the transport engine.\<close>

primrec fp_update_loop :: "nat \<Rightarrow> u32 \<Rightarrow> nat \<Rightarrow> fast_packet \<Rightarrow> fast_packet option" where
  "fp_update_loop 0 elapsed i e = (if i < length (fp_rx_sessions e) then None else Some e)"
| "fp_update_loop (Suc n) elapsed i e =
     (if i < length (fp_rx_sessions e)
      then
        let s0 = fp_rx_sessions e ! i;
            s = s0\<lparr>fps_timer_ms := saturating_add (fps_timer_ms s0) elapsed\<rparr>;
            e1 = fp_put i s e
        in if TP_TIMEOUT_T1_MS \<le> fps_timer_ms s
           then do {
             (_, e2) \<leftarrow> remove_rx_session i (fp_count_dropped_session (fp_count_timeout e1));
             fp_update_loop n elapsed i e2
           }
           else fp_update_loop n elapsed (i + 1) e1
      else Some e)"

definition fp_update :: "fast_packet \<Rightarrow> u32 \<Rightarrow> fast_packet option" where
  "fp_update e elapsed = fp_update_loop (length (fp_rx_sessions e)) elapsed 0 e"

end
