(* ===== verification/Fast_Packet_Transfer.thy ===== *)
theory Fast_Packet_Transfer
  imports Fast_Packet Session_Table
begin

unbundle bit_operations_syntax

text \<open>
  The invariant of the fast-packet receiver, the safety of every operation, and the delivery of a
  whole packet into a receiver that may be assembling others.
\<close>

section \<open>Frames\<close>

lemma fp_header:
  fixes c :: u8
  assumes "k < 32"
  shows "(push_bit 5 (c AND 7) OR of_nat k) AND 0x1F = of_nat k"
    and "drop_bit 5 (push_bit 5 (c AND 7) OR of_nat k) AND 7 = c AND 7"
proof -
  have "(of_nat k :: u8) < 2 ^ 5" using assms by (simp add: word_less_nat_alt unat_of_nat)
  then have "(of_nat k :: u8) AND mask 5 = of_nat k" by (rule less_mask_eq)
  then have k: "bit (of_nat k :: u8) j \<Longrightarrow> j < 5" for j by (metis bit_and_iff bit_mask_iff)
  have m: "(0x1F :: u8) = mask 5" "(7 :: u8) = mask 3" by (simp_all add: mask_eq_exp_minus_1)
  show "(push_bit 5 (c AND 7) OR of_nat k) AND 0x1F = of_nat k"
    unfolding m using k by (intro bit_word_eqI) (auto simp: bit_and_iff bit_or_iff bit_push_bit_iff bit_mask_iff)
  show "drop_bit 5 (push_bit 5 (c AND 7) OR of_nat k) AND 7 = c AND 7"
    unfolding m using k
    by (intro bit_word_eqI) (auto simp: bit_and_iff bit_or_iff bit_push_bit_iff bit_mask_iff bit_drop_bit_eq)
qed

definition fp_data_frame :: "can_identifier \<Rightarrow> u8 \<Rightarrow> bytes \<Rightarrow> nat \<Rightarrow> frame" where
  "fp_data_frame i seq data k =
     frame8 i (copied_out 1 (6 + 7 * (k - 1)) (length data) 7 data ((replicate 8 0xFF)[0 := seq OR of_nat k]))"

lemma fp_subsequent_eq:
  "fp_subsequent_frames i seq data [Suc k..<n] (6 + 7 * k) = Some (map (fp_data_frame i seq data) [Suc k..<n])"
proof (induction "n - Suc k" arbitrary: k)
  case 0
  then show ?case by simp
next
  case (Suc m)
  then have lt: "Suc k < n" by simp
  have off: "6 + 7 * k + 7 = 6 + 7 * Suc k" by simp
  have "fp_subsequent_frames i seq data [Suc (Suc k)..<n] (6 + 7 * Suc k) =
      Some (map (fp_data_frame i seq data) [Suc (Suc k)..<n])"
    using Suc by (intro Suc.hyps(1)) simp
  then show ?case
    using lt unfolding upt_conv_Cons [OF lt]
    by (simp only: fp_subsequent_frames.simps SUBSEQUENT_FRAME_DATA_def off)
      (simp add: copy_out_eq fp_data_frame_def del: of_nat_Suc)
qed

definition fp_frames :: "can_identifier \<Rightarrow> u8 \<Rightarrow> bytes \<Rightarrow> frame list" where
  "fp_frames i seq data =
     fp_first_frame i seq data # map (fp_data_frame i seq data) [1..<fp_total_frames (length data)]"

definition fp_sendable :: "pgn \<Rightarrow> bytes \<Rightarrow> address \<Rightarrow> bool" where
  "fp_sendable p data src \<longleftrightarrow> pgn_is_valid p \<and> valid_fast_packet_source src
     \<and> 9 \<le> length data \<and> length data \<le> 223"

lemma fp_send_to_eq:
  assumes "fp_sendable p data src" and "unat (fp_tx_sequence_counter e) < 8"
  shows "fp_send_to e p data src dst prio =
    Some (e\<lparr>fp_tx_sequence_counter := (fp_tx_sequence_counter e + 1) AND 7\<rparr>,
      Inr (fp_frames (id_encode prio p src dst) (push_bit 5 (fp_tx_sequence_counter e AND 7)) data))"
proof -
  have len: "unat (of_nat (length data) :: u32) = length data"
    using assms(1) by (simp add: fp_sendable_def unat_of_nat)
  have "checked_add (fp_tx_sequence_counter e) 1 = Some (fp_tx_sequence_counter e + 1)"
    using assms(2) by (intro checked_add_Some) simp
  moreover have "fp_more_frames (length data) < 32"
    using assms(1) by (auto simp: fp_sendable_def fp_more_frames_def fp_consts)
  then have "checked_add (1 :: u8) (of_nat (fp_more_frames (length data))) = Some (1 + of_nat (fp_more_frames (length data)))"
    "unat (1 + of_nat (fp_more_frames (length data)) :: u8) = fp_total_frames (length data)"
    by (simp_all add: checked_add_Some unat_of_nat unat_word_ariths fp_total_frames_def)
  ultimately show ?thesis
    using assms(1) len fp_subsequent_eq [of _ _ data 0]
    by (simp add: fp_send_to_def fp_sendable_def limit_consts word_less_nat_alt word_le_nat_alt
        FIRST_FRAME_DATA_def fp_frames_def Let_def)
qed

lemma fp_total_frames_eq:
  "9 \<le> n \<Longrightarrow> 6 + 7 * (k - 1) < n \<and> 1 \<le> k \<longleftrightarrow> 1 \<le> k \<and> k < fp_total_frames n"
  by (auto simp: fp_total_frames_def fp_more_frames_def fp_consts)

section \<open>The receiver's invariant\<close>

definition fp_key :: "fp_session \<Rightarrow> address \<times> pgn \<times> u8" where
  "fp_key s = (fps_source s, fps_pgn s, fps_sequence_counter s)"

definition fps_wf :: "fp_session \<Rightarrow> bool" where
  "fps_wf s \<longleftrightarrow> unat (fps_total_bytes s) = length (fps_data s) \<and> 9 \<le> length (fps_data s)
     \<and> length (fps_data s) \<le> 223 \<and> valid_fast_packet_source (fps_source s)
     \<and> 1 \<le> unat (fps_expected_frame s) \<and> unat (fps_expected_frame s) < fp_total_frames (length (fps_data s))
     \<and> unat (fps_bytes_received s) = 6 + 7 * (unat (fps_expected_frame s) - 1)"

definition fp_sessions_ok :: "fp_session list \<Rightarrow> bool" where
  "fp_sessions_ok ss \<longleftrightarrow> (\<forall>s \<in> set ss. fps_wf s) \<and> distinct (map fp_key ss)"

definition fp_inv :: "fast_packet \<Rightarrow> bool" where
  "fp_inv e \<longleftrightarrow> unat (fp_tx_sequence_counter e) < 8 \<and> fp_sessions_ok (fp_rx_sessions e)"

lemma fp_matches_key: "fp_matches src p seq s \<longleftrightarrow> fp_key s = (src, p, seq)"
  by (auto simp: fp_matches_def fp_key_def)

lemma fp_count_simps [simp]:
  "fp_rx_sessions (fp_count_dropped_frame e) = fp_rx_sessions e"
  "fp_rx_sessions (fp_count_dropped_session e) = fp_rx_sessions e"
  "fp_rx_sessions (fp_count_resource_rejection e) = fp_rx_sessions e"
  "fp_rx_sessions (fp_count_timeout e) = fp_rx_sessions e"
  "fp_rx_sessions (fp_put i s e) = (fp_rx_sessions e)[i := s]"
  "fp_rx_sessions (push_rx_session s e) = fp_rx_sessions e @ [s]"
  "fp_tx_sequence_counter (fp_count_dropped_frame e) = fp_tx_sequence_counter e"
  "fp_tx_sequence_counter (fp_count_dropped_session e) = fp_tx_sequence_counter e"
  "fp_tx_sequence_counter (fp_count_resource_rejection e) = fp_tx_sequence_counter e"
  "fp_tx_sequence_counter (fp_count_timeout e) = fp_tx_sequence_counter e"
  "fp_tx_sequence_counter (fp_put i s e) = fp_tx_sequence_counter e"
  "fp_tx_sequence_counter (push_rx_session s e) = fp_tx_sequence_counter e"
  "fp_max_rx_sessions (fp_count_dropped_session e) = fp_max_rx_sessions e"
  "fp_max_rx_sessions (fp_put i s e) = fp_max_rx_sessions e"
  by (simp_all add: fp_count_defs fp_put_def push_rx_session_def)

lemma fp_sessions_ok_keyed: "fp_sessions_ok = keyed_ok fps_wf fp_key"
  by (simp add: fp_sessions_ok_def keyed_ok_def fun_eq_iff)

lemmas fp_sessions_ok_remove = keyed_ok_remove [of fps_wf fp_key, folded fp_sessions_ok_keyed]

lemmas fp_sessions_ok_update = keyed_ok_update [of fps_wf fp_key, folded fp_sessions_ok_keyed]

lemma remove_rx_session_Some [panic_simps]:
  "i < length (fp_rx_sessions e) \<Longrightarrow> remove_rx_session i e =
     Some (fp_rx_sessions e ! i, e\<lparr>fp_rx_sessions := butlast ((fp_rx_sessions e)[i := last (fp_rx_sessions e)])\<rparr>)"
  by (simp add: remove_rx_session_def swap_remove_Some)

section \<open>The first frame\<close>

definition fp_opened :: "frame \<Rightarrow> u8 \<Rightarrow> fp_session" where
  "fp_opened f seq =
     \<lparr>fps_pgn = frame_pgn f,
      fps_data = take 6 (drop 2 (fr_data f)) @ replicate (unat (fr_data f ! 1) - 6) 0xFF,
      fps_total_bytes = ucast (fr_data f ! 1), fps_bytes_received = 6, fps_source = frame_source f,
      fps_destination = frame_destination f, fps_priority = frame_priority f,
      fps_sequence_counter = seq, fps_expected_frame = 1, fps_timer_ms = 0,
      fps_last_timestamp_us = fr_timestamp_us f\<rparr>"

definition fp_without :: "address \<times> pgn \<times> u8 \<Rightarrow> fast_packet \<Rightarrow> fast_packet" where
  "fp_without key e =
     (case position (\<lambda>s. fp_key s = key) (fp_rx_sessions e) of
        None \<Rightarrow> e
      | Some i \<Rightarrow> (fp_count_dropped_session e)\<lparr>fp_rx_sessions :=
          butlast ((fp_rx_sessions e)[i := last (fp_rx_sessions e)])\<rparr>)"

lemma start_new_session_eq:
  fixes e :: fast_packet and seq :: u8
  assumes "wf_frame f" and "9 \<le> unat (fr_data f ! 1)" and "unat (fr_data f ! 1) \<le> 223"
  defines "e1 \<equiv> fp_without (frame_source f, frame_pgn f, seq) e"
  shows "start_new_session e f (frame_pgn f) (frame_source f) seq =
    (if fp_max_rx_sessions e1 \<le> length (fp_rx_sessions e1)
     then Some (fp_count_resource_rejection (fp_count_dropped_frame e1), None)
     else Some (push_rx_session (fp_opened f seq) e1, None))"
proof -
  let ?n = "unat (fr_data f ! 1)"
  have data: "new_rx_payload ?n (take 6 (drop 2 (fr_data f))) =
      Some (take 6 (drop 2 (fr_data f)) @ replicate (?n - 6) 0xFF)"
    using assms(1,2) by (simp add: new_rx_payload_def write_range_def wf_frame_def)
  have "(case position (fp_matches (frame_source f) (frame_pgn f) seq) (fp_rx_sessions e) of
        None \<Rightarrow> Some e
      | Some i \<Rightarrow> do {
          (_, e') \<leftarrow> remove_rx_session i (fp_count_dropped_session e);
          Some e'
        }) = Some e1"
    by (auto simp: e1_def fp_without_def fp_matches_key [abs_def] remove_rx_session_Some
        split: option.splits dest: position_SomeD)
  then show ?thesis
    using assms(2,3) data
    by (simp add: start_new_session_def Let_def limit_consts word_le_nat_alt word_less_nat_alt fp_consts
        fp_opened_def min_def)
qed

lemma fp_without_inv:
  assumes "fp_inv e"
  shows "fp_inv (fp_without key e)" and "key \<notin> fp_key ` set (fp_rx_sessions (fp_without key e))"
    and "fp_max_rx_sessions (fp_without key e) = fp_max_rx_sessions e"
    and "set (fp_rx_sessions (fp_without key e)) = {s \<in> set (fp_rx_sessions e). fp_key s \<noteq> key}"
proof -
  have ok: "fp_sessions_ok (fp_rx_sessions e)" using assms by (simp add: fp_inv_def)
  show *: "set (fp_rx_sessions (fp_without key e)) = {s \<in> set (fp_rx_sessions e). fp_key s \<noteq> key}"
  proof (cases "position (\<lambda>s. fp_key s = key) (fp_rx_sessions e)")
    case None
    then have "\<forall>s \<in> set (fp_rx_sessions e). fp_key s \<noteq> key" by (simp add: position_None_iff)
    then show ?thesis using None by (auto simp: fp_without_def)
  next
    case (Some i)
    then show ?thesis
      using position_SomeD [OF Some] ok set_swap_remove [of i "fp_rx_sessions e" fp_key]
      by (simp add: fp_without_def fp_sessions_ok_def)
  qed
  show "fp_inv (fp_without key e)"
    using assms by (auto simp: fp_without_def fp_inv_def fp_sessions_ok_remove split: option.splits
        dest: position_SomeD)
  show "key \<notin> fp_key ` set (fp_rx_sessions (fp_without key e))" unfolding * by auto
  show "fp_max_rx_sessions (fp_without key e) = fp_max_rx_sessions e"
    by (simp add: fp_without_def split: option.splits)
qed

lemma fp_opened_wf:
  assumes "wf_frame f" and "9 \<le> unat (fr_data f ! 1)" and "unat (fr_data f ! 1) \<le> 223"
    and "valid_fast_packet_source (frame_source f)"
  shows "fps_wf (fp_opened f seq)" and "fp_key (fp_opened f seq) = (frame_source f, frame_pgn f, seq)"
proof -
  have "1 < fp_total_frames (unat (fr_data f ! 1))" using assms(2) by (simp add: fp_total_frames_def fp_more_frames_def fp_consts)
  then show "fps_wf (fp_opened f seq)" using assms by (simp add: fps_wf_def fp_opened_def wf_frame_def)
  show "fp_key (fp_opened f seq) = (frame_source f, frame_pgn f, seq)" by (simp add: fp_key_def fp_opened_def)
qed

lemma start_new_session_safe:
  assumes "fp_inv e" and "wf_frame f" and "valid_fast_packet_source (frame_source f)"
  shows "\<exists>e'. start_new_session e f (frame_pgn f) (frame_source f) seq = Some (e', None) \<and> fp_inv e'"
proof (cases "9 \<le> unat (fr_data f ! 1) \<and> unat (fr_data f ! 1) \<le> 223")
  case False
  then show ?thesis
    using assms(1)
    by (auto simp: start_new_session_def Let_def limit_consts word_le_nat_alt word_less_nat_alt fp_inv_def)
next
  case True
  let ?e1 = "fp_without (frame_source f, frame_pgn f, seq) e"
  note w = fp_without_inv [OF assms(1), of "(frame_source f, frame_pgn f, seq)"]
  have "fp_inv (push_rx_session (fp_opened f seq) ?e1)"
    using w(1,2) fp_opened_wf [OF assms(2) _ _ assms(3)] True by (auto simp: fp_inv_def fp_sessions_ok_def)
  then show ?thesis
    using start_new_session_eq [OF assms(2)] True w(1) by (auto simp: fp_inv_def)
qed

section \<open>The following frames\<close>

definition fp_stored :: "nat \<Rightarrow> frame \<Rightarrow> fp_session \<Rightarrow> fp_session" where
  "fp_stored k f s = s\<lparr>
     fps_data := copied_in 1 (6 + 7 * (k - 1)) (length (fps_data s)) 7 (fr_data f) (fps_data s),
     fps_bytes_received := of_nat (min (6 + 7 * k) (length (fps_data s))),
     fps_expected_frame := of_nat (Suc k), fps_timer_ms := 0, fps_last_timestamp_us := fr_timestamp_us f\<rparr>"

lemma fp_total_frames_le: "9 \<le> n \<Longrightarrow> n \<le> 6 + 7 * k \<longleftrightarrow> fp_total_frames n \<le> Suc k"
  by (auto simp: fp_total_frames_def fp_more_frames_def fp_consts)

lemma fp_total_frames_32: "n \<le> 223 \<Longrightarrow> fp_total_frames n \<le> 32"
  by (simp add: fp_total_frames_def fp_more_frames_def fp_consts)

lemma fp_stored_done:
  assumes "fps_wf s" and "k < fp_total_frames (length (fps_data s))"
  shows "fps_total_bytes (fp_stored k f s) \<le> fps_bytes_received (fp_stored k f s)
    \<longleftrightarrow> Suc k = fp_total_frames (length (fps_data s))"
proof -
  have "unat (of_nat (min (6 + 7 * k) (length (fps_data s))) :: u32) = min (6 + 7 * k) (length (fps_data s))"
    using assms(1) by (simp add: fps_wf_def unat_of_nat min_less_iff_disj)
  then show ?thesis
    using assms fp_total_frames_le [of "length (fps_data s)" k]
    by (auto simp: fp_stored_def word_le_nat_alt fps_wf_def min_def split: if_splits)
qed

lemma fp_stored_wf:
  assumes "fps_wf s" and "unat (fps_expected_frame s) = k" and "Suc k < fp_total_frames (length (fps_data s))"
  shows "fps_wf (fp_stored k f s)" and "fp_key (fp_stored k f s) = fp_key s"
proof -
  have len: "9 \<le> length (fps_data s)" "length (fps_data s) \<le> 223" "1 \<le> k"
    using assms(1,2) by (simp_all add: fps_wf_def)
  then have "min (6 + 7 * k) (length (fps_data s)) = 6 + 7 * k"
    using fp_total_frames_le [of "length (fps_data s)" k] assms(3) by linarith
  moreover have "unat (of_nat (Suc k) :: u8) = Suc k"
    using fp_total_frames_32 [OF len(2)] assms(3) by (simp add: unat_of_nat del: of_nat_Suc)
  moreover have "unat (of_nat (6 + 7 * k) :: u32) = 6 + 7 * k"
    using fp_total_frames_32 [OF len(2)] assms(3) by (subst unat_of_nat) simp
  ultimately show "fps_wf (fp_stored k f s)"
    using assms len by (simp add: fps_wf_def fp_stored_def del: of_nat_Suc of_nat_add of_nat_mult)
  show "fp_key (fp_stored k f s) = fp_key s" by (simp add: fp_key_def fp_stored_def)
qed

lemma process_next_eq:
  assumes "wf_frame f" and "fr_length f = 8" and "valid_fast_packet_source (frame_source f)"
    and "fr_data f ! 0 AND 0x1F \<noteq> 0" and i: "i < length (fp_rx_sessions e)"
    and pos: "position (fp_matches (frame_source f) (frame_pgn f) (drop_bit 5 (fr_data f ! 0) AND 7))
      (fp_rx_sessions e) = Some i"
    and wf: "fps_wf (fp_rx_sessions e ! i)"
  defines "s \<equiv> fp_rx_sessions e ! i" and "k \<equiv> unat (fr_data f ! 0 AND 0x1F)"
  shows "\<exists>e'. process_frame_session e f =
      (if k \<noteq> unat (fps_expected_frame s) then Some (e', None)
       else if Suc k = fp_total_frames (length (fps_data s)) then Some (e', Some (fp_stored k f s))
       else Some (fp_put i (fp_stored k f s) e, None))
    \<and> fp_rx_sessions e' = butlast ((fp_rx_sessions e)[i := last (fp_rx_sessions e)])
    \<and> fp_tx_sequence_counter e' = fp_tx_sequence_counter e"
proof (cases "k = unat (fps_expected_frame s)")
  case False
  then have "fr_data f ! 0 AND 0x1F \<noteq> fps_expected_frame s" by (auto simp: k_def)
  then show ?thesis
    using assms(1-4) i pos False
    by (simp add: process_frame_session_def Let_def limit_consts remove_rx_session_Some s_def)
next
  case True
  have fc: "fr_data f ! 0 AND 0x1F = fps_expected_frame s"
    using True by (simp add: k_def word_unat_eq_iff)
  have len: "unat (fps_total_bytes s) = length (fps_data s)" "length (fps_data s) \<le> 223"
    "k < fp_total_frames (length (fps_data s))"
    using wf True by (simp_all add: fps_wf_def s_def)
  have k: "k < 32" using fp_total_frames_32 [OF len(2)] len(3) by linarith
  have exp: "fps_expected_frame s + 1 = of_nat (Suc k)" using True by (simp add: add.commute)
  have rec: "min (of_nat (6 + (k - 1) * 7 + 7)) (fps_total_bytes s) = (of_nat (min (6 + 7 * k) (length (fps_data s))) :: u32)"
  proof (rule of_nat_unat_word [symmetric])
    have "1 \<le> k" using assms(4) by (simp add: k_def Suc_le_eq unat_gt_0)
    then have "6 + (k - 1) * 7 + 7 = 6 + 7 * k" by (cases k) simp_all
    then show "unat (min (of_nat (6 + (k - 1) * 7 + 7)) (fps_total_bytes s)) = min (6 + 7 * k) (length (fps_data s))"
      using k len(1) by (simp add: min_def word_le_nat_alt unat_of_nat del: of_nat_add of_nat_mult)
  qed
  let ?s1 = "fp_stored k f s"
  have "copy_in 1 (6 + (k - 1) * 7) (unat (fps_total_bytes s)) (fr_data f) [0..<7] (fps_data s)
      = Some (fps_data ?s1)"
    using assms(1) len(1) by (simp add: copy_in_eq wf_frame_def fp_stored_def mult.commute)
  then have "fp_ingest f (fps_expected_frame s) s = Some ?s1"
    unfolding fp_ingest_def fp_consts Let_def True [symmetric] rec exp by (simp add: fp_stored_def)
  then have "process_frame_session e f = (if fps_total_bytes ?s1 \<le> fps_bytes_received ?s1
      then Some ((fp_put i ?s1 e)\<lparr>fp_rx_sessions := butlast ((fp_rx_sessions e)[i := last (fp_rx_sessions e)])\<rparr>, Some ?s1)
      else Some (fp_put i ?s1 e, None))"
    using assms(2-4) pos fc i
    by (simp add: process_frame_session_def Let_def limit_consts remove_rx_session_Some swap_remove_update
        flip: s_def)
  then show ?thesis
    using True fp_stored_done [of s k f] wf len(3)
    by (intro exI [of _ "e\<lparr>fp_rx_sessions := butlast ((fp_rx_sessions e)[i := last (fp_rx_sessions e)])\<rparr>"])
      (simp add: s_def fp_put_def)
qed

lemma process_frame_session_safe:
  assumes "fp_inv e" and "wf_frame f"
  shows "\<exists>e' r. process_frame_session e f = Some (e', r) \<and> fp_inv e'
    \<and> (\<forall>s. r = Some s \<longrightarrow> 9 \<le> length (fps_data s) \<and> length (fps_data s) \<le> 223)"
proof -
  have drop: "fp_inv (fp_count_dropped_frame e)" using assms(1) by (simp add: fp_inv_def)
  let ?seq = "drop_bit 5 (fr_data f ! 0) AND 7" and ?P = "fp_matches (frame_source f) (frame_pgn f) (drop_bit 5 (fr_data f ! 0) AND 7)"
  consider (dropped) "fr_length f \<noteq> 8 \<or> \<not> valid_fast_packet_source (frame_source f)
        \<or> fr_data f ! 0 AND 0x1F \<noteq> 0 \<and> position ?P (fp_rx_sessions e) = None"
    | (first) "fr_length f = 8" "valid_fast_packet_source (frame_source f)" "fr_data f ! 0 AND 0x1F = 0"
    | (later) i where "fr_length f = 8" "valid_fast_packet_source (frame_source f)" "fr_data f ! 0 AND 0x1F \<noteq> 0"
        "position ?P (fp_rx_sessions e) = Some i"
    by (cases "position ?P (fp_rx_sessions e)") blast+
  then show ?thesis
  proof cases
    case dropped
    then show ?thesis using drop start_new_session_safe [OF assms, of ?seq]
      by (auto simp: process_frame_session_def Let_def limit_consts)
  next
    case first
    then show ?thesis using start_new_session_safe [OF assms, of ?seq]
      by (auto simp: process_frame_session_def Let_def limit_consts)
  next
    case later
    let ?s = "fp_rx_sessions e ! i" and ?k = "unat (fr_data f ! 0 AND 0x1F)"
    have i: "i < length (fp_rx_sessions e)" using position_SomeD [OF later(4)] by simp
    have ok: "fp_sessions_ok (fp_rx_sessions e)" using assms(1) by (simp add: fp_inv_def)
    have wf: "fps_wf ?s" using ok i by (simp add: fp_sessions_ok_def)
    obtain e' where e': "process_frame_session e f =
      (if ?k \<noteq> unat (fps_expected_frame ?s) then Some (e', None)
       else if Suc ?k = fp_total_frames (length (fps_data ?s)) then Some (e', Some (fp_stored ?k f ?s))
       else Some (fp_put i (fp_stored ?k f ?s) e, None))"
      "fp_rx_sessions e' = butlast ((fp_rx_sessions e)[i := last (fp_rx_sessions e)])"
      "fp_tx_sequence_counter e' = fp_tx_sequence_counter e"
      using process_next_eq [OF assms(2) later(1-3) i later(4) wf] by blast
    have inv: "fp_inv e'" using e'(2,3) assms(1) fp_sessions_ok_remove [OF ok i] by (simp add: fp_inv_def)
    have len: "length (fps_data (fp_stored ?k f ?s)) = length (fps_data ?s)" by (simp add: fp_stored_def)
    show ?thesis
    proof (cases "?k = unat (fps_expected_frame ?s) \<and> Suc ?k \<noteq> fp_total_frames (length (fps_data ?s))")
      case True
      then have "Suc ?k < fp_total_frames (length (fps_data ?s))" using wf by (simp add: fps_wf_def)
      then have "fp_inv (fp_put i (fp_stored ?k f ?s) e)"
        using fp_stored_wf [OF wf] True assms(1) fp_sessions_ok_update [OF ok i] by (simp add: fp_inv_def)
      then show ?thesis using e'(1) True by simp
    next
      case False
      then show ?thesis using e'(1) inv len wf by (auto simp: fps_wf_def)
    qed
  qed
qed

section \<open>Time\<close>

definition fp_tick :: "u32 \<Rightarrow> fp_session \<Rightarrow> fp_session option" where
  "fp_tick elapsed s =
     (let t = saturating_add (fps_timer_ms s) elapsed
      in if TP_TIMEOUT_T1_MS \<le> t then None else Some (s\<lparr>fps_timer_ms := t\<rparr>))"

text \<open>The body of the loop at one index; the loop of this engine puts out nothing.\<close>

definition fp_visit :: "u32 \<Rightarrow> nat \<Rightarrow> fast_packet \<Rightarrow> (fast_packet \<times> unit list \<times> bool) option" where
  "fp_visit elapsed i e =
     (let s0 = fp_rx_sessions e ! i;
          s = s0\<lparr>fps_timer_ms := saturating_add (fps_timer_ms s0) elapsed\<rparr>;
          e1 = fp_put i s e
      in if TP_TIMEOUT_T1_MS \<le> fps_timer_ms s
         then do {
           (_, e2) \<leftarrow> remove_rx_session i (fp_count_dropped_session (fp_count_timeout e1));
           Some (e2, [], True)
         }
         else Some (e1, [], False))"

lemma fp_visit_eq:
  assumes "fp_inv e" and "i < length (fp_rx_sessions e)"
  shows "\<exists>e'. fp_visit elapsed i e = Some (e', [], fp_tick elapsed (fp_rx_sessions e ! i) = None) \<and> fp_inv e'
    \<and> fp_rx_sessions e' = (case fp_tick elapsed (fp_rx_sessions e ! i) of
          None \<Rightarrow> butlast ((fp_rx_sessions e)[i := last (fp_rx_sessions e)])
        | Some s \<Rightarrow> (fp_rx_sessions e)[i := s])"
proof -
  let ?old = "fp_rx_sessions e ! i"
  let ?s = "?old\<lparr>fps_timer_ms := saturating_add (fps_timer_ms ?old) elapsed\<rparr>"
  have ok: "fp_sessions_ok (fp_rx_sessions e)" using assms(1) by (simp add: fp_inv_def)
  then have "fps_wf ?s" "fp_key ?s = fp_key ?old"
    using assms(2) by (simp_all add: fp_sessions_ok_def fps_wf_def fp_key_def)
  from fp_sessions_ok_update [OF ok assms(2) this] show ?thesis
    using assms fp_sessions_ok_remove [OF ok assms(2)]
    by (simp add: fp_visit_def fp_tick_def Let_def remove_rx_session_Some swap_remove_update fp_inv_def)
qed

interpretation fp_ticks: tick_loop fp_rx_sessions fp_inv "\<lambda>s. (fp_tick elapsed s, [] :: unit list)"
  "fp_visit elapsed" "\<lambda>n i e. map_option (\<lambda>e'. (e', [])) (fp_update_loop n elapsed i e)"
  for elapsed
proof unfold_locales
  show "map_option (\<lambda>e'. (e', [])) (fp_update_loop (Suc n) elapsed i e) =
      (if i < length (fp_rx_sessions e)
       then do {
         (e1, out, removed) \<leftarrow> fp_visit elapsed i e;
         (e2, more) \<leftarrow> map_option (\<lambda>e'. (e', [])) (fp_update_loop n elapsed (if removed then i else i + 1) e1);
         Some (e2, out @ more)
       }
       else Some (e, []))" for n i e
    by (auto simp: fp_visit_def Let_def map_option_case split: bind_splits option.splits)
qed (use fp_visit_eq in auto)

lemma fp_update_eq:
  assumes "fp_inv e"
  shows "\<exists>e'. fp_update e elapsed = Some e' \<and> fp_inv e'
    \<and> mset (fp_rx_sessions e') = mset (List.map_filter (fp_tick elapsed) (fp_rx_sessions e))"
  using fp_ticks.loop_all [OF assms, of elapsed] by (auto simp: fp_update_def comp_def)

section \<open>Runs\<close>

datatype fp_input =
    FpSend pgn bytes address address priority
  | FpFrame frame
  | FpUpdate u32
  | FpSetMax nat
  | FpClearStats

datatype fp_output = FpSent frame | FpReceived message

definition fp_step :: "fp_input \<Rightarrow> fast_packet \<Rightarrow> (fast_packet \<times> fp_output list) option" where
  "fp_step i e =
     (case i of
        FpSend p data src dst prio \<Rightarrow> do {
          (e', r) \<leftarrow> fp_send_to e p data src dst prio;
          case r of Inl _ \<Rightarrow> Some (e', []) | Inr frames \<Rightarrow> Some (e', map FpSent frames)
        }
      | FpFrame f \<Rightarrow> do {
          (e', r) \<leftarrow> fp_process_frame e f;
          case r of None \<Rightarrow> Some (e', []) | Some m \<Rightarrow> Some (e', [FpReceived m])
        }
      | FpUpdate ms \<Rightarrow> do { e' \<leftarrow> fp_update e ms; Some (e', []) }
      | FpSetMax n \<Rightarrow> Some (fp_set_max_rx_sessions n e, [])
      | FpClearStats \<Rightarrow> Some (fp_clear_stats e, []))"

definition fp_admissible :: "fp_input \<Rightarrow> bool" where
  "fp_admissible i = (case i of FpSend p data src dst prio \<Rightarrow> length data < 2 ^ 32 | FpFrame f \<Rightarrow> wf_frame f | _ \<Rightarrow> True)"

definition fp_output_ok :: "fp_output \<Rightarrow> bool" where
  "fp_output_ok out = (case out of FpSent f \<Rightarrow> wf_frame f \<and> fr_length f = 8
     | FpReceived m \<Rightarrow> 9 \<le> length (msg_data m) \<and> length (msg_data m) \<le> 223)"

lemma fp_frames_ok: "9 \<le> length data \<Longrightarrow> f \<in> set (fp_frames i seq data) \<Longrightarrow> wf_frame f \<and> fr_length f = 8"
  by (auto simp: fp_frames_def fp_first_frame_def fp_data_frame_def Let_def FIRST_FRAME_DATA_def)

lemma unat_and_7: "unat (w AND 7 :: u8) < 8"
  using word_and_le1 [of w 7] by (simp add: word_le_nat_alt)

lemma fp_send_to_safe:
  assumes "fp_inv e" and "length data < 2 ^ 32"
  shows "\<exists>e' r. fp_send_to e p data src dst prio = Some (e', r) \<and> fp_inv e'
    \<and> (\<forall>fs. r = Inr fs \<longrightarrow> (\<forall>f \<in> set fs. wf_frame f \<and> fr_length f = 8))"
proof (cases "fp_sendable p data src")
  case True
  have c: "unat (fp_tx_sequence_counter e) < 8" using assms(1) by (simp add: fp_inv_def)
  have "9 \<le> length data" using True by (simp add: fp_sendable_def)
  then show ?thesis
    using fp_send_to_eq [OF True c] fp_frames_ok [of data] assms(1) by (auto simp: fp_inv_def unat_and_7)
next
  case False
  have "unat (of_nat (length data) :: u32) = length data" using assms(2) by (simp add: unat_of_nat)
  then show ?thesis
    using False assms(1)
    by (auto simp: fp_send_to_def fp_sendable_def limit_consts word_less_nat_alt word_le_nat_alt fp_inv_def)
qed

lemma fp_step_safe:
  assumes "fp_inv e" and "fp_admissible i"
  shows "\<exists>e' out. fp_step i e = Some (e', out) \<and> fp_inv e' \<and> (\<forall>x \<in> set out. fp_output_ok x)"
proof (cases i)
  case (FpSend p data src dst prio)
  then obtain e' r where r: "fp_send_to e p data src dst prio = Some (e', r)" "fp_inv e'"
    "\<forall>fs. r = Inr fs \<longrightarrow> (\<forall>f \<in> set fs. wf_frame f \<and> fr_length f = 8)"
    using fp_send_to_safe [OF assms(1)] assms(2) by (fastforce simp: fp_admissible_def)
  then show ?thesis using FpSend by (cases r) (auto simp: fp_step_def fp_output_ok_def)
next
  case (FpFrame f)
  then obtain e' r where r: "process_frame_session e f = Some (e', r)" "fp_inv e'"
    "\<forall>s. r = Some s \<longrightarrow> 9 \<le> length (fps_data s) \<and> length (fps_data s) \<le> 223"
    using process_frame_session_safe [OF assms(1)] assms(2) by (fastforce simp: fp_admissible_def)
  then show ?thesis
    using FpFrame by (cases r) (auto simp: fp_step_def fp_process_frame_def fp_output_ok_def fp_make_message_def)
next
  case (FpUpdate ms)
  then show ?thesis using fp_update_eq [OF assms(1), of ms] by (auto simp: fp_step_def)
qed (use assms in \<open>simp_all add: fp_step_def fp_inv_def fp_set_max_rx_sessions_def fp_clear_stats_def\<close>)

interpretation fast: safe_system fp_step fp_inv fp_admissible fp_output_ok
  by unfold_locales (rule fp_step_safe)

lemma fp_new_inv: "fp_inv fp_new"
  by (simp add: fp_inv_def fp_new_def fp_sessions_ok_def)

section \<open>Delivery\<close>

text \<open>
  The packet of a message \<open>m\<close> sent with sequence counter \<open>c\<close>, and a session that has received its
  first \<open>k\<close> frames.
\<close>

definition packet_frames :: "message \<Rightarrow> u8 \<Rightarrow> frame list" where
  "packet_frames m c =
     fp_frames (id_encode (msg_priority m) (msg_pgn m) (msg_source m) (msg_destination m))
       (push_bit 5 (c AND 7)) (msg_data m)"

definition packet_key :: "message \<Rightarrow> u8 \<Rightarrow> address \<times> pgn \<times> u8" where
  "packet_key m c = (msg_source m, pgn_normalize (msg_pgn m), c AND 7)"

definition received_as :: "message \<Rightarrow> message" where
  "received_as m = m\<lparr>msg_pgn := pgn_normalize (msg_pgn m),
     msg_destination := (if pgn_is_pdu2 (msg_pgn m) then BROADCAST_ADDRESS else msg_destination m),
     msg_timestamp_us := 0\<rparr>"

definition fp_at :: "message \<Rightarrow> u8 \<Rightarrow> nat \<Rightarrow> fp_session \<Rightarrow> bool" where
  "fp_at m c k s \<longleftrightarrow> fp_key s = packet_key m c \<and> fps_destination s = msg_destination (received_as m)
     \<and> fps_priority s = msg_priority m \<and> fps_data s = partial_copy 0xFF (msg_data m) (6 + 7 * (k - 1))
     \<and> unat (fps_expected_frame s) = k"

definition frame_key :: "frame \<Rightarrow> address \<times> pgn \<times> u8" where
  "frame_key f = (frame_source f, frame_pgn f, drop_bit 5 (fr_data f ! 0) AND 7)"

definition packet_frame :: "message \<Rightarrow> u8 \<Rightarrow> nat \<Rightarrow> frame" where
  "packet_frame m c k =
     fp_data_frame (id_encode (msg_priority m) (msg_pgn m) (msg_source m) (msg_destination m))
       (push_bit 5 (c AND 7)) (msg_data m) k"

lemma packet_frame_header:
  assumes "pgn_is_valid (msg_pgn m)" and "k < 32"
  shows "wf_frame (packet_frame m c k)" and "fr_length (packet_frame m c k) = 8"
    and "fr_data (packet_frame m c k) ! 0 AND 0x1F = of_nat k"
    and "frame_key (packet_frame m c k) = packet_key m c"
proof -
  have h: "fr_data (packet_frame m c k) ! 0 = push_bit 5 (c AND 7) OR of_nat k"
    by (simp add: packet_frame_def fp_data_frame_def copied_out_def)
  show "wf_frame (packet_frame m c k)" "fr_length (packet_frame m c k) = 8"
    by (simp_all add: packet_frame_def fp_data_frame_def wf_frame_def)
  show "fr_data (packet_frame m c k) ! 0 AND 0x1F = of_nat k" unfolding h by (rule fp_header [OF assms(2)])
  show "frame_key (packet_frame m c k) = packet_key m c"
    unfolding frame_key_def h fp_header(2) [OF assms(2)] packet_key_def using assms(1)
    by (simp add: frame_accessors packet_frame_def fp_data_frame_def id_pgn_encode)
qed

lemma fp_stored_at:
  assumes "fp_at m c k s" and "1 \<le> k" and "k < fp_total_frames (length (msg_data m))"
    and "9 \<le> length (msg_data m)" and "length (msg_data m) \<le> 223"
  shows "fp_at m c (Suc k) (fp_stored k (packet_frame m c k) s)"
proof -
  have off: "6 + 7 * (k - 1) \<le> length (msg_data m)" "6 + 7 * (k - 1) + 7 = 6 + 7 * k"
    using assms(2-4) fp_total_frames_eq [of "length (msg_data m)" k] by auto
  have "fps_data (fp_stored k (packet_frame m c k) s) = partial_copy 0xFF (msg_data m) (6 + 7 * k)"
    using assms(1) copied_in_out [OF off(1), of 7 1, unfolded off(2)]
    by (simp add: fp_stored_def fp_at_def packet_frame_def fp_data_frame_def)
  moreover have "unat (of_nat (Suc k) :: u8) = Suc k"
    using fp_total_frames_32 [OF assms(5)] assms(3) by (simp add: unat_of_nat del: of_nat_Suc)
  ultimately show ?thesis
    using assms(1) by (simp add: fp_at_def fp_stored_def fp_key_def del: of_nat_Suc)
qed

lemma process_packet_frame:
  assumes "fp_inv e" and "s \<in> set (fp_rx_sessions e)" and "fp_at m c k s"
    and m: "fp_sendable (msg_pgn m) (msg_data m) (msg_source m)"
    and k: "1 \<le> k" "k < fp_total_frames (length (msg_data m))"
  defines "f \<equiv> packet_frame m c k"
  shows "\<exists>e'. fp_inv e' \<and> (if Suc k = fp_total_frames (length (msg_data m))
      then fp_step (FpFrame f) e = Some (e', [FpReceived (received_as m)])
        \<and> packet_key m c \<notin> fp_key ` set (fp_rx_sessions e')
      else fp_step (FpFrame f) e = Some (e', []) \<and> fp_stored k f s \<in> set (fp_rx_sessions e'))"
proof -
  let ?ss = "fp_rx_sessions e"
  have len: "length (fps_data s) = length (msg_data m)" "9 \<le> length (msg_data m)" "length (msg_data m) \<le> 223"
    using assms(3) m by (simp_all add: fp_at_def fp_sendable_def)
  have k32: "k < 32" using fp_total_frames_32 [OF len(3)] k(2) by simp
  have v: "pgn_is_valid (msg_pgn m)" "valid_fast_packet_source (msg_source m)" using m by (simp_all add: fp_sendable_def)
  note h = packet_frame_header [OF v(1) k32, of c, folded f_def]
  have uk: "unat (fr_data f ! 0 AND 0x1F) = k" unfolding h(3) using k32 by (simp add: unat_of_nat)
  have nz: "fr_data f ! 0 AND 0x1F \<noteq> 0" using uk k(1) by auto
  have src: "valid_fast_packet_source (frame_source f)" using h(4) v(2) by (simp add: frame_key_def packet_key_def)
  obtain i where i: "i < length ?ss" "?ss ! i = s" using assms(2) by (auto simp: in_set_conv_nth)
  have ok: "fp_sessions_ok ?ss" using assms(1) by (simp add: fp_inv_def)
  have key: "fp_key s = frame_key f" using assms(3) h(4) by (simp add: fp_at_def)
  have pos: "position (fp_matches (frame_source f) (frame_pgn f) (drop_bit 5 (fr_data f ! 0) AND 7)) ?ss = Some i"
    by (rule position_key [of fp_key]) (use ok i key in \<open>auto simp: fp_sessions_ok_def fp_matches_key frame_key_def\<close>)
  have wf: "fps_wf s" and ex: "unat (fps_expected_frame s) = k"
    using ok assms(2,3) by (simp_all add: fp_sessions_ok_def fp_at_def)
  obtain e' where e': "process_frame_session e f =
      (if Suc k = fp_total_frames (length (msg_data m)) then Some (e', Some (fp_stored k f s))
       else Some (fp_put i (fp_stored k f s) e, None))"
      "fp_rx_sessions e' = butlast (?ss[i := last ?ss])" "fp_tx_sequence_counter e' = fp_tx_sequence_counter e"
    using process_next_eq [OF h(1,2) src nz i(1) pos] wf unfolding i(2) uk ex len(1) by auto
  show ?thesis
  proof (cases "Suc k = fp_total_frames (length (msg_data m))")
    case True
    have at: "fp_at m c (Suc k) (fp_stored k f s)" unfolding f_def by (rule fp_stored_at [OF assms(3) k len(2,3)])
    have "length (msg_data m) \<le> 6 + 7 * k" using True fp_total_frames_le [OF len(2), of k] by simp
    then have "fp_make_message (fp_stored k f s) = received_as m"
      using at by (simp add: fp_make_message_def fp_at_def received_as_def packet_key_def fp_key_def)
        (simp add: fp_stored_def f_def packet_frame_def fp_data_frame_def)
    moreover have "packet_key m c \<notin> fp_key ` set (fp_rx_sessions e')"
      using set_swap_remove [OF i(1), of fp_key] ok e'(2) assms(3) i(2) by (auto simp: fp_sessions_ok_def fp_at_def)
    ultimately show ?thesis
      using True e' assms(1) fp_sessions_ok_remove [OF ok i(1)]
      by (intro exI [of _ e']) (simp add: fp_step_def fp_process_frame_def fp_inv_def)
  next
    case False
    then have "Suc k < fp_total_frames (length (fps_data s))" using k(2) len(1) by simp
    then have "fp_inv (fp_put i (fp_stored k f s) e)"
      using fp_stored_wf [OF wf ex] assms(1) fp_sessions_ok_update [OF ok i(1)] i(2) by (simp add: fp_inv_def)
    then show ?thesis
      using False e'(1) i(1) by (intro exI [of _ "fp_put i (fp_stored k f s) e"])
        (simp add: fp_step_def fp_process_frame_def set_update_memI)
  qed
qed

text \<open>Other traffic: frames of other packets, calls of the application and the passing of time.\<close>

definition fp_foreign :: "address \<times> pgn \<times> u8 \<Rightarrow> fp_input \<Rightarrow> bool" where
  "fp_foreign key i = (fp_admissible i \<and> (case i of FpFrame f \<Rightarrow> frame_key f \<noteq> key | _ \<Rightarrow> True))"

definition fp_input_ms :: "fp_input \<Rightarrow> nat" where
  "fp_input_ms i = (case i of FpUpdate ms \<Rightarrow> unat ms | _ \<Rightarrow> 0)"

lemma in_set_update_other:
  "x \<in> set xs \<Longrightarrow> x \<noteq> xs ! i \<Longrightarrow> x \<in> set (xs[i := y])"
  by (metis in_set_conv_nth length_list_update nth_list_update_neq)

lemma foreign_frame_keeps:
  assumes "fp_inv e" and "wf_frame f" and "s \<in> set (fp_rx_sessions e)" and "fp_key s \<noteq> frame_key f"
    and "process_frame_session e f = Some (e', r)"
  shows "s \<in> set (fp_rx_sessions e')"
proof -
  let ?ss = "fp_rx_sessions e" and ?seq = "drop_bit 5 (fr_data f ! 0) AND 7"
  let ?P = "fp_matches (frame_source f) (frame_pgn f) ?seq"
  have ok: "fp_sessions_ok ?ss" using assms(1) by (simp add: fp_inv_def)
  consider (dropped) "fr_length f \<noteq> 8 \<or> \<not> valid_fast_packet_source (frame_source f)
        \<or> fr_data f ! 0 AND 0x1F \<noteq> 0 \<and> position ?P ?ss = None"
    | (first) "fr_length f = 8" "valid_fast_packet_source (frame_source f)" "fr_data f ! 0 AND 0x1F = 0"
    | (later) i where "fr_length f = 8" "valid_fast_packet_source (frame_source f)" "fr_data f ! 0 AND 0x1F \<noteq> 0"
        "position ?P ?ss = Some i"
    by (cases "position ?P ?ss") blast+
  then show ?thesis
  proof cases
    case dropped
    then show ?thesis using assms(3,5) by (auto simp: process_frame_session_def Let_def limit_consts split: if_splits)
  next
    case first
    have keep: "s \<in> set (fp_rx_sessions (fp_without (frame_source f, frame_pgn f, ?seq) e))"
      using fp_without_inv(4) [OF assms(1)] assms(3,4) by (simp add: frame_key_def)
    have eq: "process_frame_session e f = start_new_session e f (frame_pgn f) (frame_source f) ?seq"
      using first by (simp add: process_frame_session_def Let_def limit_consts)
    show ?thesis
    proof (cases "9 \<le> unat (fr_data f ! 1) \<and> unat (fr_data f ! 1) \<le> 223")
      case True
      then show ?thesis
        using assms(5) eq start_new_session_eq [OF assms(2), of e ?seq] keep by (auto split: if_splits)
    next
      case False
      then show ?thesis
        using assms(3,5) eq
        by (auto simp: start_new_session_def Let_def limit_consts word_le_nat_alt word_less_nat_alt split: if_splits)
    qed
  next
    case later
    have i: "i < length ?ss" "fp_key (?ss ! i) = frame_key f"
      using position_SomeD [OF later(4)] by (simp_all add: fp_matches_key frame_key_def)
    have "fps_wf (?ss ! i)" using ok i(1) by (simp add: fp_sessions_ok_def)
    from process_next_eq [OF assms(2) later(1-3) i(1) later(4) this]
    have "fp_rx_sessions e' = butlast (?ss[i := last ?ss]) \<or> (\<exists>y. fp_rx_sessions e' = ?ss[i := y])"
      using assms(5) by (auto split: if_splits)
    moreover have "s \<in> set (butlast (?ss[i := last ?ss]))"
      using set_swap_remove [OF i(1), of fp_key] ok assms(3,4) i(2) by (simp add: fp_sessions_ok_def)
    moreover have "s \<in> set (?ss[i := y])" for y using in_set_update_other [OF assms(3)] assms(4) i(2) by metis
    ultimately show ?thesis by auto
  qed
qed

lemma fp_tick_keeps:
  assumes "fp_inv e" and "s \<in> set (fp_rx_sessions e)" and "unat (fps_timer_ms s) + unat ms < 750"
  shows "\<exists>e'. fp_update e ms = Some e' \<and> s\<lparr>fps_timer_ms := fps_timer_ms s + ms\<rparr> \<in> set (fp_rx_sessions e')"
proof -
  have "saturating_add (fps_timer_ms s) ms = fps_timer_ms s + ms" "unat (fps_timer_ms s + ms) < 750"
    using assms(3) by (simp_all add: saturating_add_def unat_word_ariths)
  then have tick: "fp_tick ms s = Some (s\<lparr>fps_timer_ms := fps_timer_ms s + ms\<rparr>)"
    by (simp add: fp_tick_def TP_TIMEOUT_T1_MS_def word_le_nat_alt)
  obtain e' where e': "fp_update e ms = Some e'"
    "mset (fp_rx_sessions e') = mset (List.map_filter (fp_tick ms) (fp_rx_sessions e))"
    using fp_update_eq [OF assms(1), of ms] by auto
  then have "set (fp_rx_sessions e') = set (List.map_filter (fp_tick ms) (fp_rx_sessions e))"
    by (metis set_mset_mset)
  then show ?thesis using e'(1) tick assms(2) by (force simp: map_filter_def)
qed

lemma foreign_step_keeps:
  assumes "fp_inv e" and "s \<in> set (fp_rx_sessions e)" and "fp_foreign (fp_key s) i"
    and "unat (fps_timer_ms s) + fp_input_ms i < 750"
  shows "\<exists>e' out t. fp_step i e = Some (e', out) \<and> fp_inv e' \<and> s\<lparr>fps_timer_ms := t\<rparr> \<in> set (fp_rx_sessions e')
    \<and> unat t = unat (fps_timer_ms s) + fp_input_ms i"
proof -
  have "fp_admissible i" using assms(3) by (simp add: fp_foreign_def)
  then obtain e' out where e': "fp_step i e = Some (e', out)" "fp_inv e'"
    using fp_step_safe [OF assms(1)] by blast
  show ?thesis
  proof (cases i)
    case (FpUpdate ms)
    have "unat (fps_timer_ms s + ms) = unat (fps_timer_ms s) + unat ms"
      using assms(4) FpUpdate by (simp add: fp_input_ms_def unat_word_ariths)
    moreover obtain e1 where "fp_update e ms = Some e1"
      "s\<lparr>fps_timer_ms := fps_timer_ms s + ms\<rparr> \<in> set (fp_rx_sessions e1)"
      using fp_tick_keeps [OF assms(1,2), of ms] assms(4) FpUpdate by (auto simp: fp_input_ms_def)
    ultimately show ?thesis
      using e' FpUpdate by (intro exI [of _ e'] exI [of _ out] exI [of _ "fps_timer_ms s + ms"])
        (auto simp: fp_step_def fp_input_ms_def)
  next
    case (FpFrame f)
    obtain r where "process_frame_session e f = Some (e', r)"
      using e'(1) FpFrame by (auto simp: fp_step_def fp_process_frame_def split: bind_splits option.splits)
    then have "s \<in> set (fp_rx_sessions e')"
      using foreign_frame_keeps [OF assms(1) _ assms(2)] assms(3) FpFrame
      by (auto simp: fp_foreign_def fp_admissible_def)
    then show ?thesis using e' FpFrame by (intro exI [of _ e'] exI [of _ out] exI [of _ "fps_timer_ms s"])
        (auto simp: fp_input_ms_def)
  next
    case (FpSend p data src dst prio)
    have "fp_rx_sessions e' = fp_rx_sessions e"
      using e'(1) FpSend
      by (auto simp: fp_step_def fp_send_to_def fp_count_defs Let_def split: bind_splits if_splits sum.splits)
    then show ?thesis using e' FpSend assms(2) by (intro exI [of _ e'] exI [of _ out] exI [of _ "fps_timer_ms s"])
        (auto simp: fp_input_ms_def)
  qed (use e' assms(2) in \<open>auto simp: fp_step_def fp_set_max_rx_sessions_def fp_clear_stats_def fp_input_ms_def
      intro!: exI [of _ "fps_timer_ms s"]\<close>)
qed

lemma foreign_gap_keeps:
  assumes "fp_inv e" and "s \<in> set (fp_rx_sessions e)" and "fp_at m c k s"
    and "\<forall>i \<in> set gap. fp_foreign (packet_key m c) i"
    and "unat (fps_timer_ms s) + sum_list (map fp_input_ms gap) < 750"
  shows "\<exists>e' out s'. run_inputs fp_step gap e = Some (e', out) \<and> fp_inv e' \<and> s' \<in> set (fp_rx_sessions e')
    \<and> fp_at m c k s'"
  using assms
proof (induction gap arbitrary: e s)
  case Nil
  then show ?case by auto
next
  case (Cons i gap)
  have "fp_foreign (fp_key s) i" using Cons.prems(3,4) by (simp add: fp_at_def)
  moreover have "unat (fps_timer_ms s) + fp_input_ms i < 750" using Cons.prems(5) by simp
  ultimately obtain e1 out t where e1: "fp_step i e = Some (e1, out)" "fp_inv e1"
    "s\<lparr>fps_timer_ms := t\<rparr> \<in> set (fp_rx_sessions e1)" "unat t = unat (fps_timer_ms s) + fp_input_ms i"
    using foreign_step_keeps [OF Cons.prems(1,2)] by blast
  have "fp_at m c k (s\<lparr>fps_timer_ms := t\<rparr>)" using Cons.prems(3) by (simp add: fp_at_def fp_key_def)
  moreover have "unat (fps_timer_ms (s\<lparr>fps_timer_ms := t\<rparr>)) + sum_list (map fp_input_ms gap) < 750"
    using Cons.prems(5) e1(4) by simp
  ultimately show ?case using Cons.IH [OF e1(2,3)] Cons.prems(4) e1(1) by fastforce
qed

text \<open>The frames of a packet from its \<open>k\<close>-th on, each after a stretch of other traffic.\<close>

definition interleaved :: "fp_input list list \<Rightarrow> frame list \<Rightarrow> fp_input list" where
  "interleaved gaps frames = concat (map (\<lambda>(gap, f). gap @ [FpFrame f]) (zip gaps frames))"

definition quiet_gap :: "message \<Rightarrow> u8 \<Rightarrow> fp_input list \<Rightarrow> bool" where
  "quiet_gap m c gap \<longleftrightarrow> (\<forall>i \<in> set gap. fp_foreign (packet_key m c) i) \<and> sum_list (map fp_input_ms gap) < 750"

lemma deliver_rest:
  assumes "fp_inv e" and "s \<in> set (fp_rx_sessions e)" and "fp_at m c k s" and "fps_timer_ms s = 0"
    and "fp_sendable (msg_pgn m) (msg_data m) (msg_source m)"
    and "1 \<le> k" and "k + length gaps = fp_total_frames (length (msg_data m))" and "gaps \<noteq> []"
    and "\<forall>gap \<in> set gaps. quiet_gap m c gap"
  shows "\<exists>e' out. run_inputs fp_step (interleaved gaps (map (packet_frame m c) [k..<k + length gaps])) e
      = Some (e', out @ [FpReceived (received_as m)])
    \<and> fp_inv e' \<and> packet_key m c \<notin> fp_key ` set (fp_rx_sessions e')"
  using assms
proof (induction gaps arbitrary: e s k)
  case (Cons gap gaps)
  have k: "k < fp_total_frames (length (msg_data m))" using Cons.prems(7) by simp
  have d: "9 \<le> length (msg_data m)" "length (msg_data m) \<le> 223" using Cons.prems(5) by (simp_all add: fp_sendable_def)
  obtain e1 out1 s1 where e1: "run_inputs fp_step gap e = Some (e1, out1)" "fp_inv e1"
    "s1 \<in> set (fp_rx_sessions e1)" "fp_at m c k s1"
    using foreign_gap_keeps [OF Cons.prems(1-3), of gap] Cons.prems(4,9) by (auto simp: quiet_gap_def)
  let ?f = "packet_frame m c k"
  obtain e2 where e2: "fp_inv e2" "if Suc k = fp_total_frames (length (msg_data m))
      then fp_step (FpFrame ?f) e1 = Some (e2, [FpReceived (received_as m)])
        \<and> packet_key m c \<notin> fp_key ` set (fp_rx_sessions e2)
      else fp_step (FpFrame ?f) e1 = Some (e2, []) \<and> fp_stored k ?f s1 \<in> set (fp_rx_sessions e2)"
    using process_packet_frame [OF e1(2-4) Cons.prems(5,6) k] by blast
  have split: "interleaved (gap # gaps) (map (packet_frame m c) [k..<k + length (gap # gaps)]) =
      gap @ FpFrame ?f # interleaved gaps (map (packet_frame m c) [Suc k..<Suc k + length gaps])"
    by (simp add: interleaved_def upt_conv_Cons del: upt_Suc)
  show ?case
  proof (cases "gaps = []")
    case True
    then have "Suc k = fp_total_frames (length (msg_data m))" using Cons.prems(7) by simp
    then show ?thesis using e1(1) e2 True unfolding split by (simp add: interleaved_def run_inputs_append)
  next
    case False
    then have ne: "Suc k \<noteq> fp_total_frames (length (msg_data m))" using Cons.prems(7) by (cases gaps) auto
    have "fps_timer_ms (fp_stored k ?f s1) = 0" by (simp add: fp_stored_def)
    then obtain e3 out3 where
      "run_inputs fp_step (interleaved gaps (map (packet_frame m c) [Suc k..<Suc k + length gaps])) e2
        = Some (e3, out3 @ [FpReceived (received_as m)])" "fp_inv e3" "packet_key m c \<notin> fp_key ` set (fp_rx_sessions e3)"
      using Cons.IH [OF e2(1) _ fp_stored_at [OF e1(4) Cons.prems(6) k d]] e2(2) ne False Cons.prems by fastforce
    then show ?thesis
      using e1(1) e2(2) ne unfolding split by (simp add: run_inputs_append)
  qed
qed simp

lemma process_packet_first:
  assumes "fp_inv e" and "length (fp_rx_sessions e) < fp_max_rx_sessions e"
    and m: "fp_sendable (msg_pgn m) (msg_data m) (msg_source m)"
  shows "\<exists>e' s. fp_step (FpFrame (hd (packet_frames m c))) e = Some (e', []) \<and> fp_inv e'
    \<and> s \<in> set (fp_rx_sessions e') \<and> fp_at m c 1 s \<and> fps_timer_ms s = 0"
proof -
  let ?f = "hd (packet_frames m c)" and ?n = "length (msg_data m)"
  have n: "9 \<le> ?n" "?n \<le> 223" and v: "pgn_is_valid (msg_pgn m)" "valid_fast_packet_source (msg_source m)"
    using m by (simp_all add: fp_sendable_def)
  have f: "?f = fp_first_frame (id_encode (msg_priority m) (msg_pgn m) (msg_source m) (msg_destination m))
      (push_bit 5 (c AND 7)) (msg_data m)" by (simp add: packet_frames_def fp_frames_def)
  have data: "fr_data ?f ! 0 = push_bit 5 (c AND 7)" "unat (fr_data ?f ! 1) = ?n"
    "take 6 (drop 2 (fr_data ?f)) = take 6 (msg_data m)"
    using n by (simp_all add: f fp_first_frame_def Let_def FIRST_FRAME_DATA_def unat_of_nat)
  have wf: "wf_frame ?f" "fr_length ?f = 8" "fr_timestamp_us ?f = 0"
    using n by (simp_all add: f fp_first_frame_def Let_def FIRST_FRAME_DATA_def wf_frame_def)
  have head: "fr_data ?f ! 0 AND 0x1F = 0" "drop_bit 5 (fr_data ?f ! 0) AND 7 = c AND 7"
    unfolding data(1) using fp_header [of 0 c] by simp_all
  have acc: "frame_source ?f = msg_source m" "frame_pgn ?f = pgn_normalize (msg_pgn m)"
    "frame_destination ?f = msg_destination (received_as m)" "frame_priority ?f = msg_priority m"
    using v(1) by (simp_all add: f fp_first_frame_def Let_def frame_accessors id_pgn_encode received_as_def)
  let ?e1 = "fp_without (packet_key m c) e" and ?s = "fp_opened ?f (c AND 7)"
  have key: "(frame_source ?f, frame_pgn ?f, c AND 7) = packet_key m c" by (simp add: acc packet_key_def)
  note w = fp_without_inv [OF assms(1), of "packet_key m c"]
  have "length (fp_rx_sessions ?e1) \<le> length (fp_rx_sessions e)"
    by (simp add: fp_without_def split: option.splits)
  then have room: "\<not> fp_max_rx_sessions ?e1 \<le> length (fp_rx_sessions ?e1)" using w(3) assms(2) by simp
  have "process_frame_session e ?f = start_new_session e ?f (frame_pgn ?f) (frame_source ?f) (c AND 7)"
    using wf(2) v(2) head acc(1) by (simp add: process_frame_session_def Let_def limit_consts)
  then have eq: "process_frame_session e ?f = Some (push_rx_session ?s ?e1, None)"
    using start_new_session_eq [OF wf(1), of e "c AND 7"] n data(2) room key by simp
  have "fp_inv (push_rx_session ?s ?e1)"
    using process_frame_session_safe [OF assms(1) wf(1)] eq by simp
  moreover have "fp_at m c 1 ?s"
    using acc data(2,3) by (simp add: fp_at_def fp_opened_def fp_key_def packet_key_def partial_copy_def)
  ultimately show ?thesis
    using eq by (intro exI [of _ "push_rx_session ?s ?e1"] exI [of _ ?s])
      (simp add: fp_step_def fp_process_frame_def fp_opened_def)
qed

section \<open>The sender with fixed storage\<close>

lemma fp_push_frames_eq:
  assumes "fs_holds t xs" and "length xs + length fs \<le> fs_capacity t"
  shows "\<exists>t'. fp_push_frames fs t = Some (Inr t') \<and> fs_holds t' (xs @ fs)"
  using assms
proof (induction fs arbitrary: t xs)
  case (Cons f fs)
  obtain t1 where t1: "fs_push f t = Some (t1, Inr ())" "fs_holds t1 (xs @ [f])" "fs_capacity t1 = fs_capacity t"
    using fs_push_stores [OF Cons.prems(1), of f] Cons.prems by auto
  then show ?case using Cons.IH [OF t1(2)] Cons.prems(2) by auto
qed auto

section \<open>Properties\<close>

text \<open>C3: The frames of a fast packet, fed to a receiver with a free session slot, deliver exactly the
message that was sent: its payload, source and priority, its parameter group in canonical form and its
destination.  The packet's frames may be mixed with frames of any other packets, with sends and with
timer updates of less than 750 ms in total between two of its frames.\<close>

theorem fast_packet_delivers:
  assumes "fp_inv e" and "fp_inv r" and "length (fp_rx_sessions r) < fp_max_rx_sessions r"
    and "fp_sendable (msg_pgn m) (msg_data m) (msg_source m)"
    and "length gaps = fp_more_frames (length (msg_data m))"
    and "\<forall>gap \<in> set gaps. quiet_gap m (fp_tx_sequence_counter e) gap"
  shows "\<exists>e' f frames r' out.
    fp_send_to e (msg_pgn m) (msg_data m) (msg_source m) (msg_destination m) (msg_priority m)
      = Some (e', Inr (f # frames))
    \<and> run_inputs fp_step (FpFrame f # interleaved gaps frames) r = Some (r', out @ [FpReceived (received_as m)])
    \<and> fp_inv r' \<and> packet_key m (fp_tx_sequence_counter e) \<notin> fp_key ` set (fp_rx_sessions r')"
proof -
  let ?c = "fp_tx_sequence_counter e"
  have c: "unat ?c < 8" using assms(1) by (simp add: fp_inv_def)
  have total: "1 + length gaps = fp_total_frames (length (msg_data m))" "gaps \<noteq> []"
    using assms(4,5) by (auto simp: fp_total_frames_def fp_more_frames_def fp_sendable_def fp_consts)
  let ?f = "hd (packet_frames m ?c)"
  have frames: "packet_frames m ?c = ?f # map (packet_frame m ?c) [1..<1 + length gaps]"
    by (simp add: packet_frames_def fp_frames_def total(1) [symmetric] packet_frame_def [abs_def])
  obtain r1 s where r1: "fp_step (FpFrame ?f) r = Some (r1, [])" "fp_inv r1" "s \<in> set (fp_rx_sessions r1)"
    "fp_at m ?c 1 s" "fps_timer_ms s = 0"
    using process_packet_first [OF assms(2-4)] by blast
  from deliver_rest [OF r1(2-5) assms(4) le_refl total assms(6)]
  show ?thesis
    using r1(1) fp_send_to_eq [OF assms(4) c, of "msg_destination m" "msg_priority m"] frames
    by (fastforce simp: packet_frames_def)
qed

definition sample_message :: message where
  "sample_message = \<lparr>msg_pgn = 0x1F805, msg_data = map of_nat [0..<20], msg_source = 0x21,
     msg_destination = BROADCAST_ADDRESS, msg_priority = Default, msg_timestamp_us = 0\<rparr>"

definition other_frame :: frame where
  "other_frame = frame8 (id_encode Default 0x1F805 0x22 BROADCAST_ADDRESS) [0, 20, 1, 2, 3, 4, 5, 6]"

lemma sample_sendable: "fp_sendable (msg_pgn sample_message) (msg_data sample_message) (msg_source sample_message)"
  by (simp add: fp_sendable_def sample_message_def pgn_is_valid_def valid_fast_packet_source_def
      address_consts)

lemma sample_gap: "quiet_gap sample_message 0 [FpFrame other_frame, FpUpdate 700]"
  by (simp add: quiet_gap_def fp_foreign_def fp_admissible_def other_frame_def wf_frame_def frame_key_def
      packet_key_def sample_message_def frame_accessors fp_input_ms_def)

theorem fast_packet_delivers_witness:
  "\<exists>e' f frames r' out.
    fp_send_to fp_new 0x1F805 (map of_nat [0..<20]) 0x21 BROADCAST_ADDRESS Default = Some (e', Inr (f # frames))
    \<and> run_inputs fp_step (FpFrame f # interleaved [[FpFrame other_frame, FpUpdate 700], []] frames) fp_new
        = Some (r', out @ [FpReceived (received_as sample_message)])
    \<and> fp_inv r' \<and> packet_key sample_message 0 \<notin> fp_key ` set (fp_rx_sessions r')"
proof -
  have "fp_tx_sequence_counter fp_new = 0" "length (fp_rx_sessions fp_new) < fp_max_rx_sessions fp_new"
    by (simp_all add: fp_new_def FAST_PACKET_DEFAULT_MAX_RX_SESSIONS_def)
  moreover have "length [[FpFrame other_frame, FpUpdate 700], []] = fp_more_frames (length (msg_data sample_message))"
    by (simp add: sample_message_def fp_more_frames_def fp_consts)
  moreover have "quiet_gap sample_message 0 []" by (simp add: quiet_gap_def)
  ultimately show ?thesis
    using fast_packet_delivers [OF fp_new_inv fp_new_inv _ sample_sendable,
        of "[[FpFrame other_frame, FpUpdate 700], []]"] sample_gap
    by (simp add: sample_message_def)
qed

text \<open>C29: No sequence of sends, received frames, timer updates and configuration calls makes the
fast-packet protocol panic; every frame it sends is a full frame of eight bytes, every message it delivers
has 9 to 223 bytes, and its sessions stay well formed with distinct keys.\<close>

theorem fast_packet_run_safe:
  assumes "\<forall>i \<in> set inputs. fp_admissible i"
  shows "\<exists>e out. run_inputs fp_step inputs fp_new = Some (e, out) \<and> fp_inv e \<and> (\<forall>x \<in> set out. fp_output_ok x)"
  using fast.run_safe [OF fp_new_inv assms] .

theorem fast_packet_run_safe_witness:
  "\<exists>e out. run_inputs fp_step [FpFrame other_frame, FpUpdate 1000, FpSend 0x1F805 [1, 2] 0x21 0xFF Default, FpSetMax 0]
      fp_new = Some (e, out) \<and> fp_inv e \<and> (\<forall>x \<in> set out. fp_output_ok x)"
  by (rule fast_packet_run_safe) (simp add: fp_admissible_def other_frame_def wf_frame_def)

text \<open>C30: The sender with fixed frame storage does what the allocating one does as long as the frames
fit: the same errors, the same next state and the same frames in order; with too little room it refuses
the packet before anything else changes and counts the rejection.\<close>

theorem send_fixed_matches_send:
  assumes "fp_inv e" and "length data < 2 ^ 32"
  shows "\<exists>e' r. fp_send e p data src = Some (e', r) \<and>
    (case r of
       Inl err \<Rightarrow> fp_send_fixed n e p data src = Some (e', Inl err)
     | Inr frames \<Rightarrow>
         (if length frames \<le> n
          then \<exists>t. fp_send_fixed n e p data src = Some (e', Inr t) \<and> fs_iter t = Some frames
          else fp_send_fixed n e p data src = Some (fp_count_resource_rejection e, Inl error_buffer_overflow)))"
proof (cases "fp_sendable p data src")
  case True
  have c: "unat (fp_tx_sequence_counter e) < 8" using assms(1) by (simp add: fp_inv_def)
  have len: "unat (of_nat (length data) :: u32) = length data" "9 \<le> length data" "length data \<le> 223"
    using True by (simp_all add: fp_sendable_def unat_of_nat)
  let ?i = "id_encode Default p src BROADCAST_ADDRESS" and ?seq = "push_bit 5 (fp_tx_sequence_counter e AND 7)"
  let ?fs = "fp_frames ?i ?seq data"
  have n: "length ?fs = fp_total_frames (length data)" by (simp add: fp_frames_def fp_total_frames_def)
  have "checked_add (fp_tx_sequence_counter e) 1 = Some (fp_tx_sequence_counter e + 1)"
    using c by (intro checked_add_Some) simp
  then have fixed: "fp_send_fixed n e p data src = (if length ?fs \<le> n
      then do {
        r \<leftarrow> fp_push_frames ?fs (fs_new n);
        Some (e\<lparr>fp_tx_sequence_counter := (fp_tx_sequence_counter e + 1) AND 7\<rparr>, r)
      } else Some (fp_count_resource_rejection e, Inl error_buffer_overflow))"
    using True len fp_subsequent_eq [of ?i ?seq data 0] n
    by (simp add: fp_send_fixed_def fp_sendable_def limit_consts word_less_nat_alt word_le_nat_alt Let_def
        FIRST_FRAME_DATA_def fp_frames_def)
  show ?thesis
    using fp_send_to_eq [OF True c] fixed fp_push_frames_eq [OF fs_new_holds [of n], of ?fs] fs_iter_eq
    by (auto simp: fp_send_def)
next
  case False
  have "unat (of_nat (length data) :: u32) = length data" using assms(2) by (simp add: unat_of_nat)
  then show ?thesis
    using False
    by (auto simp: fp_send_def fp_send_to_def fp_send_fixed_def fp_sendable_def limit_consts word_less_nat_alt
        word_le_nat_alt)
qed

theorem send_fixed_matches_send_witness:
  "\<exists>e' r. fp_send fp_new 0x1F805 (replicate 20 1) 0x21 = Some (e', r) \<and>
    (case r of
       Inl err \<Rightarrow> fp_send_fixed 32 fp_new 0x1F805 (replicate 20 1) 0x21 = Some (e', Inl err)
     | Inr frames \<Rightarrow>
         (if length frames \<le> 32
          then \<exists>t. fp_send_fixed 32 fp_new 0x1F805 (replicate 20 1) 0x21 = Some (e', Inr t) \<and> fs_iter t = Some frames
          else fp_send_fixed 32 fp_new 0x1F805 (replicate 20 1) 0x21
            = Some (fp_count_resource_rejection fp_new, Inl error_buffer_overflow)))"
  by (rule send_fixed_matches_send) (simp_all add: fp_new_inv)

end
