(* ===== verification/ETP_Engine.thy ===== *)
theory ETP_Engine
  imports TP_Segmentation Pgn_Table
begin

unbundle bit_operations_syntax

text \<open>
  The extended transport protocol engine (src/src/net/etp/etp_protocol_engine.rs) for payloads of 1786
  bytes and more, in the build with heap storage.  Each window of data frames is preceded by a
  data-packet-offset frame (DPO) and numbered from one.  Checked arithmetic of the code is written with
  \<open>checked_add\<close>, \<open>checked_sub\<close> and \<open>checked_mul\<close>; allocation of a receive buffer within the configured cap is
  taken to succeed.
\<close>

section \<open>Constants and state\<close>

definition ETP_TIMEOUT_T1_MS :: u32 where "ETP_TIMEOUT_T1_MS = TP_TIMEOUT_T1_MS"
definition ETP_TIMEOUT_T2_MS :: u32 where "ETP_TIMEOUT_T2_MS = TP_TIMEOUT_T2_MS"
definition ETP_TIMEOUT_T3_MS :: u32 where "ETP_TIMEOUT_T3_MS = TP_TIMEOUT_T3_MS"

lemmas etp_timeout_consts = ETP_TIMEOUT_T1_MS_def ETP_TIMEOUT_T2_MS_def ETP_TIMEOUT_T3_MS_def

definition etp_cm_RTS :: u8 where "etp_cm_RTS = 0x14"
definition etp_cm_CTS :: u8 where "etp_cm_CTS = 0x15"
definition etp_cm_DPO :: u8 where "etp_cm_DPO = 0x16"
definition etp_cm_EOMA :: u8 where "etp_cm_EOMA = 0x17"
definition etp_cm_ABORT :: u8 where "etp_cm_ABORT = 0xFF"

lemmas etp_cm_consts = etp_cm_RTS_def etp_cm_CTS_def etp_cm_DPO_def etp_cm_EOMA_def etp_cm_ABORT_def

definition ETP_DEFAULT_MAX_SESSIONS :: nat where "ETP_DEFAULT_MAX_SESSIONS = 16"

record etp_receive_profile =
  rp_total_bytes :: u32
  rp_total_packets :: u32
  rp_max_receive_bytes :: u32

record etp_engine =
  et_sessions :: "transport_session list"
  et_max_receive_bytes :: u32
  et_max_sessions :: nat
  et_stats :: transport_stats
  et_on_complete :: "transport_session event"
  et_on_abort :: "transport_abort_event event"

definition etp_new :: etp_engine where
  "etp_new = \<lparr>et_sessions = [], et_max_receive_bytes = ETP_MAX_DATA_LENGTH,
     et_max_sessions = ETP_DEFAULT_MAX_SESSIONS, et_stats = stats_default, et_on_complete = [], et_on_abort = []\<rparr>"

definition etp_set_max_receive_bytes :: "u32 \<Rightarrow> etp_engine \<Rightarrow> etp_engine" where
  "etp_set_max_receive_bytes n e = e\<lparr>et_max_receive_bytes := min n ETP_MAX_DATA_LENGTH\<rparr>"

definition etp_with_max_receive_bytes :: "u32 \<Rightarrow> etp_engine" where
  "etp_with_max_receive_bytes n = etp_set_max_receive_bytes n etp_new"

definition etp_set_max_sessions :: "nat \<Rightarrow> etp_engine \<Rightarrow> etp_engine" where
  "etp_set_max_sessions n e = e\<lparr>et_max_sessions := n\<rparr>"

definition etp_with_max_sessions :: "nat \<Rightarrow> etp_engine" where
  "etp_with_max_sessions n = etp_set_max_sessions n etp_new"

definition etp_clear_stats :: "etp_engine \<Rightarrow> etp_engine" where
  "etp_clear_stats e = e\<lparr>et_stats := stats_default\<rparr>"

definition receive_profile_for_advertised_size ::
  "etp_engine \<Rightarrow> u32 \<Rightarrow> transport_abort_reason + etp_receive_profile" where
  "receive_profile_for_advertised_size e total_bytes =
     (if \<not> (TP_MAX_DATA_LENGTH + 1 \<le> total_bytes \<and> total_bytes \<le> ETP_MAX_DATA_LENGTH)
      then Inl UnexpectedDataSize
      else if et_max_receive_bytes e < total_bytes then Inl ResourcesUnavailable
      else Inr \<lparr>rp_total_bytes = total_bytes, rp_total_packets = div_ceil total_bytes TP_BYTES_PER_FRAME,
                rp_max_receive_bytes = et_max_receive_bytes e\<rparr>)"

section \<open>Counters, events and the session table\<close>

definition etp_note_dropped_frame :: "etp_engine \<Rightarrow> etp_engine" where
  "etp_note_dropped_frame e = e\<lparr>et_stats := (et_stats e)
     \<lparr>st_dropped_frames := saturating_add (st_dropped_frames (et_stats e)) 1\<rparr>\<rparr>"

definition etp_note_dropped_session :: "etp_engine \<Rightarrow> etp_engine" where
  "etp_note_dropped_session e = e\<lparr>et_stats := (et_stats e)
     \<lparr>st_dropped_sessions := saturating_add (st_dropped_sessions (et_stats e)) 1\<rparr>\<rparr>"

definition etp_note_abort_sent :: "etp_engine \<Rightarrow> etp_engine" where
  "etp_note_abort_sent e = e\<lparr>et_stats := (et_stats e)
     \<lparr>st_aborts_sent := saturating_add (st_aborts_sent (et_stats e)) 1\<rparr>\<rparr>"

definition etp_note_abort_received :: "etp_engine \<Rightarrow> etp_engine" where
  "etp_note_abort_received e = e\<lparr>et_stats := (et_stats e)
     \<lparr>st_aborts_received := saturating_add (st_aborts_received (et_stats e)) 1\<rparr>\<rparr>"

definition etp_note_timeout :: "etp_engine \<Rightarrow> etp_engine" where
  "etp_note_timeout e = e\<lparr>et_stats := (et_stats e)
     \<lparr>st_timeouts := saturating_add (st_timeouts (et_stats e)) 1\<rparr>\<rparr>"

definition etp_note_resource_rejection :: "etp_engine \<Rightarrow> etp_engine" where
  "etp_note_resource_rejection e = e\<lparr>et_stats := (et_stats e)
     \<lparr>st_resource_rejections := saturating_add (st_resource_rejections (et_stats e)) 1\<rparr>\<rparr>"

lemmas etp_note_defs = etp_note_dropped_frame_def etp_note_dropped_session_def etp_note_abort_sent_def
  etp_note_abort_received_def etp_note_timeout_def etp_note_resource_rejection_def

definition etp_emit_complete :: "transport_session \<Rightarrow> etp_engine \<Rightarrow> etp_engine" where
  "etp_emit_complete s e = e\<lparr>et_on_complete := event_emit (et_on_complete e) s\<rparr>"

definition etp_emit_abort :: "transport_abort_event \<Rightarrow> etp_engine \<Rightarrow> etp_engine" where
  "etp_emit_abort evt e = e\<lparr>et_on_abort := event_emit (et_on_abort e) evt\<rparr>"

definition etp_push_session :: "transport_session \<Rightarrow> etp_engine \<Rightarrow> etp_engine" where
  "etp_push_session s e = e\<lparr>et_sessions := et_sessions e @ [s]\<rparr>"

definition etp_put :: "nat \<Rightarrow> transport_session \<Rightarrow> etp_engine \<Rightarrow> etp_engine" where
  "etp_put i s e = e\<lparr>et_sessions := (et_sessions e)[i := s]\<rparr>"

definition etp_remove_session :: "nat \<Rightarrow> etp_engine \<Rightarrow> (transport_session \<times> etp_engine) option" where
  "etp_remove_session i e = do {
     (s, rest) \<leftarrow> swap_remove i (et_sessions e);
     Some (s, e\<lparr>et_sessions := rest\<rparr>)
   }"

definition etp_session_position :: "(transport_session \<Rightarrow> bool) \<Rightarrow> etp_engine \<Rightarrow> nat option" where
  "etp_session_position P e = position P (et_sessions e)"

definition transmit_dt_path_is_active :: "etp_engine \<Rightarrow> address \<Rightarrow> address \<Rightarrow> u8 \<Rightarrow> bool" where
  "transmit_dt_path_is_active e src dst port =
     list_ex (\<lambda>s. ts_direction s = Transmit \<and> ts_source s = src \<and> ts_destination s = dst
                  \<and> ts_can_port s = port) (et_sessions e)"

definition receive_dt_path_is_active :: "etp_engine \<Rightarrow> address \<Rightarrow> address \<Rightarrow> u8 \<Rightarrow> bool" where
  "receive_dt_path_is_active e src dst port =
     list_ex (\<lambda>s. ts_direction s = Receive \<and> ts_source s = src \<and> ts_destination s = dst
                  \<and> ts_can_port s = port) (et_sessions e)"

section \<open>Frame builders\<close>

definition valid_etp_source :: "address \<Rightarrow> bool" where
  "valid_etp_source a = (a \<noteq> NULL_ADDRESS \<and> a \<noteq> BROADCAST_ADDRESS)"

definition valid_etp_destination :: "address \<Rightarrow> bool" where
  "valid_etp_destination a = (a \<noteq> NULL_ADDRESS \<and> a \<noteq> BROADCAST_ADDRESS)"

definition etp_rx_buffer :: "u32 \<Rightarrow> u32 \<Rightarrow> transport_abort_reason + bytes" where
  "etp_rx_buffer total_bytes max_receive_bytes =
     (if max_receive_bytes < total_bytes then Inl ResourcesUnavailable
      else Inr (replicate (unat total_bytes) 0xFF))"

definition etp_pgn_from_cm_bytes :: "bytes \<Rightarrow> pgn" where
  "etp_pgn_from_cm_bytes data =
     ucast (data ! 5) OR push_bit 8 (ucast (data ! 6)) OR push_bit 16 (ucast (data ! 7))"

text \<open>The four-byte size of RTS and EOMA, and the three-byte packet number of CTS and DPO.\<close>

definition size_bytes4 :: "u32 \<Rightarrow> bytes" where
  "size_bytes4 w = [low_byte w, low_byte (drop_bit 8 w), low_byte (drop_bit 16 w), low_byte (drop_bit 24 w)]"

definition cm_size4 :: "bytes \<Rightarrow> u32" where
  "cm_size4 data = ucast (data ! 1) OR push_bit 8 (ucast (data ! 2)) OR push_bit 16 (ucast (data ! 3))
     OR push_bit 24 (ucast (data ! 4))"

definition packet_bytes3 :: "u32 \<Rightarrow> bytes" where
  "packet_bytes3 w = [low_byte w, low_byte (drop_bit 8 w), low_byte (drop_bit 16 w)]"

definition cm_packet3 :: "bytes \<Rightarrow> u32" where
  "cm_packet3 data = ucast (data ! 2) OR push_bit 8 (ucast (data ! 3)) OR push_bit 16 (ucast (data ! 4))"

definition etp_make_rts_fields :: "pgn \<Rightarrow> u32 \<Rightarrow> address \<Rightarrow> address \<Rightarrow> frame" where
  "etp_make_rts_fields p total_bytes src dst =
     frame8 (id_encode Lowest PGN_ETP_CM src dst) ([etp_cm_RTS] @ size_bytes4 total_bytes @ pgn_bytes p)"

definition etp_make_rts :: "transport_session \<Rightarrow> frame" where
  "etp_make_rts s = etp_make_rts_fields (ts_pgn s) (ts_total_bytes s) (ts_source s) (ts_destination s)"

definition make_dpo_fields :: "pgn \<Rightarrow> address \<Rightarrow> address \<Rightarrow> u8 \<Rightarrow> u32 \<Rightarrow> frame" where
  "make_dpo_fields p src dst packets_to_send packet_offset =
     frame8 (id_encode Lowest PGN_ETP_CM src dst)
       ([etp_cm_DPO, packets_to_send] @ packet_bytes3 packet_offset @ pgn_bytes p)"

definition make_dpo :: "transport_session \<Rightarrow> frame" where
  "make_dpo s = make_dpo_fields (ts_pgn s) (ts_source s) (ts_destination s) (ts_packets_to_send s)
     (ts_bytes_transferred s div 7)"

definition etp_make_cts :: "address \<Rightarrow> address \<Rightarrow> u8 \<Rightarrow> u32 \<Rightarrow> pgn \<Rightarrow> frame" where
  "etp_make_cts src dst num_packets next_packet p =
     frame8 (id_encode Lowest PGN_ETP_CM src dst)
       ([etp_cm_CTS, num_packets] @ packet_bytes3 next_packet @ pgn_bytes p)"

definition etp_make_eoma :: "address \<Rightarrow> address \<Rightarrow> u32 \<Rightarrow> pgn \<Rightarrow> frame" where
  "etp_make_eoma src dst total_bytes p =
     frame8 (id_encode Lowest PGN_ETP_CM src dst) ([etp_cm_EOMA] @ size_bytes4 total_bytes @ pgn_bytes p)"

definition etp_make_abort_fields :: "address \<Rightarrow> address \<Rightarrow> pgn \<Rightarrow> transport_abort_reason \<Rightarrow> frame" where
  "etp_make_abort_fields src dst p reason =
     frame8 (id_encode Lowest PGN_ETP_CM src dst)
       ([etp_cm_ABORT, abort_reason_as_u8 reason, 0xFF, 0xFF, 0xFF] @ pgn_bytes p)"

definition etp_make_abort :: "transport_session \<Rightarrow> transport_abort_reason \<Rightarrow> frame" where
  "etp_make_abort s reason = etp_make_abort_fields (ts_source s) (ts_destination s) (ts_pgn s) reason"

definition etp_make_session_abort :: "transport_session \<Rightarrow> transport_abort_reason \<Rightarrow> frame" where
  "etp_make_session_abort s reason =
     (let (src, dst) = (case ts_direction s of
            Transmit \<Rightarrow> (ts_source s, ts_destination s)
          | Receive \<Rightarrow> (ts_destination s, ts_source s))
      in etp_make_abort (session_default\<lparr>ts_source := src, ts_destination := dst, ts_pgn := ts_pgn s\<rparr>) reason)"

definition etp_reply_abort :: "address \<Rightarrow> address \<Rightarrow> pgn \<Rightarrow> transport_abort_reason \<Rightarrow> frame" where
  "etp_reply_abort src dst p reason =
     etp_make_abort (session_default\<lparr>ts_source := dst, ts_destination := src, ts_pgn := p\<rparr>) reason"

text \<open>One round and the loop of \<open>generate_data_frames\<close>; the round number restarts with each window.\<close>

definition etp_next_data_frame :: "nat \<Rightarrow> transport_session \<Rightarrow> (transport_session \<times> frame) option" where
  "etp_next_data_frame i s = do {
     end_pos \<leftarrow> checked_add (ts_bytes_transferred s) TP_BYTES_PER_FRAME;
     data \<leftarrow> copy_out 1 (unat (ts_bytes_transferred s)) (unat (ts_total_bytes s)) (ts_data s) [0..<7]
               ((replicate 8 0xFF)[0 := of_nat (i + 1)]);
     Some (s\<lparr>ts_bytes_transferred := min end_pos (ts_total_bytes s)\<rparr>,
           frame8 (id_encode Lowest PGN_ETP_DT (ts_source s) (ts_destination s)) data)
   }"

primrec etp_generate_from :: "nat \<Rightarrow> nat \<Rightarrow> transport_session \<Rightarrow> (transport_session \<times> frame list) option" where
  "etp_generate_from 0 i s = Some (s, [])"
| "etp_generate_from (Suc n) i s =
     (if ts_total_bytes s \<le> ts_bytes_transferred s then Some (s, [])
      else do {
        (s1, f) \<leftarrow> etp_next_data_frame i s;
        (s2, fs) \<leftarrow> etp_generate_from n (i + 1) s1;
        Some (s2, f # fs)
      })"

definition etp_generate_data_frames :: "transport_session \<Rightarrow> u8 \<Rightarrow> (transport_session \<times> frame list) option" where
  "etp_generate_data_frames s n = etp_generate_from (unat n) 0 s"

section \<open>Starting a transfer\<close>

definition etp_send ::
  "etp_engine \<Rightarrow> pgn \<Rightarrow> bytes \<Rightarrow> address \<Rightarrow> address \<Rightarrow> u8 \<Rightarrow> priority \<Rightarrow> etp_engine \<times> frame list net_result" where
  "etp_send e p data src dest port prio =
     (if \<not> pgn_is_valid p
      then (e, Inl (error_invalid_data (''ETP target PGN '' @ hex_padded 0 (unat p) @
              '' exceeds the 18-bit J1939/ISOBUS PGN range'')))
      else if \<not> valid_etp_source src then (e, Inl (error_invalid_address src))
      else if \<not> valid_etp_destination dest then (e, Inl (error_invalid_address dest))
      else if ETP_MAX_DATA_LENGTH < of_nat (length data)
      then (etp_note_resource_rejection e, Inl error_buffer_overflow)
      else if of_nat (length data) \<le> TP_MAX_DATA_LENGTH
      then (e, Inl (error_invalid_state ''use TP for <= 1785 bytes''))
      else if transmit_dt_path_is_active e src dest port
      then (e, Inl (error_with_message SessionExists ''session already active''))
      else if et_max_sessions e \<le> length (et_sessions e)
      then (etp_note_resource_rejection e,
            Inl (error_with_message NoResources ''no ETP session slots available''))
      else
        let s = session_default\<lparr>ts_direction := Transmit, ts_state := WaitingForCTS, ts_pgn := p,
                  ts_data := data, ts_total_bytes := of_nat (length data), ts_source := src,
                  ts_destination := dest, ts_can_port := port, ts_priority := prio\<rparr>
        in (etp_push_session s e, Inr [etp_make_rts s]))"

section \<open>Connection management frames\<close>

type_synonym etp_result = "etp_engine \<times> frame list"

definition etp_handle_rts :: "etp_engine \<Rightarrow> frame \<Rightarrow> u8 \<Rightarrow> pgn \<Rightarrow> etp_result" where
  "etp_handle_rts e f port p =
     (let src = frame_source f; dst = frame_destination f; msg_size = cm_size4 (fr_data f)
      in case receive_profile_for_advertised_size e msg_size of
           Inl reason \<Rightarrow>
             if reason = UnexpectedDataSize
             then (etp_note_abort_sent (etp_note_dropped_frame e), [etp_reply_abort src dst p UnexpectedDataSize])
             else (etp_note_abort_sent
                     ((if reason = ResourcesUnavailable then etp_note_resource_rejection else id)
                        (etp_note_dropped_frame e)), [etp_reply_abort src dst p reason])
         | Inr profile \<Rightarrow>
             if 0xFFFFFF < rp_total_packets profile
             then (etp_note_abort_sent (etp_note_dropped_frame e), [etp_reply_abort src dst p UnexpectedDataSize])
             else if receive_dt_path_is_active e src dst port
             then (etp_note_abort_sent (etp_note_dropped_frame e), [etp_reply_abort src dst p AlreadyInSession])
             else if et_max_sessions e \<le> length (et_sessions e)
             then (etp_note_abort_sent (etp_note_resource_rejection (etp_note_dropped_frame e)),
                   [etp_reply_abort src dst p ResourcesUnavailable])
             else case etp_rx_buffer msg_size (et_max_receive_bytes e) of
               Inl reason \<Rightarrow>
                 (etp_note_abort_sent
                    ((if reason = ResourcesUnavailable then etp_note_resource_rejection else id)
                       (etp_note_dropped_frame e)), [etp_reply_abort src dst p reason])
             | Inr data \<Rightarrow>
                 (etp_push_session
                    (session_default\<lparr>ts_direction := Receive, ts_state := WaitingForData, ts_pgn := p,
                       ts_total_bytes := msg_size, ts_source := src, ts_destination := dst,
                       ts_can_port := port, ts_priority := frame_priority f, ts_data := data,
                       ts_cts_window_size := ucast TP_MAX_PACKETS_PER_CTS\<rparr>) e,
                  [etp_make_cts dst src (ucast TP_MAX_PACKETS_PER_CTS) 1 p]))"

definition etp_cts_matches :: "address \<Rightarrow> address \<Rightarrow> u8 \<Rightarrow> pgn \<Rightarrow> transport_session \<Rightarrow> bool" where
  "etp_cts_matches src dst port p s =
     (ts_direction s = Transmit \<and> ts_source s = dst \<and> ts_destination s = src \<and> ts_pgn s = p
      \<and> (ts_state s = WaitingForCTS \<or> ts_state s = SendingData) \<and> ts_can_port s = port)"

definition etp_cts_window :: "transport_session \<Rightarrow> u8 \<Rightarrow> u32 \<Rightarrow> u8" where
  "etp_cts_window s num_packets next_pkt =
     ucast (min (min (ucast num_packets) (total_packets s - (next_pkt - 1))) TP_MAX_PACKETS_PER_CTS)"

definition etp_is_duplicate_current_window :: "transport_session \<Rightarrow> u8 \<Rightarrow> u32 \<Rightarrow> bool" where
  "etp_is_duplicate_current_window s num_packets next_pkt =
     (num_packets \<noteq> 0 \<and> next_pkt \<noteq> 0 \<and> next_pkt \<le> total_packets s
      \<and> next_pkt = ts_bytes_transferred s div 7 + 1
      \<and> ts_packets_to_send s = etp_cts_window s num_packets next_pkt)"

definition etp_apply_cts ::
  "u8 \<Rightarrow> u32 \<Rightarrow> transport_session \<Rightarrow> transport_session \<times> transport_abort_reason option" where
  "etp_apply_cts num_packets next_pkt s =
     (if ts_state s = SendingData
      then if etp_is_duplicate_current_window s num_packets next_pkt
           then (s\<lparr>ts_timer_ms := 0\<rparr>, None)
           else (s\<lparr>ts_state := SessionAborted\<rparr>, Some ConnectionModeError)
      else if num_packets = 0 then (s\<lparr>ts_timer_ms := 0\<rparr>, None)
      else if next_pkt = 0 \<or> total_packets s < next_pkt
      then (s\<lparr>ts_state := SessionAborted\<rparr>, Some BadSequence)
      else (s\<lparr>ts_state := SendingData, ts_packets_to_send := etp_cts_window s num_packets next_pkt,
              ts_bytes_transferred := (next_pkt - 1) * 7, ts_timer_ms := 0\<rparr>, None))"

definition etp_handle_cts :: "etp_engine \<Rightarrow> frame \<Rightarrow> u8 \<Rightarrow> pgn \<Rightarrow> etp_result option" where
  "etp_handle_cts e f port p =
     (case position (etp_cts_matches (frame_source f) (frame_destination f) port p) (et_sessions e) of
        None \<Rightarrow> Some (etp_note_dropped_frame e, [])
      | Some i \<Rightarrow>
          let (s, aborted) = etp_apply_cts (fr_data f ! 1) (cm_packet3 (fr_data f)) (et_sessions e ! i);
              e1 = etp_put i s e
          in case aborted of
               None \<Rightarrow> Some (e1, [])
             | Some reason \<Rightarrow> do {
                 let e2 = etp_note_abort_sent (etp_note_dropped_session (etp_note_dropped_frame
                            (etp_emit_abort (abort_event_from_session s reason) e1)));
                 (_, e3) \<leftarrow> etp_remove_session i e2;
                 Some (e3, [etp_make_session_abort s reason])
               })"

text \<open>The abort of a receive session for a bad window or sequence, shared by the DPO arm and the data path.\<close>

definition etp_abort_receive :: "nat \<Rightarrow> etp_engine \<Rightarrow> etp_result option" where
  "etp_abort_receive i e = do {
     let s = et_sessions e ! i;
     let s' = s\<lparr>ts_state := SessionAborted\<rparr>;
     let e2 = etp_note_dropped_session (etp_note_dropped_frame
                (etp_emit_abort (abort_event_from_session s' BadSequence)
                   (etp_put i s' (etp_note_abort_sent e))));
     (_, e3) \<leftarrow> etp_remove_session i e2;
     Some (e3, [etp_make_session_abort s BadSequence])
   }"

definition etp_handle_dpo :: "etp_engine \<Rightarrow> frame \<Rightarrow> u8 \<Rightarrow> pgn \<Rightarrow> etp_result option" where
  "etp_handle_dpo e f port p =
     (let src = frame_source f; dst = frame_destination f;
          num_packets = fr_data f ! 1; packet_offset = cm_packet3 (fr_data f)
      in case etp_session_position (\<lambda>s. ts_direction s = Receive \<and> ts_source s = src
                \<and> ts_destination s = dst \<and> ts_pgn s = p \<and> ts_can_port s = port) e of
           None \<Rightarrow> Some (etp_note_dropped_frame e, [])
         | Some i \<Rightarrow> do {
             let s = et_sessions e ! i;
             let expected_packet_offset = ts_bytes_transferred s div 7;
             remaining_bytes \<leftarrow> checked_sub (ts_total_bytes s) (ts_bytes_transferred s);
             let packet_window_valid = (num_packets \<noteq> 0 \<and> num_packets \<le> ts_cts_window_size s
                   \<and> ucast num_packets \<le> div_ceil remaining_bytes 7 \<and> packet_offset = expected_packet_offset);
             if \<not> packet_window_valid then etp_abort_receive i e
             else Some (etp_put i (s\<lparr>ts_dpo_packet_offset := packet_offset, ts_cts_window_size := num_packets,
                                    ts_packets_to_send := num_packets, ts_last_sequence := 0,
                                    ts_timer_ms := 0\<rparr>) e, [])
           })"

definition etp_handle_eoma :: "etp_engine \<Rightarrow> frame \<Rightarrow> u8 \<Rightarrow> pgn \<Rightarrow> etp_result option" where
  "etp_handle_eoma e f port p =
     (let src = frame_source f; dst = frame_destination f
      in case etp_session_position (\<lambda>s. ts_direction s = Transmit \<and> ts_source s = dst
                \<and> ts_destination s = src \<and> ts_pgn s = p \<and> ts_can_port s = port) e of
           None \<Rightarrow> Some (etp_note_dropped_frame e, [])
         | Some i \<Rightarrow>
             let s = et_sessions e ! i; ack_total = cm_size4 (fr_data f)
             in if ts_state s \<noteq> WaitingForEndOfMsg \<or> ack_total \<noteq> ts_total_bytes s
                then Some (etp_note_dropped_frame e, [])
                else do {
                  (s', e') \<leftarrow> etp_remove_session i e;
                  Some (etp_emit_complete (s'\<lparr>ts_state := SessionComplete\<rparr>) e', [])
                })"

definition etp_handle_abort :: "etp_engine \<Rightarrow> frame \<Rightarrow> u8 \<Rightarrow> pgn \<Rightarrow> etp_result option" where
  "etp_handle_abort e f port p =
     (let src = frame_source f; dst = frame_destination f;
          reason = (case abort_reason_try_from_u8 (fr_data f ! 1) of Some r \<Rightarrow> r | None \<Rightarrow> OtherReason)
      in case etp_session_position (\<lambda>s. ts_pgn s = p \<and> ts_can_port s = port
                \<and> (ts_source s = dst \<and> ts_destination s = src
                   \<or> ts_source s = src \<and> ts_destination s = dst)) e of
           None \<Rightarrow> Some (etp_note_dropped_frame e, [])
         | Some i \<Rightarrow> do {
             let s = (et_sessions e ! i)\<lparr>ts_state := SessionAborted\<rparr>;
             let e1 = etp_emit_abort (abort_event_from_session s reason) (etp_put i s e);
             (_, e2) \<leftarrow> etp_remove_session i e1;
             Some (etp_note_dropped_session (etp_note_abort_received e2), [])
           })"

definition etp_handle_cm :: "etp_engine \<Rightarrow> frame \<Rightarrow> u8 \<Rightarrow> etp_result option" where
  "etp_handle_cm e f port =
     (let control_byte = fr_data f ! 0;
          cm_pgn = etp_pgn_from_cm_bytes (fr_data f)
      in if \<not> pgn_is_valid cm_pgn then Some (etp_note_dropped_frame e, [])
         else if control_byte = etp_cm_RTS then Some (etp_handle_rts e f port cm_pgn)
         else if control_byte = etp_cm_CTS then etp_handle_cts e f port cm_pgn
         else if control_byte = etp_cm_DPO then etp_handle_dpo e f port cm_pgn
         else if control_byte = etp_cm_EOMA then etp_handle_eoma e f port cm_pgn
         else if control_byte = etp_cm_ABORT then etp_handle_abort e f port cm_pgn
         else Some (etp_note_dropped_frame e, []))"

section \<open>Data frames\<close>

definition etp_ingest_dt :: "u8 \<Rightarrow> bytes \<Rightarrow> transport_session \<Rightarrow> transport_session option" where
  "etp_ingest_dt seq frame_data s = do {
     packet \<leftarrow> checked_add (ts_dpo_packet_offset s) (ucast seq);
     index \<leftarrow> checked_sub packet 1;
     byte_offset \<leftarrow> checked_mul index 7;
     end_pos \<leftarrow> checked_add byte_offset 7;
     data \<leftarrow> copy_in 1 (unat byte_offset) (unat (ts_total_bytes s)) frame_data [0..<7] (ts_data s);
     Some (s\<lparr>ts_data := data, ts_bytes_transferred := min end_pos (ts_total_bytes s),
             ts_last_sequence := seq, ts_timer_ms := 0\<rparr>)
   }"

definition etp_finish_receive :: "nat \<Rightarrow> transport_session \<Rightarrow> etp_engine \<Rightarrow> etp_result option" where
  "etp_finish_receive i s e = do {
     let s' = s\<lparr>ts_state := SessionComplete\<rparr>;
     (session, e1) \<leftarrow> etp_remove_session i (etp_put i s' e);
     Some (etp_emit_complete session e1,
           [etp_make_eoma (ts_destination s') (ts_source s') (ts_total_bytes s') (ts_pgn s')])
   }"

definition etp_next_window :: "nat \<Rightarrow> u8 \<Rightarrow> transport_session \<Rightarrow> etp_engine \<Rightarrow> etp_result option" where
  "etp_next_window i seq s e =
     (if ts_cts_window_size s \<le> seq
      then do {
        packet \<leftarrow> checked_add (ts_dpo_packet_offset s) (ucast seq);
        next_pkt \<leftarrow> checked_add packet 1;
        remaining_bytes \<leftarrow> checked_sub (ts_total_bytes s) (ts_bytes_transferred s);
        let next_count = ucast (min (div_ceil remaining_bytes 7) TP_MAX_PACKETS_PER_CTS);
        Some (etp_put i (s\<lparr>ts_cts_window_size := next_count, ts_packets_to_send := 0\<rparr>) e,
              [etp_make_cts (ts_destination s) (ts_source s) next_count next_pkt (ts_pgn s)])
      }
      else Some (etp_put i s e, []))"

definition etp_dt_matches :: "address \<Rightarrow> address \<Rightarrow> u8 \<Rightarrow> transport_session \<Rightarrow> bool" where
  "etp_dt_matches src dst port s =
     (ts_direction s = Receive \<and> ts_source s = src \<and> ts_destination s = dst \<and> ts_can_port s = port
      \<and> ts_state s = WaitingForData)"

definition etp_handle_dt :: "etp_engine \<Rightarrow> frame \<Rightarrow> u8 \<Rightarrow> etp_result option" where
  "etp_handle_dt e f port =
     (let seq = fr_data f ! 0
      in case etp_session_position (etp_dt_matches (frame_source f) (frame_destination f) port) e of
           None \<Rightarrow> Some (etp_note_dropped_frame e, [])
         | Some i \<Rightarrow>
             let s = et_sessions e ! i
             in if ts_packets_to_send s = 0 then etp_abort_receive i e
                else do {
                  expected \<leftarrow> checked_add (ts_last_sequence s) 1;
                  if seq \<noteq> expected then etp_abort_receive i e
                  else do {
                    s1 \<leftarrow> etp_ingest_dt seq (fr_data f) s;
                    if ts_total_bytes s1 \<le> ts_bytes_transferred s1 then etp_finish_receive i s1 e
                    else etp_next_window i seq s1 e
                  }
                })"

definition etp_process_frame :: "etp_engine \<Rightarrow> frame \<Rightarrow> u8 \<Rightarrow> etp_result option" where
  "etp_process_frame e f port =
     (if (frame_pgn f = PGN_ETP_CM \<or> frame_pgn f = PGN_ETP_DT) \<and> fr_length f < 8
      then Some (etp_note_dropped_frame e, [])
      else if (frame_pgn f = PGN_ETP_CM \<or> frame_pgn f = PGN_ETP_DT)
              \<and> (\<not> valid_etp_source (frame_source f) \<or> \<not> valid_etp_destination (frame_destination f))
      then Some (etp_note_dropped_frame e, [])
      else if frame_pgn f = PGN_ETP_CM then etp_handle_cm e f port
      else if frame_pgn f = PGN_ETP_DT then etp_handle_dt e f port
      else Some (e, []))"

section \<open>Time and pending data\<close>

definition etp_deadline_ms :: "session_state \<Rightarrow> u32" where
  "etp_deadline_ms st =
     (case st of WaitingForCTS \<Rightarrow> ETP_TIMEOUT_T3_MS | WaitingForEndOfMsg \<Rightarrow> ETP_TIMEOUT_T3_MS
      | WaitingForData \<Rightarrow> ETP_TIMEOUT_T2_MS | ReceivingData \<Rightarrow> ETP_TIMEOUT_T1_MS | _ \<Rightarrow> 0xFFFFFFFF)"

definition etp_update_session ::
  "u32 \<Rightarrow> nat \<Rightarrow> etp_engine \<Rightarrow> (etp_engine \<times> frame list \<times> bool) option" where
  "etp_update_session elapsed i e = do {
     let s0 = et_sessions e ! i;
     let s = s0\<lparr>ts_timer_ms := saturating_add (ts_timer_ms s0) elapsed\<rparr>;
     if etp_deadline_ms (ts_state s) \<le> ts_timer_ms s
     then do {
       let s' = s\<lparr>ts_state := SessionAborted\<rparr>;
       let e1 = etp_emit_abort (abort_event_from_session s' SessionTimeout) (etp_put i s' e);
       (_, e2) \<leftarrow> etp_remove_session i (etp_note_abort_sent (etp_note_dropped_session (etp_note_timeout e1)));
       Some (e2, [etp_make_session_abort s' SessionTimeout], True)
     }
     else Some (etp_put i s e, [], False)
   }"

text \<open>The loop of \<open>update\<close>, with one unit of fuel per session as in the transport engine.\<close>

primrec etp_update_loop :: "nat \<Rightarrow> u32 \<Rightarrow> nat \<Rightarrow> etp_engine \<Rightarrow> etp_result option" where
  "etp_update_loop 0 elapsed i e = (if i < length (et_sessions e) then None else Some (e, []))"
| "etp_update_loop (Suc fuel) elapsed i e =
     (if i < length (et_sessions e)
      then do {
        (e1, frames, removed) \<leftarrow> etp_update_session elapsed i e;
        (e2, more) \<leftarrow> etp_update_loop fuel elapsed (if removed then i else i + 1) e1;
        Some (e2, frames @ more)
      }
      else Some (e, []))"

definition etp_update :: "etp_engine \<Rightarrow> u32 \<Rightarrow> etp_result option" where
  "etp_update e elapsed = etp_update_loop (length (et_sessions e)) elapsed 0 e"

definition etp_drain_session :: "transport_session \<Rightarrow> (transport_session \<times> frame list) option" where
  "etp_drain_session s =
     (if ts_state s = SendingData \<and> ts_direction s = Transmit
      then do {
        let dpo = make_dpo s;
        (s1, frames) \<leftarrow> etp_generate_data_frames s (ts_packets_to_send s);
        Some (s1\<lparr>ts_state := (if ts_total_bytes s1 \<le> ts_bytes_transferred s1 then WaitingForEndOfMsg
                             else WaitingForCTS),
                 ts_timer_ms := 0\<rparr>, dpo # frames)
      }
      else Some (s, []))"

primrec etp_drain_sessions :: "transport_session list \<Rightarrow> (transport_session list \<times> frame list) option" where
  "etp_drain_sessions [] = Some ([], [])"
| "etp_drain_sessions (s # ss) = do {
     (s', frames) \<leftarrow> etp_drain_session s;
     (ss', more) \<leftarrow> etp_drain_sessions ss;
     Some (s' # ss', frames @ more)
   }"

definition etp_get_pending_data_frames :: "etp_engine \<Rightarrow> etp_result option" where
  "etp_get_pending_data_frames e = do {
     (ss, frames) \<leftarrow> etp_drain_sessions (et_sessions e);
     Some (e\<lparr>et_sessions := ss\<rparr>, frames)
   }"

definition etp_abort_sessions_for_address :: "etp_engine \<Rightarrow> u8 \<Rightarrow> address \<Rightarrow> etp_result" where
  "etp_abort_sessions_for_address e port a =
     (e\<lparr>et_sessions := filter (\<lambda>s. ts_can_port s \<noteq> port \<or> ts_source s \<noteq> a \<and> ts_destination s \<noteq> a)
                        (et_sessions e)\<rparr>, [])"

end
