(* ===== verification/ETP_Safety.thy ===== *)
theory ETP_Safety
  imports ETP_Engine TP_Safety
begin

unbundle bit_operations_syntax

text \<open>
  The extended transport engine: the wire form of its frames, the invariant of its sessions, and that every
  operation returns and keeps it, so that no index, subtraction, multiplication or addition panics.
\<close>

section \<open>Wire form\<close>

lemma size_bytes4_roundtrip: "cm_size4 (b0 # size_bytes4 w @ rest) = w"
proof (rule bit_word_eqI)
  fix k assume "k < LENGTH(32)"
  moreover have "k < 8 \<or> 8 \<le> k \<and> k < 16 \<or> 16 \<le> k \<and> k < 24 \<or> 24 \<le> k" by linarith
  ultimately show "bit (cm_size4 (b0 # size_bytes4 w @ rest)) k = bit w k"
    by (auto simp: cm_size4_def size_bytes4_def bit_simps bit_low_byte dest: bit_u8)
qed

lemma packet_bytes3_roundtrip:
  assumes "unat w < 2 ^ 24"
  shows "cm_packet3 (b0 # b1 # packet_bytes3 w @ rest) = w"
proof (rule bit_word_eqI)
  fix k assume "k < LENGTH(32)"
  have "w AND mask 24 = w" using assms by (intro less_mask_eq) (simp add: word_less_nat_alt)
  then have top: "bit w k \<Longrightarrow> k < 24" by (metis bit_and_iff bit_mask_iff)
  have "k < 8 \<or> 8 \<le> k \<and> k < 16 \<or> 16 \<le> k \<and> k < 24 \<or> 24 \<le> k" by linarith
  then show "bit (cm_packet3 (b0 # b1 # packet_bytes3 w @ rest)) k = bit w k"
    using top by (auto simp: cm_packet3_def packet_bytes3_def bit_simps bit_low_byte dest: bit_u8)
qed

lemma etp_pgn_from_cm_bytes_eq: "etp_pgn_from_cm_bytes = pgn_from_cm_bytes"
  by (simp add: etp_pgn_from_cm_bytes_def pgn_from_cm_bytes_def fun_eq_iff)

lemma wire_lengths [simp]: "length (size_bytes4 w) = 4" "length (packet_bytes3 w) = 3"
  by (simp_all add: size_bytes4_def packet_bytes3_def)

lemma etp_pgn_consts: "pgn_is_valid PGN_ETP_CM" "pgn_is_valid PGN_ETP_DT" "pgn_normalize PGN_ETP_CM = PGN_ETP_CM"
  "pgn_normalize PGN_ETP_DT = PGN_ETP_DT" "\<not> pgn_is_pdu2 PGN_ETP_CM" "\<not> pgn_is_pdu2 PGN_ETP_DT"
  by code_simp+

lemma etp_frame_wire:
  "frame_pgn (frame8 (id_encode prio PGN_ETP_CM src dst) d) = PGN_ETP_CM"
  "frame_pgn (frame8 (id_encode prio PGN_ETP_DT src dst) d) = PGN_ETP_DT"
  "frame_source (frame8 (id_encode prio q src dst) d) = src"
  "frame_destination (frame8 (id_encode prio PGN_ETP_CM src dst) d) = dst"
  "frame_destination (frame8 (id_encode prio PGN_ETP_DT src dst) d) = dst"
  "frame_priority (frame8 (id_encode prio q src dst) d) = prio"
  by (simp_all add: frame_accessors id_pgn_encode etp_pgn_consts)

lemma etp_pgns_differ: "PGN_ETP_CM \<noteq> PGN_ETP_DT"
  by (simp add: PGN_ETP_CM_def PGN_ETP_DT_def)

lemmas etp_cm_frame_defs = etp_make_rts_fields_def etp_make_rts_def make_dpo_fields_def make_dpo_def
  etp_make_cts_def etp_make_eoma_def etp_make_abort_fields_def etp_make_abort_def

definition etp_frame_ok :: "frame \<Rightarrow> bool" where
  "etp_frame_ok f \<longleftrightarrow> wf_frame f \<and> fr_length f = 8 \<and> frame_priority f = Lowest
     \<and> (frame_pgn f = PGN_ETP_CM \<or> frame_pgn f = PGN_ETP_DT)"

lemma etp_frame_ok_builders [simp]:
  "etp_frame_ok (etp_make_rts s)" "etp_frame_ok (make_dpo s)" "etp_frame_ok (etp_make_cts a b n q p)"
  "etp_frame_ok (etp_make_eoma a b t p)" "etp_frame_ok (etp_make_abort s r)"
  "etp_frame_ok (etp_make_session_abort s r)" "etp_frame_ok (etp_reply_abort a b p r)"
  by (simp_all add: etp_frame_ok_def etp_cm_frame_defs etp_make_session_abort_def etp_reply_abort_def
      etp_frame_wire split_beta wf_frame_def)

section \<open>Well-formed sessions\<close>

definition etp_common :: "transport_session \<Rightarrow> bool" where
  "etp_common s \<longleftrightarrow>
     1786 \<le> length (ts_data s) \<and> length (ts_data s) \<le> 117440505
     \<and> unat (ts_total_bytes s) = length (ts_data s) \<and> pgn_is_valid (ts_pgn s)
     \<and> valid_etp_source (ts_source s) \<and> valid_etp_destination (ts_destination s)"

definition etp_tx_ok :: "transport_session \<Rightarrow> bool" where
  "etp_tx_ok s \<longleftrightarrow>
     (let b = unat (ts_bytes_transferred s) in
      ts_state s = WaitingForCTS \<and> 7 dvd b \<and> b < length (ts_data s)
      \<or> ts_state s = SendingData \<and> 7 dvd b \<and> 1 \<le> unat (ts_packets_to_send s)
          \<and> b div 7 + unat (ts_packets_to_send s) \<le> session_packets s
      \<or> ts_state s = WaitingForEndOfMsg \<and> b = length (ts_data s))"

definition etp_rx_ok :: "transport_session \<Rightarrow> bool" where
  "etp_rx_ok s \<longleftrightarrow> ts_state s = WaitingForData
     \<and> unat (ts_bytes_transferred s) = 7 * (unat (ts_dpo_packet_offset s) + unat (ts_last_sequence s))
     \<and> unat (ts_bytes_transferred s) < length (ts_data s)
     \<and> 1 \<le> unat (ts_cts_window_size s) \<and> unat (ts_cts_window_size s) \<le> 16 \<and> unat (ts_last_sequence s) \<le> 16
     \<and> (ts_packets_to_send s \<noteq> 0 \<longrightarrow> unat (ts_last_sequence s) < unat (ts_cts_window_size s))"

definition etp_wf :: "transport_session \<Rightarrow> bool" where
  "etp_wf s \<longleftrightarrow> etp_common s \<and> (case ts_direction s of Transmit \<Rightarrow> etp_tx_ok s | Receive \<Rightarrow> etp_rx_ok s)"

definition etp_key :: "transport_session \<Rightarrow> transport_direction \<times> address \<times> address \<times> u8" where
  "etp_key s = (ts_direction s, ts_source s, ts_destination s, ts_can_port s)"

definition etp_inv :: "etp_engine \<Rightarrow> bool" where
  "etp_inv e \<longleftrightarrow> keyed_ok etp_wf etp_key (et_sessions e)"

lemma etp_packets_bound: "etp_common s \<Longrightarrow> session_packets s \<le> 16777215"
  using div_le_mono [of "length (ts_data s) + 6" 117440511 7]
  by (simp add: session_packets_def packet_count_def etp_common_def)

lemma etp_packets_ge: "etp_common s \<Longrightarrow> 256 \<le> session_packets s"
proof -
  assume "etp_common s"
  then have "1792 \<le> length (ts_data s) + 6" by (simp add: etp_common_def)
  from div_le_mono [OF this, of 7] show ?thesis by (simp add: session_packets_def packet_count_def)
qed

lemma etp_total_packets: "etp_common s \<Longrightarrow> unat (total_packets s) = session_packets s"
  by (simp add: etp_common_def session_packets_def unat_total_packets_count)

lemma et_sessions_notes [simp]:
  "et_sessions (etp_note_dropped_frame e) = et_sessions e"
  "et_sessions (etp_note_dropped_session e) = et_sessions e"
  "et_sessions (etp_note_abort_sent e) = et_sessions e"
  "et_sessions (etp_note_abort_received e) = et_sessions e"
  "et_sessions (etp_note_timeout e) = et_sessions e"
  "et_sessions (etp_note_resource_rejection e) = et_sessions e"
  "et_sessions (etp_emit_complete s e) = et_sessions e"
  "et_sessions (etp_emit_abort evt e) = et_sessions e"
  "et_sessions (etp_push_session s e) = et_sessions e @ [s]"
  "et_sessions (etp_put i s e) = (et_sessions e)[i := s]"
  by (simp_all add: etp_note_defs etp_emit_complete_def etp_emit_abort_def etp_push_session_def etp_put_def)

lemma etp_inv_notes [simp]:
  "etp_inv (etp_note_dropped_frame e) = etp_inv e" "etp_inv (etp_note_dropped_session e) = etp_inv e"
  "etp_inv (etp_note_abort_sent e) = etp_inv e" "etp_inv (etp_note_abort_received e) = etp_inv e"
  "etp_inv (etp_note_timeout e) = etp_inv e" "etp_inv (etp_note_resource_rejection e) = etp_inv e"
  "etp_inv (etp_emit_complete s e) = etp_inv e" "etp_inv (etp_emit_abort evt e) = etp_inv e"
  by (simp_all add: etp_inv_def)

lemma etp_remove_session_Some [panic_simps]:
  "i < length (et_sessions e) \<Longrightarrow> etp_remove_session i e =
     Some (et_sessions e ! i, e\<lparr>et_sessions := butlast ((et_sessions e)[i := last (et_sessions e)])\<rparr>)"
  by (simp add: etp_remove_session_def swap_remove_Some)

lemma etp_wf_timer [simp]: "etp_wf (s\<lparr>ts_timer_ms := t\<rparr>) = etp_wf s" "etp_key (s\<lparr>ts_timer_ms := t\<rparr>) = etp_key s"
  by (simp_all add: etp_wf_def etp_common_def etp_tx_ok_def etp_rx_ok_def etp_key_def session_packets_def
      cong: transport_direction.case_cong)

section \<open>Starting a transfer\<close>

lemma etp_send_inv:
  assumes "etp_inv e" and "length data < 2 ^ 32" and "etp_send e p data src dest port prio = (e', r)"
  shows "etp_inv e' \<and> (\<forall>fs. r = Inr fs \<longrightarrow> (\<forall>f \<in> set fs. etp_frame_ok f))"
proof (cases "isl r")
  case True
  then have "et_sessions e' = et_sessions e"
    using assms(3) by (auto simp: etp_send_def Let_def split: if_splits)
  then show ?thesis using assms(1) True by (auto simp: etp_inv_def)
next
  case False
  define s where "s = session_default\<lparr>ts_direction := Transmit, ts_state := WaitingForCTS, ts_pgn := p,
      ts_data := data, ts_total_bytes := of_nat (length data), ts_source := src,
      ts_destination := dest, ts_can_port := port, ts_priority := prio\<rparr>"
  have len: "unat (of_nat (length data) :: u32) = length data"
    using assms(2) by (rule unat_of_nat_u32)
  have ok: "pgn_is_valid p" "valid_etp_source src" "valid_etp_destination dest"
    "length data \<le> 117440505" "1786 \<le> length data"
    "\<forall>s \<in> set (et_sessions e). \<not> (ts_direction s = Transmit \<and> ts_source s = src \<and> ts_destination s = dest
        \<and> ts_can_port s = port)"
    "et_sessions e' = et_sessions e @ [s]" "r = Inr [etp_make_rts s]"
    using assms(3) False len
    by (auto simp: etp_send_def Let_def s_def limit_consts list_ex_iff word_less_nat_alt word_le_nat_alt
        transmit_dt_path_is_active_def split: if_splits)
  have "data \<noteq> []" using ok(5) by auto
  then have "etp_wf s"
    using ok len by (simp add: etp_wf_def etp_common_def etp_tx_ok_def s_def session_default_def)
  moreover have "etp_key s \<notin> etp_key ` set (et_sessions e)"
    using ok(6) by (auto simp: etp_key_def s_def)
  ultimately show ?thesis using assms(1) ok(7,8) by (auto simp: etp_inv_def keyed_ok_append)
qed

lemma etp_handle_rts_inv:
  assumes "etp_inv e" and "pgn_is_valid p" and "valid_etp_source (frame_source f)"
    and "valid_etp_destination (frame_destination f)" and "etp_handle_rts e f port p = (e', fs)"
  shows "etp_inv e' \<and> (\<forall>f \<in> set fs. etp_frame_ok f)"
proof (cases "et_sessions e' = et_sessions e")
  case True
  then show ?thesis
    using assms(1,5) by (auto simp: etp_handle_rts_def Let_def etp_inv_def split: if_splits sum.splits)
next
  case False
  let ?m = "cm_size4 (fr_data f)"
  define s where "s = session_default\<lparr>ts_direction := Receive, ts_state := WaitingForData, ts_pgn := p,
      ts_total_bytes := ?m, ts_source := frame_source f, ts_destination := frame_destination f,
      ts_can_port := port, ts_priority := frame_priority f, ts_data := replicate (unat ?m) 0xFF,
      ts_cts_window_size := ucast TP_MAX_PACKETS_PER_CTS\<rparr>"
  have e': "et_sessions e' = et_sessions e @ [s]" "\<forall>f \<in> set fs. etp_frame_ok f"
    "1786 \<le> unat ?m" "unat ?m \<le> 117440505" "\<not> receive_dt_path_is_active e (frame_source f) (frame_destination f) port"
    using assms(5) False
    by (auto simp: etp_handle_rts_def Let_def s_def etp_rx_buffer_def receive_profile_for_advertised_size_def
        limit_consts word_le_nat_alt split: if_splits sum.splits)
  have "etp_wf s"
    using assms(2-4) e'(3,4)
    by (simp add: etp_wf_def etp_common_def etp_rx_ok_def s_def session_default_def limit_consts)
  moreover have "etp_key s \<notin> etp_key ` set (et_sessions e)"
    using e'(5) by (auto simp: etp_key_def s_def receive_dt_path_is_active_def list_ex_iff)
  ultimately show ?thesis using assms(1) e' by (simp add: etp_inv_def keyed_ok_append)
qed

section \<open>Connection management frames\<close>

lemma etp_cts_grant_wf:
  assumes "etp_wf s" and "ts_direction s = Transmit" and "n \<noteq> 0" and "q \<noteq> 0" and "unat q \<le> session_packets s"
  shows "unat (etp_cts_window s n q) = min (min (unat n) (session_packets s - (unat q - 1))) 16"
    and "unat ((q - 1) * 7 :: u32) = 7 * (unat q - 1)"
    and "etp_wf (s\<lparr>ts_state := SendingData, ts_packets_to_send := etp_cts_window s n q,
              ts_bytes_transferred := (q - 1) * 7, ts_timer_ms := 0\<rparr>)"
proof -
  have com: "etp_common s" using assms(1) by (simp add: etp_wf_def)
  have q: "0 < unat q" "0 < unat n" using assms by (simp_all add: unat_gt_0)
  have q1: "unat (q - 1) = unat q - 1" using q(1) by (simp add: unat_sub_no_wrap)
  have r: "unat (total_packets s - (q - 1)) = session_packets s - (unat q - 1)"
    using assms(5) q1 by (simp add: unat_sub_no_wrap etp_total_packets [OF com])
  have m: "unat (min (min (ucast n) (total_packets s - (q - 1))) TP_MAX_PACKETS_PER_CTS)
      = min (min (unat n) (session_packets s - (unat q - 1))) 16"
    by (simp add: unat_min r limit_consts)
  then have "unat (min (min (ucast n) (total_packets s - (q - 1))) TP_MAX_PACKETS_PER_CTS) < 256" by linarith
  then show w: "unat (etp_cts_window s n q) = min (min (unat n) (session_packets s - (unat q - 1))) 16"
    using m by (simp only: etp_cts_window_def unat_ucast_u32_u8)
  show b: "unat ((q - 1) * 7 :: u32) = 7 * (unat q - 1)"
    using assms(5) etp_packets_bound [OF com] q1 by (subst unat_mult_no_wrap) (simp_all add: mult.commute)
  have "1 \<le> unat (etp_cts_window s n q)" "unat q - 1 + unat (etp_cts_window s n q) \<le> session_packets s"
    unfolding w using q assms(5) by linarith+
  then show "etp_wf (s\<lparr>ts_state := SendingData, ts_packets_to_send := etp_cts_window s n q,
              ts_bytes_transferred := (q - 1) * 7, ts_timer_ms := 0\<rparr>)"
    using com assms(2) b by (simp add: etp_wf_def etp_common_def etp_tx_ok_def session_packets_def)
qed

lemma etp_apply_cts_inv:
  assumes "etp_wf s" and "ts_direction s = Transmit" and "etp_apply_cts n q s = (s', None)"
  shows "etp_wf s' \<and> etp_key s' = etp_key s"
proof -
  have com: "etp_common s" using assms(1) by (simp add: etp_wf_def)
  have le: "\<not> total_packets s < q \<longleftrightarrow> unat q \<le> session_packets s"
    by (simp add: word_less_nat_alt not_less etp_total_packets [OF com])
  show ?thesis
    using assms(1,3) le etp_cts_grant_wf(3) [OF assms(1,2), of n q]
    by (auto simp: etp_apply_cts_def etp_key_def split: if_splits)
qed

lemma etp_handle_cts_safe:
  assumes "etp_inv e"
  shows "\<exists>e' fs. etp_handle_cts e f port p = Some (e', fs) \<and> etp_inv e' \<and> (\<forall>f \<in> set fs. etp_frame_ok f)"
proof (cases "position (etp_cts_matches (frame_source f) (frame_destination f) port p) (et_sessions e)")
  case None
  then show ?thesis using assms by (simp add: etp_handle_cts_def)
next
  case (Some i)
  obtain s aborted where a: "etp_apply_cts (fr_data f ! 1) (cm_packet3 (fr_data f)) (et_sessions e ! i) = (s, aborted)"
    by (metis surj_pair)
  have i: "i < length (et_sessions e)" "ts_direction (et_sessions e ! i) = Transmit"
    using position_SomeD [OF Some] by (simp_all add: etp_cts_matches_def)
  have wf: "etp_wf (et_sessions e ! i)" using assms i(1) by (simp add: etp_inv_def keyed_ok_nth)
  show ?thesis
  proof (cases aborted)
    case None
    then have "etp_inv (etp_put i s e)"
      using etp_apply_cts_inv [OF wf i(2)] a assms i(1) by (simp add: etp_inv_def keyed_ok_update)
    then show ?thesis using Some a None by (simp add: etp_handle_cts_def)
  next
    case reason: (Some reason)
    then show ?thesis
      using Some a assms i(1)
      by (simp add: etp_handle_cts_def etp_remove_session_Some etp_inv_def keyed_ok_remove_update)
  qed
qed

lemma etp_abort_receive_safe:
  assumes "etp_inv e" and "i < length (et_sessions e)"
  shows "\<exists>e' fs. etp_abort_receive i e = Some (e', fs) \<and> etp_inv e' \<and> (\<forall>f \<in> set fs. etp_frame_ok f)"
  using assms by (simp add: etp_abort_receive_def Let_def etp_remove_session_Some etp_inv_def keyed_ok_remove_update)

definition etp_window_valid :: "transport_session \<Rightarrow> u8 \<Rightarrow> u32 \<Rightarrow> bool" where
  "etp_window_valid s n off \<longleftrightarrow> n \<noteq> 0 \<and> n \<le> ts_cts_window_size s
     \<and> unat off = unat (ts_dpo_packet_offset s) + unat (ts_last_sequence s)
     \<and> unat off + unat n \<le> session_packets s"

definition dpo_session :: "u8 \<Rightarrow> u32 \<Rightarrow> transport_session \<Rightarrow> transport_session" where
  "dpo_session n off s = s\<lparr>ts_dpo_packet_offset := off, ts_cts_window_size := n, ts_packets_to_send := n,
     ts_last_sequence := 0, ts_timer_ms := 0\<rparr>"

lemma packet_count_minus: "7 * k \<le> n \<Longrightarrow> packet_count (n - 7 * k) = packet_count n - k"
  by (simp add: packet_count_def)

lemma etp_rx_position:
  assumes "etp_wf s" and "ts_direction s = Receive"
  shows "etp_common s" "etp_rx_ok s"
    "unat (ts_dpo_packet_offset s) + unat (ts_last_sequence s) < session_packets s"
  using assms packet_count_less [of "unat (ts_dpo_packet_offset s) + unat (ts_last_sequence s)" "length (ts_data s)"]
  by (simp_all add: etp_wf_def etp_rx_ok_def session_packets_def)

lemma etp_handle_dpo_eq:
  assumes pos: "etp_session_position (\<lambda>s. ts_direction s = Receive \<and> ts_source s = frame_source f
      \<and> ts_destination s = frame_destination f \<and> ts_pgn s = p \<and> ts_can_port s = port) e = Some i"
    and wf: "etp_wf (et_sessions e ! i)" and rx: "ts_direction (et_sessions e ! i) = Receive"
  shows "etp_handle_dpo e f port p =
    (if etp_window_valid (et_sessions e ! i) (fr_data f ! 1) (cm_packet3 (fr_data f))
     then Some (etp_put i (dpo_session (fr_data f ! 1) (cm_packet3 (fr_data f)) (et_sessions e ! i)) e, [])
     else etp_abort_receive i e)"
proof -
  let ?s = "et_sessions e ! i"
  let ?k = "unat (ts_dpo_packet_offset ?s) + unat (ts_last_sequence ?s)"
  note com = etp_rx_position [OF wf rx]
  have b: "unat (ts_bytes_transferred ?s) = 7 * ?k" "7 * ?k < unat (ts_total_bytes ?s)"
    "unat (ts_total_bytes ?s) = length (ts_data ?s)"
    using com(1,2) by (simp_all add: etp_rx_ok_def etp_common_def)
  have sub: "checked_sub (ts_total_bytes ?s) (ts_bytes_transferred ?s)
      = Some (ts_total_bytes ?s - ts_bytes_transferred ?s)"
    using b by (intro checked_sub_Some) simp
  have "unat (div_ceil (ts_total_bytes ?s - ts_bytes_transferred ?s) 7) = packet_count (length (ts_data ?s) - 7 * ?k)"
    using b by (subst unat_div_ceil) (simp_all add: unat_sub_no_wrap packet_count_def)
  also have "\<dots> = session_packets ?s - ?k" using b by (subst packet_count_minus) (simp_all add: session_packets_def)
  finally have r: "ucast n \<le> div_ceil (ts_total_bytes ?s - ts_bytes_transferred ?s) 7
      \<longleftrightarrow> unat n \<le> session_packets ?s - ?k" for n :: u8
    by (simp add: word_le_nat_alt)
  have off: "off = ts_bytes_transferred ?s div 7 \<longleftrightarrow> unat off = ?k" for off
    using b(1) by (simp add: word_unat_eq_iff unat_div)
  have valid: "(n \<noteq> 0 \<and> n \<le> ts_cts_window_size ?s
      \<and> ucast n \<le> div_ceil (ts_total_bytes ?s - ts_bytes_transferred ?s) 7 \<and> off = ts_bytes_transferred ?s div 7)
      = etp_window_valid ?s n off" for n off
    unfolding r off etp_window_valid_def using com(3) by auto
  show ?thesis
    unfolding etp_handle_dpo_def Let_def pos option.case sub bind.bind_lunit valid
    by (simp add: dpo_session_def)
qed

lemma dpo_session_wf:
  assumes "etp_wf s" and "ts_direction s = Receive" and "etp_window_valid s n off"
  shows "etp_wf (dpo_session n off s)" and "etp_key (dpo_session n off s) = etp_key s"
proof -
  note com = etp_rx_position [OF assms(1,2)]
  have "0 < unat n" using assms(3) by (simp add: etp_window_valid_def unat_gt_0)
  then show "etp_wf (dpo_session n off s)"
    using assms com
    by (auto simp: etp_wf_def etp_common_def etp_rx_ok_def etp_window_valid_def dpo_session_def word_le_nat_alt)
  show "etp_key (dpo_session n off s) = etp_key s" by (simp add: etp_key_def dpo_session_def)
qed

lemma etp_handle_dpo_safe:
  assumes "etp_inv e"
  shows "\<exists>e' fs. etp_handle_dpo e f port p = Some (e', fs) \<and> etp_inv e' \<and> (\<forall>f \<in> set fs. etp_frame_ok f)"
proof (cases "etp_session_position (\<lambda>s. ts_direction s = Receive \<and> ts_source s = frame_source f
      \<and> ts_destination s = frame_destination f \<and> ts_pgn s = p \<and> ts_can_port s = port) e")
  case None
  then show ?thesis using assms by (simp add: etp_handle_dpo_def Let_def)
next
  case (Some i)
  then have i: "i < length (et_sessions e)" "ts_direction (et_sessions e ! i) = Receive"
    by (auto simp: etp_session_position_def dest: position_SomeD)
  have wf: "etp_wf (et_sessions e ! i)" using assms i(1) by (simp add: etp_inv_def keyed_ok_nth)
  show ?thesis
    using etp_handle_dpo_eq [OF Some wf i(2)] dpo_session_wf [OF wf i(2)] etp_abort_receive_safe [OF assms i(1)]
      assms i(1) by (auto simp: etp_inv_def keyed_ok_update)
qed

lemma etp_handle_eoma_safe:
  assumes "etp_inv e"
  shows "\<exists>e' fs. etp_handle_eoma e f port p = Some (e', fs) \<and> etp_inv e' \<and> (\<forall>f \<in> set fs. etp_frame_ok f)"
  using assms
  by (auto simp: etp_handle_eoma_def Let_def etp_session_position_def etp_remove_session_Some etp_inv_def
      keyed_ok_remove dest: position_SomeD split: option.splits)

lemma etp_handle_abort_safe:
  assumes "etp_inv e"
  shows "\<exists>e' fs. etp_handle_abort e f port p = Some (e', fs) \<and> etp_inv e' \<and> (\<forall>f \<in> set fs. etp_frame_ok f)"
proof (cases "etp_session_position (\<lambda>s. ts_pgn s = p \<and> ts_can_port s = port
                \<and> (ts_source s = frame_destination f \<and> ts_destination s = frame_source f
                   \<or> ts_source s = frame_source f \<and> ts_destination s = frame_destination f)) e")
  case None
  then show ?thesis using assms by (simp add: etp_handle_abort_def Let_def)
next
  case (Some i)
  then have "i < length (et_sessions e)" by (auto simp: etp_session_position_def dest: position_SomeD)
  then show ?thesis
    using Some assms
    by (simp add: etp_handle_abort_def Let_def etp_inv_def etp_remove_session_Some keyed_ok_remove_update)
qed

lemma etp_handle_cm_safe:
  assumes "etp_inv e" and "valid_etp_source (frame_source f)" and "valid_etp_destination (frame_destination f)"
  shows "\<exists>e' fs. etp_handle_cm e f port = Some (e', fs) \<and> etp_inv e' \<and> (\<forall>f \<in> set fs. etp_frame_ok f)"
proof -
  let ?p = "etp_pgn_from_cm_bytes (fr_data f)"
  have "pgn_is_valid ?p \<Longrightarrow> \<exists>e' fs. Some (etp_handle_rts e f port ?p) = Some (e', fs) \<and> etp_inv e'
      \<and> (\<forall>f \<in> set fs. etp_frame_ok f)"
    using etp_handle_rts_inv [OF assms(1) _ assms(2,3) prod.collapse [symmetric]] by (metis prod.collapse)
  then show ?thesis
    using assms(1) etp_handle_cts_safe [OF assms(1), of f port ?p] etp_handle_dpo_safe [OF assms(1), of f port ?p]
      etp_handle_eoma_safe [OF assms(1), of f port ?p] etp_handle_abort_safe [OF assms(1), of f port ?p]
    by (simp add: etp_handle_cm_def Let_def)
qed

end
