(* ===== verification/ETP_Runs.thy ===== *)
theory ETP_Runs
  imports ETP_Safety
begin

text \<open>
  The data path, the clock and the pending data of the extended transport engine, and its runs over any
  sequence of inputs.
\<close>

section \<open>One data frame\<close>

text \<open>A receive session after the data frame numbered \<open>seq\<close> of its window, which carries packet \<open>q\<close>.\<close>

definition etp_stored :: "nat \<Rightarrow> u8 \<Rightarrow> bytes \<Rightarrow> transport_session \<Rightarrow> transport_session" where
  "etp_stored q seq d s = s\<lparr>
     ts_data := copied_in 1 (7 * q) (length (ts_data s)) 7 d (ts_data s),
     ts_bytes_transferred := of_nat (min (7 * Suc q) (length (ts_data s))),
     ts_last_sequence := seq, ts_timer_ms := 0\<rparr>"

lemma etp_stored_simps [simp]:
  "length (ts_data (etp_stored q seq d s)) = length (ts_data s)"
  "ts_source (etp_stored q seq d s) = ts_source s" "ts_destination (etp_stored q seq d s) = ts_destination s"
  "ts_state (etp_stored q seq d s) = ts_state s" "ts_total_bytes (etp_stored q seq d s) = ts_total_bytes s"
  "ts_pgn (etp_stored q seq d s) = ts_pgn s" "ts_direction (etp_stored q seq d s) = ts_direction s"
  "ts_can_port (etp_stored q seq d s) = ts_can_port s" "ts_last_sequence (etp_stored q seq d s) = seq"
  "ts_cts_window_size (etp_stored q seq d s) = ts_cts_window_size s"
  "ts_packets_to_send (etp_stored q seq d s) = ts_packets_to_send s"
  "ts_dpo_packet_offset (etp_stored q seq d s) = ts_dpo_packet_offset s"
  "ts_priority (etp_stored q seq d s) = ts_priority s"
  "session_packets (etp_stored q seq d s) = session_packets s"
  "etp_common (etp_stored q seq d s) = etp_common s" "etp_key (etp_stored q seq d s) = etp_key s"
  by (simp_all add: etp_stored_def session_packets_def etp_common_def etp_key_def)

lemma etp_stored_bytes:
  "etp_common s \<Longrightarrow> unat (ts_bytes_transferred (etp_stored q seq d s)) = min (7 * Suc q) (length (ts_data s))"
  unfolding etp_stored_def by (simp, subst unat_of_nat_u32) (auto simp: etp_common_def)

lemma etp_stored_done:
  assumes "etp_common s" and "q < session_packets s"
  shows "ts_total_bytes (etp_stored q seq d s) \<le> ts_bytes_transferred (etp_stored q seq d s)
    \<longleftrightarrow> Suc q = session_packets s"
proof -
  have "unat (ts_total_bytes s) = length (ts_data s)" using assms(1) by (simp add: etp_common_def)
  then show ?thesis
    using assms packet_count_le [of "length (ts_data s)" "Suc q"] etp_stored_bytes [OF assms(1), of q seq d]
    by (auto simp: word_le_nat_alt session_packets_def)
qed

lemma etp_packet_arith:
  fixes seq :: u8
  assumes "etp_common s" and "seq \<noteq> 0" and "unat (ts_dpo_packet_offset s) + unat seq = Suc q"
    and "q < session_packets s"
  defines "packet \<equiv> ts_dpo_packet_offset s + ucast seq :: u32"
  shows "checked_add (ts_dpo_packet_offset s) (ucast seq) = Some packet" "unat packet = Suc q"
    and "checked_sub packet 1 = Some (packet - 1)" "checked_mul (packet - 1) 7 = Some ((packet - 1) * 7)"
    and "checked_add ((packet - 1) * 7) 7 = Some ((packet - 1) * 7 + 7)"
    and "unat ((packet - 1) * 7) = 7 * q" "unat ((packet - 1) * 7 + 7) = 7 * Suc q"
    and "checked_add packet 1 = Some (packet + 1)" "packet + 1 = of_nat (Suc (Suc q))"
proof -
  have q: "q < 16777215" using assms(4) etp_packets_bound [OF assms(1)] by simp
  show 1: "checked_add (ts_dpo_packet_offset s) (ucast seq) = Some packet"
    unfolding packet_def using assms(3) q by (intro checked_add_Some) simp
  show 2: "unat packet = Suc q"
    unfolding packet_def using assms(3) q by (subst unat_add_no_wrap) simp_all
  show "checked_sub packet 1 = Some (packet - 1)" using 2 by (intro checked_sub_Some) simp
  have 3: "unat (packet - 1) = q" using 2 by (simp add: unat_sub_no_wrap)
  then show "checked_mul (packet - 1) 7 = Some ((packet - 1) * 7)" using q by (intro checked_mul_Some) simp
  show 4: "unat ((packet - 1) * 7) = 7 * q" using 3 q by (subst unat_mult_no_wrap) simp_all
  then show "checked_add ((packet - 1) * 7) 7 = Some ((packet - 1) * 7 + 7)" using q by (intro checked_add_Some) simp
  show "unat ((packet - 1) * 7 + 7) = 7 * Suc q" using 4 q by (subst unat_add_no_wrap) simp_all
  show "checked_add packet 1 = Some (packet + 1)" using 2 q by (intro checked_add_Some) simp
  show "packet + 1 = of_nat (Suc (Suc q))"
    using 2 q by (intro of_nat_unat_word [symmetric]) (simp add: unat_add_no_wrap)
qed

lemma etp_ingest_dt_eq:
  assumes "etp_common s" and "seq \<noteq> 0" and "unat (ts_dpo_packet_offset s) + unat seq = Suc q"
    and "q < session_packets s" and "length d = 8"
  shows "etp_ingest_dt seq d s = Some (etp_stored q seq d s)"
proof -
  note a = etp_packet_arith [OF assms(1-4)]
  have len: "unat (ts_total_bytes s) = length (ts_data s)" using assms(1) by (simp add: etp_common_def)
  let ?b = "(ts_dpo_packet_offset s + ucast seq - 1) * 7"
  have bt: "min (?b + 7) (ts_total_bytes s) = of_nat (min (7 * Suc q) (length (ts_data s)))"
    using a(7) len by (intro of_nat_unat_word [symmetric]) (simp add: unat_min)
  have "copy_in 1 (unat ?b) (unat (ts_total_bytes s)) d [0..<7] (ts_data s)
      = Some (copied_in 1 (7 * q) (length (ts_data s)) 7 d (ts_data s))"
    unfolding a(6) len using assms(5) by (subst copy_in_eq) simp_all
  then show ?thesis
    unfolding etp_ingest_dt_def a(1,3,4,5) bind.bind_lunit bt by (simp add: etp_stored_def)
qed

section \<open>Granting the next window\<close>

definition etp_regrant :: "nat \<Rightarrow> transport_session \<Rightarrow> transport_session" where
  "etp_regrant q s = s\<lparr>ts_cts_window_size := of_nat (min (session_packets s - Suc q) 16), ts_packets_to_send := 0\<rparr>"

lemma etp_regrant_size:
  "Suc q < session_packets s \<Longrightarrow> unat (ts_cts_window_size (etp_regrant q s)) = min (session_packets s - Suc q) 16"
  by (simp add: etp_regrant_def unat_of_nat)

lemma etp_next_window_eq:
  fixes d :: bytes
  assumes "etp_common s" and "seq \<noteq> 0" and "unat (ts_dpo_packet_offset s) + unat seq = Suc q"
    and "Suc q < session_packets s"
  defines "s1 \<equiv> etp_stored q seq d s"
  shows "etp_next_window i seq s1 e =
    (if ts_cts_window_size s \<le> seq
     then Some (etp_put i (etp_regrant q s1) e,
            [etp_make_cts (ts_destination s) (ts_source s) (ts_cts_window_size (etp_regrant q s1))
               (of_nat (Suc (Suc q))) (ts_pgn s)])
     else Some (etp_put i s1 e, []))"
proof -
  have com: "etp_common s1" "unat (ts_dpo_packet_offset s1) + unat seq = Suc q" "q < session_packets s1"
    using assms(1,3,4) by (simp_all add: s1_def)
  note a = etp_packet_arith [OF com(1) assms(2) com(2,3)]
  have len: "unat (ts_total_bytes s1) = length (ts_data s1)" using com(1) by (simp add: etp_common_def)
  have lt: "7 * Suc q < length (ts_data s1)"
    using assms(4) packet_count_less [of "Suc q"] by (simp add: s1_def session_packets_def)
  have b: "unat (ts_bytes_transferred s1) = 7 * Suc q"
    using etp_stored_bytes [OF assms(1), of q seq d] lt by (simp add: s1_def)
  have sub: "checked_sub (ts_total_bytes s1) (ts_bytes_transferred s1)
      = Some (ts_total_bytes s1 - ts_bytes_transferred s1)"
    using b len lt by (intro checked_sub_Some) simp
  have "unat (div_ceil (ts_total_bytes s1 - ts_bytes_transferred s1) 7) = packet_count (length (ts_data s1) - 7 * Suc q)"
    using b len lt by (subst unat_div_ceil) (simp_all add: unat_sub_no_wrap packet_count_def)
  also have "\<dots> = session_packets s1 - Suc q"
    using lt by (subst packet_count_minus) (simp_all add: session_packets_def)
  finally have r: "unat (min (div_ceil (ts_total_bytes s1 - ts_bytes_transferred s1) 7) TP_MAX_PACKETS_PER_CTS)
      = min (session_packets s1 - Suc q) 16"
    by (simp add: unat_min limit_consts)
  then have "unat (ucast (min (div_ceil (ts_total_bytes s1 - ts_bytes_transferred s1) 7) TP_MAX_PACKETS_PER_CTS) :: u8)
      = min (session_packets s1 - Suc q) 16"
    by (subst unat_ucast_u32_u8) simp_all
  then have c: "ucast (min (div_ceil (ts_total_bytes s1 - ts_bytes_transferred s1) 7) TP_MAX_PACKETS_PER_CTS)
      = (of_nat (min (session_packets s1 - Suc q) 16) :: u8)"
    by (intro of_nat_unat_word [symmetric])
  show ?thesis
    unfolding etp_next_window_def a(1,8) bind.bind_lunit sub c Let_def a(9)
    by (simp add: etp_regrant_def s1_def)
qed

lemma etp_stored_wf:
  assumes "etp_wf s" and "ts_direction s = Receive" and "seq \<noteq> 0"
    and "unat (ts_dpo_packet_offset s) + unat seq = Suc q" and "Suc q < session_packets s"
  shows "unat seq < unat (ts_cts_window_size s) \<Longrightarrow> etp_wf (etp_stored q seq d s)"
    and "unat seq \<le> 16 \<Longrightarrow> etp_wf (etp_regrant q (etp_stored q seq d s))"
    and "etp_key (etp_regrant q (etp_stored q seq d s)) = etp_key s"
proof -
  note com = etp_rx_position [OF assms(1,2)]
  have lt: "7 * Suc q < length (ts_data s)" using assms(5) packet_count_less [of "Suc q"] by (simp add: session_packets_def)
  then have b: "unat (ts_bytes_transferred (etp_stored q seq d s)) = 7 * Suc q"
    using etp_stored_bytes [OF com(1), of q seq d] by simp
  show "etp_wf (etp_stored q seq d s)" if "unat seq < unat (ts_cts_window_size s)"
    using com assms(2,4) lt b that by (auto simp: etp_wf_def etp_rx_ok_def)
  have w: "unat (ts_cts_window_size (etp_regrant q (etp_stored q seq d s))) = min (session_packets s - Suc q) 16"
    using etp_regrant_size [of q "etp_stored q seq d s"] assms(5) by simp
  show "etp_wf (etp_regrant q (etp_stored q seq d s))" if "unat seq \<le> 16"
    using com assms(2,4,5) lt b w that
    by (auto simp: etp_wf_def etp_rx_ok_def etp_common_def etp_regrant_def)
  show "etp_key (etp_regrant q (etp_stored q seq d s)) = etp_key s" by (simp add: etp_key_def etp_regrant_def)
qed

section \<open>Data frames keep the invariant\<close>

lemma etp_handle_dt_cases:
  assumes pos: "etp_session_position (etp_dt_matches (frame_source f) (frame_destination f) port) e = Some i"
    and wf: "etp_wf (et_sessions e ! i)" and "wf_frame f"
  defines "s \<equiv> et_sessions e ! i" and "seq \<equiv> fr_data f ! 0"
  defines "q \<equiv> unat (ts_dpo_packet_offset s) + unat (ts_last_sequence s)"
  shows "etp_handle_dt e f port =
    (if ts_packets_to_send s = 0 \<or> unat seq \<noteq> Suc (unat (ts_last_sequence s)) then etp_abort_receive i e
     else if Suc q = session_packets s then etp_finish_receive i (etp_stored q seq (fr_data f) s) e
     else etp_next_window i seq (etp_stored q seq (fr_data f) s) e)"
proof -
  have rx: "ts_direction s = Receive"
    using pos by (auto simp: etp_session_position_def s_def etp_dt_matches_def dest: position_SomeD)
  note com = etp_rx_position [OF wf [folded s_def] rx]
  have add: "checked_add (ts_last_sequence s) 1 = Some (ts_last_sequence s + 1)"
    "unat (ts_last_sequence s + 1) = Suc (unat (ts_last_sequence s))"
    using com(2) by (auto intro!: checked_add_Some simp: unat_add_no_wrap etp_rx_ok_def)
  have eq: "seq = ts_last_sequence s + 1 \<longleftrightarrow> unat seq = Suc (unat (ts_last_sequence s))"
    using add(2) by (simp add: word_unat_eq_iff)
  have ing: "etp_ingest_dt seq (fr_data f) s = Some (etp_stored q seq (fr_data f) s)"
    "ts_total_bytes (etp_stored q seq (fr_data f) s) \<le> ts_bytes_transferred (etp_stored q seq (fr_data f) s)
      \<longleftrightarrow> Suc q = session_packets s"
    if "unat seq = Suc (unat (ts_last_sequence s))"
  proof -
    have "seq \<noteq> 0" using that by auto
    moreover have "unat (ts_dpo_packet_offset s) + unat seq = Suc q" using that by (simp add: q_def)
    ultimately show "etp_ingest_dt seq (fr_data f) s = Some (etp_stored q seq (fr_data f) s)"
      using com(1,3) assms(3) by (intro etp_ingest_dt_eq) (simp_all add: q_def wf_frame_def)
  qed (rule etp_stored_done [OF com(1) com(3) [folded q_def]])
  show ?thesis
    using pos add(1) ing eq
    by (cases "unat seq = Suc (unat (ts_last_sequence s))") (simp_all add: etp_handle_dt_def Let_def s_def seq_def)
qed

lemma etp_handle_dt_safe:
  assumes "etp_inv e" and "wf_frame f"
  shows "\<exists>e' fs. etp_handle_dt e f port = Some (e', fs) \<and> etp_inv e' \<and> (\<forall>f \<in> set fs. etp_frame_ok f)"
proof (cases "etp_session_position (etp_dt_matches (frame_source f) (frame_destination f) port) e")
  case None
  then show ?thesis using assms(1) by (simp add: etp_handle_dt_def)
next
  case (Some i)
  let ?s = "et_sessions e ! i" and ?seq = "fr_data f ! 0"
  let ?q = "unat (ts_dpo_packet_offset ?s) + unat (ts_last_sequence ?s)"
  have i: "i < length (et_sessions e)" "ts_direction ?s = Receive"
    using Some by (auto simp: etp_session_position_def etp_dt_matches_def dest: position_SomeD)
  have wf: "etp_wf ?s" using assms(1) i(1) by (simp add: etp_inv_def keyed_ok_nth)
  note com = etp_rx_position [OF wf i(2)]
  note cases = etp_handle_dt_cases [OF Some wf assms(2)]
  consider (aborted) "ts_packets_to_send ?s = 0 \<or> unat ?seq \<noteq> Suc (unat (ts_last_sequence ?s))"
    | (final) "ts_packets_to_send ?s \<noteq> 0" "unat ?seq = Suc (unat (ts_last_sequence ?s))" "Suc ?q = session_packets ?s"
    | (more) "ts_packets_to_send ?s \<noteq> 0" "unat ?seq = Suc (unat (ts_last_sequence ?s))" "Suc ?q < session_packets ?s"
    using com(3) by linarith
  then show ?thesis
  proof cases
    case aborted
    then show ?thesis using cases etp_abort_receive_safe [OF assms(1) i(1)] by auto
  next
    case final
    then show ?thesis
      using cases assms(1) i(1)
      by (simp add: etp_finish_receive_def Let_def etp_remove_session_Some etp_inv_def keyed_ok_remove_update)
  next
    case more
    have nz: "?seq \<noteq> 0" using more(2) by auto
    have sq: "unat (ts_dpo_packet_offset ?s) + unat ?seq = Suc ?q" using more(2) by simp
    have le: "unat ?seq \<le> unat (ts_cts_window_size ?s)" "unat ?seq \<le> 16"
      using com(2) more(1,2) by (auto simp: etp_rx_ok_def)
    note nw = etp_next_window_eq [OF com(1) nz sq more(3), of i "fr_data f" e]
      and sw = etp_stored_wf [OF wf i(2) nz sq more(3), of "fr_data f"]
    have "etp_inv (etp_put i (etp_regrant ?q (etp_stored ?q ?seq (fr_data f) ?s)) e)"
      using sw(2,3) le(2) assms(1) i(1) by (simp add: etp_inv_def keyed_ok_update)
    moreover have "etp_inv (etp_put i (etp_stored ?q ?seq (fr_data f) ?s) e)" if "\<not> ts_cts_window_size ?s \<le> ?seq"
      using sw(1) that assms(1) i(1) by (simp add: etp_inv_def keyed_ok_update word_le_nat_alt)
    ultimately show ?thesis using cases more nw by simp
  qed
qed

lemma etp_process_frame_safe:
  assumes "etp_inv e" and "wf_frame f"
  shows "\<exists>e' fs. etp_process_frame e f port = Some (e', fs) \<and> etp_inv e' \<and> (\<forall>f \<in> set fs. etp_frame_ok f)"
  using assms etp_handle_cm_safe [OF assms(1), of f port] etp_handle_dt_safe [OF assms, of port]
  by (auto simp: etp_process_frame_def)

section \<open>The clock\<close>

definition etp_tick :: "u32 \<Rightarrow> transport_session \<Rightarrow> transport_session option \<times> frame list" where
  "etp_tick elapsed s0 =
     (let s = s0\<lparr>ts_timer_ms := saturating_add (ts_timer_ms s0) elapsed\<rparr>
      in if etp_deadline_ms (ts_state s) \<le> ts_timer_ms s then (None, [etp_make_session_abort s SessionTimeout])
         else (Some s, []))"

lemma etp_make_session_abort_state [simp]:
  "etp_make_session_abort (s\<lparr>ts_state := st\<rparr>) r = etp_make_session_abort s r"
  by (cases "ts_direction s") (simp_all add: etp_make_session_abort_def)

interpretation etp_ticks: tick_loop et_sessions etp_inv "etp_tick elapsed" "etp_update_session elapsed"
  "\<lambda>n. etp_update_loop n elapsed"
  for elapsed
proof unfold_locales
  fix e i r and out :: "frame list"
  assume e: "etp_inv e" and i: "i < length (et_sessions e)" and t: "etp_tick elapsed (et_sessions e ! i) = (r, out)"
  have "etp_wf (et_sessions e ! i)" using e i by (simp add: etp_inv_def keyed_ok_nth)
  then show "\<exists>e'. etp_update_session elapsed i e = Some (e', out, r = None) \<and> etp_inv e'
      \<and> et_sessions e' = (case r of None \<Rightarrow> butlast ((et_sessions e)[i := last (et_sessions e)])
                        | Some s \<Rightarrow> (et_sessions e)[i := s])"
    using t e i
    by (auto simp: etp_tick_def etp_update_session_def Let_def etp_remove_session_Some swap_remove_update
        etp_inv_def keyed_ok_remove keyed_ok_update split: if_splits)
qed simp_all

lemma etp_update_eq:
  assumes "etp_inv e"
  shows "\<exists>e' fs. etp_update e elapsed = Some (e', fs) \<and> etp_inv e' \<and> (\<forall>f \<in> set fs. etp_frame_ok f)
    \<and> mset (et_sessions e') = mset (List.map_filter (fst \<circ> etp_tick elapsed) (et_sessions e))
    \<and> mset fs = mset (concat (map (snd \<circ> etp_tick elapsed) (et_sessions e)))"
proof -
  obtain e' fs where r: "etp_update e elapsed = Some (e', fs)" "etp_inv e'"
    "mset (et_sessions e') = mset (List.map_filter (fst \<circ> etp_tick elapsed) (et_sessions e))"
    "mset fs = mset (concat (map (snd \<circ> etp_tick elapsed) (et_sessions e)))"
    using etp_ticks.loop_all [OF assms, of elapsed] by (auto simp: etp_update_def)
  have "f \<in> set (concat (map (snd \<circ> etp_tick elapsed) (et_sessions e))) \<Longrightarrow> etp_frame_ok f" for f
    by (auto simp: etp_tick_def Let_def split: if_splits)
  then show ?thesis using r mset_eq_setD [OF r(4)] by blast
qed

section \<open>Pending data\<close>

text \<open>The data frame with number \<open>n\<close> in its window, which carries packet \<open>q\<close> of the payload.\<close>

definition etp_dt_frame :: "address \<Rightarrow> address \<Rightarrow> bytes \<Rightarrow> nat \<Rightarrow> nat \<Rightarrow> frame" where
  "etp_dt_frame src dst p n q =
     frame8 (id_encode Lowest PGN_ETP_DT src dst)
       (copied_out 1 (7 * q) (length p) 7 p ((replicate 8 0xFF)[0 := of_nat n]))"

lemma etp_frame_ok_dt [simp]: "etp_frame_ok (etp_dt_frame src dst p n q)"
  by (simp add: etp_frame_ok_def etp_dt_frame_def etp_frame_wire wf_frame_def)

definition etp_advance :: "nat \<Rightarrow> transport_session \<Rightarrow> transport_session" where
  "etp_advance q s = s\<lparr>ts_bytes_transferred := of_nat (min (7 * q) (length (ts_data s)))\<rparr>"

lemma etp_advance_bytes:
  "etp_common s \<Longrightarrow> unat (ts_bytes_transferred (etp_advance q s)) = min (7 * q) (length (ts_data s))"
  unfolding etp_advance_def by (simp, subst unat_of_nat_u32) (auto simp: etp_common_def)

lemma etp_advance_simps [simp]:
  "ts_data (etp_advance q s) = ts_data s" "ts_source (etp_advance q s) = ts_source s"
  "ts_destination (etp_advance q s) = ts_destination s" "ts_total_bytes (etp_advance q s) = ts_total_bytes s"
  "ts_direction (etp_advance q s) = ts_direction s" "ts_can_port (etp_advance q s) = ts_can_port s"
  "ts_pgn (etp_advance q s) = ts_pgn s" "ts_packets_to_send (etp_advance q s) = ts_packets_to_send s"
  "etp_advance r (etp_advance q s) = etp_advance r s" "etp_common (etp_advance q s) = etp_common s"
  "session_packets (etp_advance q s) = session_packets s"
  by (simp_all add: etp_advance_def etp_common_def session_packets_def)

lemma etp_advance_done:
  assumes "etp_common s" and "q \<le> session_packets s"
  shows "ts_total_bytes (etp_advance q s) \<le> ts_bytes_transferred (etp_advance q s) \<longleftrightarrow> q = session_packets s"
proof -
  have "unat (ts_total_bytes s) = length (ts_data s)" using assms(1) by (simp add: etp_common_def)
  then show ?thesis
    using assms packet_count_le [of "length (ts_data s)" q] etp_advance_bytes [OF assms(1), of q]
    by (auto simp: word_le_nat_alt session_packets_def)
qed

lemma etp_next_data_frame_eq:
  assumes "etp_common s" and "q < session_packets s"
  shows "etp_next_data_frame i (etp_advance q s) =
    Some (etp_advance (Suc q) s, etp_dt_frame (ts_source s) (ts_destination s) (ts_data s) (Suc i) q)"
proof -
  have len: "unat (ts_total_bytes s) = length (ts_data s)" "length (ts_data s) \<le> 117440505"
    using assms(1) by (simp_all add: etp_common_def)
  have "7 * q < length (ts_data s)" using assms(2) packet_count_less [of q] by (simp add: session_packets_def)
  then have b: "unat (ts_bytes_transferred (etp_advance q s)) = 7 * q"
    using etp_advance_bytes [OF assms(1), of q] by simp
  have nw: "unat (ts_bytes_transferred (etp_advance q s)) + unat TP_BYTES_PER_FRAME < 2 ^ LENGTH(32)"
    using b len \<open>7 * q < length (ts_data s)\<close> by (simp add: limit_consts)
  have bt: "min (ts_bytes_transferred (etp_advance q s) + TP_BYTES_PER_FRAME) (ts_total_bytes s)
      = of_nat (min (7 * Suc q) (length (ts_data s)))"
    by (intro of_nat_unat_word [symmetric])
      (simp only: unat_min unat_add_no_wrap [OF nw] b len(1), simp add: limit_consts)
  have "copy_out 1 (unat (ts_bytes_transferred (etp_advance q s))) (unat (ts_total_bytes s)) (ts_data s) [0..<7]
      ((replicate 8 0xFF)[0 := of_nat (i + 1)])
      = Some (copied_out 1 (7 * q) (length (ts_data s)) 7 (ts_data s) ((replicate 8 0xFF)[0 := of_nat (Suc i)]))"
    unfolding b len(1) by (subst copy_out_eq) simp_all
  then show ?thesis
    unfolding etp_next_data_frame_def checked_add_Some [OF nw] bind.bind_lunit etp_advance_simps bt
    by (simp add: etp_dt_frame_def etp_advance_def)
qed

lemma etp_generate_from_eq:
  assumes "etp_common s" and "q + n \<le> session_packets s"
  shows "etp_generate_from n i (etp_advance q s) =
    Some (etp_advance (q + n) s,
          map (\<lambda>j. etp_dt_frame (ts_source s) (ts_destination s) (ts_data s) (Suc (i + j)) (q + j)) [0..<n])"
  using assms(2)
proof (induction n arbitrary: i q)
  case (Suc n)
  have "map (\<lambda>j. g (Suc (i + j)) (q + j)) [0..<Suc n]
      = g (Suc i) q # map (\<lambda>j. g (Suc (Suc i + j)) (Suc q + j)) [0..<n]" for g :: "nat \<Rightarrow> nat \<Rightarrow> frame"
    by (simp add: map_upt_Suc del: upt_Suc)
  then show ?case
    using Suc.prems Suc.IH [of "Suc q" "Suc i"] etp_next_data_frame_eq [OF assms(1), of q i]
      etp_advance_done [OF assms(1), of q]
    by (simp del: upt_Suc)
qed simp

definition etp_drained :: "transport_session \<Rightarrow> transport_session \<times> frame list" where
  "etp_drained s =
     (if ts_state s = SendingData \<and> ts_direction s = Transmit
      then let q = unat (ts_bytes_transferred s) div 7; n = unat (ts_packets_to_send s) in
        ((etp_advance (q + n) s)\<lparr>ts_state := (if q + n = session_packets s then WaitingForEndOfMsg else WaitingForCTS),
                               ts_timer_ms := 0\<rparr>,
         make_dpo s # map (\<lambda>j. etp_dt_frame (ts_source s) (ts_destination s) (ts_data s) (Suc j) (q + j)) [0..<n])
      else (s, []))"

lemma etp_drain_session_eq:
  assumes "etp_wf s"
  shows "etp_drain_session s = Some (etp_drained s) \<and> etp_wf (fst (etp_drained s))
    \<and> etp_key (fst (etp_drained s)) = etp_key s \<and> (\<forall>f \<in> set (snd (etp_drained s)). etp_frame_ok f)"
proof (cases "ts_state s = SendingData \<and> ts_direction s = Transmit")
  case False
  then show ?thesis using assms by (auto simp: etp_drain_session_def etp_drained_def)
next
  case True
  define q where "q = unat (ts_bytes_transferred s) div 7"
  define m where "m = q + unat (ts_packets_to_send s)"
  have pos: "unat (ts_bytes_transferred s) = 7 * q" "m \<le> session_packets s" "q < m" "etp_common s"
    using assms True by (auto simp: etp_wf_def etp_tx_ok_def Let_def q_def m_def)
  have "7 * q < length (ts_data s)" using pos(2,3) packet_count_less [of q] by (simp add: session_packets_def)
  then have id: "etp_advance q s = s"
    using pos(1) of_nat_unat_word [OF pos(1)] by (simp add: etp_advance_def)
  have gen: "etp_generate_data_frames s (ts_packets_to_send s) = Some (etp_advance m s,
      map (\<lambda>j. etp_dt_frame (ts_source s) (ts_destination s) (ts_data s) (Suc j) (q + j)) [0..<unat (ts_packets_to_send s)])"
    using etp_generate_from_eq [OF pos(4), of q "unat (ts_packets_to_send s)" 0] pos(2) id
    by (simp add: etp_generate_data_frames_def m_def)
  have b: "unat (ts_bytes_transferred (etp_advance m s)) = min (7 * m) (length (ts_data s))"
    using etp_advance_bytes [OF pos(4)] .
  have lt: "m \<noteq> session_packets s \<Longrightarrow> 7 * m < length (ts_data s)" "m = session_packets s \<Longrightarrow> length (ts_data s) \<le> 7 * m"
    using pos(2) packet_count_less [of m] packet_count_le [of "length (ts_data s)" m] by (auto simp: session_packets_def)
  have "etp_drain_session s = Some (etp_drained s)"
    using True gen etp_advance_done [OF pos(4,2)]
    by (simp add: etp_drain_session_def etp_drained_def Let_def flip: q_def m_def)
  moreover have "etp_wf (fst (etp_drained s))"
    using True pos(4) b lt
    by (auto simp: etp_drained_def etp_wf_def etp_common_def etp_tx_ok_def Let_def simp flip: q_def m_def)
  moreover have "etp_key (fst (etp_drained s)) = etp_key s"
    by (simp add: etp_drained_def etp_key_def Let_def)
  ultimately show ?thesis by (auto simp: etp_drained_def Let_def)
qed

lemma etp_drain_sessions_eq:
  "\<forall>s \<in> set ss. etp_wf s \<Longrightarrow> etp_drain_sessions ss =
     Some (map (fst \<circ> etp_drained) ss, concat (map (snd \<circ> etp_drained) ss))"
  by (induction ss) (auto simp: etp_drain_session_eq split: prod.splits)

lemma etp_get_pending_data_frames_eq:
  assumes "etp_inv e"
  shows "etp_get_pending_data_frames e =
    Some (e\<lparr>et_sessions := map (fst \<circ> etp_drained) (et_sessions e)\<rparr>,
          concat (map (snd \<circ> etp_drained) (et_sessions e)))"
  using assms by (simp add: etp_get_pending_data_frames_def etp_drain_sessions_eq etp_inv_def keyed_ok_def)

lemma keyed_ok_drained:
  assumes "keyed_ok etp_wf etp_key ss"
  shows "keyed_ok etp_wf etp_key (map (fst \<circ> etp_drained) ss)"
proof -
  have "map etp_key (map (fst \<circ> etp_drained) ss) = map etp_key ss"
    using assms by (simp add: keyed_ok_def etp_drain_session_eq)
  then show ?thesis using assms unfolding keyed_ok_def by (simp add: etp_drain_session_eq del: map_map)
qed

section \<open>Runs of the engine\<close>

datatype etp_input =
    EtpSend pgn bytes address address u8 priority
  | EtpFrame frame u8
  | EtpUpdate u32
  | EtpPending
  | EtpAbortAddress u8 address
  | EtpConfigure u32 nat
  | EtpClearStats

definition etp_step :: "etp_input \<Rightarrow> etp_engine \<Rightarrow> (etp_engine \<times> frame list) option" where
  "etp_step i e =
     (case i of
        EtpSend p data src dest port prio \<Rightarrow>
          (case etp_send e p data src dest port prio of
             (e', Inr frames) \<Rightarrow> Some (e', frames) | (e', Inl _) \<Rightarrow> Some (e', []))
      | EtpFrame f port \<Rightarrow> etp_process_frame e f port
      | EtpUpdate ms \<Rightarrow> etp_update e ms
      | EtpPending \<Rightarrow> etp_get_pending_data_frames e
      | EtpAbortAddress port a \<Rightarrow> Some (etp_abort_sessions_for_address e port a)
      | EtpConfigure bytes n \<Rightarrow> Some (etp_set_max_sessions n (etp_set_max_receive_bytes bytes e), [])
      | EtpClearStats \<Rightarrow> Some (etp_clear_stats e, []))"

definition etp_admissible :: "etp_input \<Rightarrow> bool" where
  "etp_admissible i = (case i of EtpSend p data src dest port prio \<Rightarrow> length data < 2 ^ 32
     | EtpFrame f port \<Rightarrow> wf_frame f | _ \<Rightarrow> True)"

lemma etp_step_inv:
  assumes "etp_inv e" and "etp_admissible i"
  shows "\<exists>e' out. etp_step i e = Some (e', out) \<and> etp_inv e' \<and> (\<forall>f \<in> set out. etp_frame_ok f)"
proof (cases i)
  case (EtpSend p data src dest port prio)
  obtain e' r where r: "etp_send e p data src dest port prio = (e', r)" by (metis surj_pair)
  show ?thesis
    using etp_send_inv [OF assms(1) _ r] assms(2) EtpSend r
    by (cases r) (auto simp: etp_step_def etp_admissible_def)
next
  case (EtpFrame f port)
  then show ?thesis
    using etp_process_frame_safe [OF assms(1)] assms(2) by (simp add: etp_step_def etp_admissible_def)
next
  case (EtpUpdate ms)
  then show ?thesis using etp_update_eq [OF assms(1), of ms] by (auto simp: etp_step_def)
next
  case EtpPending
  have "\<forall>s \<in> set (et_sessions e). etp_wf s" using assms(1) by (simp add: etp_inv_def keyed_ok_def)
  then show ?thesis
    using EtpPending etp_get_pending_data_frames_eq [OF assms(1)] keyed_ok_drained assms(1) etp_drain_session_eq
    by (fastforce simp: etp_step_def etp_inv_def)
qed (use assms(1) in \<open>auto simp: etp_step_def etp_inv_def etp_abort_sessions_for_address_def keyed_ok_filter
    etp_set_max_sessions_def etp_set_max_receive_bytes_def etp_clear_stats_def\<close>)

interpretation etp: safe_system etp_step etp_inv etp_admissible etp_frame_ok
  by unfold_locales (rule etp_step_inv)

lemma etp_new_inv: "etp_inv etp_new"
  by (simp add: etp_inv_def etp_new_def)

section \<open>Properties\<close>

text \<open>C32: No sequence of calls on a new extended transport engine -- transfers started, any CAN frames
received, ticks, drained data, addresses aborted, limits changed -- panics.  Afterwards every session is
consistent with its direction and state, no two sessions share a data path, and every frame put out has
eight data bytes, the lowest priority and one of the two extended transport PGNs.\<close>

theorem etp_run_safe:
  assumes "\<forall>i \<in> set inputs. etp_admissible i"
  shows "\<exists>e out. run_inputs etp_step inputs etp_new = Some (e, out) \<and> etp_inv e \<and> (\<forall>f \<in> set out. etp_frame_ok f)"
  using etp.run_safe [OF etp_new_inv assms] .

definition etp_sample_inputs :: "etp_input list" where
  "etp_sample_inputs =
     [EtpSend 0xFECA (replicate 2000 7) 0x20 0x30 0 Default,
      EtpFrame (etp_make_cts 0x30 0x20 16 1 0xFECA) 0, EtpPending,
      EtpFrame (etp_make_rts_fields 0xFECB 1786 0x30 0x20) 0,
      EtpFrame (make_dpo_fields 0xFECB 0x30 0x20 0 5) 0, EtpUpdate 2000]"

theorem etp_run_safe_witness:
  "\<exists>e out. run_inputs etp_step etp_sample_inputs etp_new = Some (e, out) \<and> etp_inv e \<and> (\<forall>f \<in> set out. etp_frame_ok f)"
  by (rule etp_run_safe)
    (simp add: etp_sample_inputs_def etp_admissible_def etp_cm_frame_defs wf_frame_def size_bytes4_def packet_bytes3_def
      pgn_bytes_def)

end
