(* ===== verification/ETP_Transfer.thy ===== *)
theory ETP_Transfer
  imports ETP_Runs TP_Transfer
begin

text \<open>
  A transfer of the extended transport protocol over a link that loses nothing: window by window, each opened by
  a data-packet-offset frame, until the receiver acknowledges the whole payload.
\<close>

section \<open>Sessions of a transfer\<close>

definition valid_etp_transfer :: "transfer \<Rightarrow> bool" where
  "valid_etp_transfer x \<longleftrightarrow> pgn_is_valid (x_pgn x) \<and> valid_etp_source (x_src x) \<and> valid_etp_destination (x_dst x)
     \<and> 1786 \<le> length (x_data x) \<and> length (x_data x) \<le> 117440505"

definition etx_at :: "transfer \<Rightarrow> nat \<Rightarrow> transport_session \<Rightarrow> bool" where
  "etx_at x k s \<longleftrightarrow> etp_wf s \<and> session_of x Transmit s \<and> ts_data s = x_data x
     \<and> unat (ts_bytes_transferred s) = min (7 * k) (length (x_data x))"

definition erx_at :: "transfer \<Rightarrow> nat \<Rightarrow> transport_session \<Rightarrow> bool" where
  "erx_at x k s \<longleftrightarrow> etp_wf s \<and> session_of x Receive s \<and> ts_data s = partial_copy 0xFF (x_data x) (7 * k)
     \<and> unat (ts_dpo_packet_offset s) + unat (ts_last_sequence s) = k"

definition etp_deliver :: "u8 \<Rightarrow> frame list \<Rightarrow> etp_engine \<Rightarrow> etp_result option" where
  "etp_deliver port fs e = run_inputs etp_step (map (\<lambda>f. EtpFrame f port) fs) e"

lemma etp_deliver_simps [simp]:
  "etp_deliver port [] e = Some (e, [])"
  "etp_deliver port (f # fs) e = do {
     (e1, out1) \<leftarrow> etp_process_frame e f port;
     (e2, out2) \<leftarrow> etp_deliver port fs e1;
     Some (e2, out1 @ out2)
   }"
  by (simp_all add: etp_deliver_def etp_step_def)

lemma et_events_simps [simp]:
  "et_on_complete (etp_put i s e) = et_on_complete e" "et_on_abort (etp_put i s e) = et_on_abort e"
  "et_on_complete (etp_push_session s e) = et_on_complete e" "et_on_abort (etp_push_session s e) = et_on_abort e"
  "et_on_complete (etp_emit_complete s e) = et_on_complete e @ [s]"
  "et_on_abort (etp_emit_complete s e) = et_on_abort e"
  by (simp_all add: etp_put_def etp_push_session_def etp_emit_complete_def event_emit_def)

definition etp_completes :: "transfer \<Rightarrow> transport_direction \<Rightarrow> etp_engine \<Rightarrow> etp_engine \<Rightarrow> bool" where
  "etp_completes x d e e' \<longleftrightarrow> et_sessions e' = [] \<and> et_on_abort e' = et_on_abort e
     \<and> (\<exists>s. et_on_complete e' = et_on_complete e @ [s] \<and> session_of x d s \<and> ts_data s = x_data x
            \<and> ts_state s = SessionComplete)"

definition etp_goes_on :: "etp_engine \<Rightarrow> etp_engine \<Rightarrow> transport_session \<Rightarrow> bool" where
  "etp_goes_on e e' s \<longleftrightarrow> et_sessions e' = [s] \<and> et_on_abort e' = et_on_abort e
     \<and> et_on_complete e' = et_on_complete e"

lemma etp_goes_on_trans:
  "etp_goes_on e e1 s \<Longrightarrow> etp_goes_on e1 e' s' \<Longrightarrow> etp_goes_on e e' s'"
  "etp_goes_on e e1 s \<Longrightarrow> etp_completes x d e1 e' \<Longrightarrow> etp_completes x d e e'"
  by (auto simp: etp_goes_on_def etp_completes_def)

lemma etp_goes_on_put [simp]: "et_sessions e = [s] \<Longrightarrow> etp_goes_on e (etp_put 0 s' e) s'"
  by (simp add: etp_goes_on_def)

definition ex_cts :: "transfer \<Rightarrow> u8 \<Rightarrow> nat \<Rightarrow> frame" where
  "ex_cts x n k = etp_make_cts (x_dst x) (x_src x) n (of_nat (Suc k)) (x_pgn x)"

definition ex_dpo :: "transfer \<Rightarrow> u8 \<Rightarrow> nat \<Rightarrow> frame" where
  "ex_dpo x n k = make_dpo_fields (x_pgn x) (x_src x) (x_dst x) n (of_nat k)"

definition ex_eoma :: "transfer \<Rightarrow> frame" where
  "ex_eoma x = etp_make_eoma (x_dst x) (x_src x) (of_nat (length (x_data x))) (x_pgn x)"

definition ex_dt :: "transfer \<Rightarrow> nat \<Rightarrow> nat \<Rightarrow> frame" where
  "ex_dt x n q = etp_dt_frame (x_src x) (x_dst x) (x_data x) n q"

lemma ex_dt_wire [simp]:
  "frame_pgn (ex_dt x n q) = PGN_ETP_DT" "frame_source (ex_dt x n q) = x_src x"
  "frame_destination (ex_dt x n q) = x_dst x" "fr_length (ex_dt x n q) = 8" "wf_frame (ex_dt x n q)"
  "fr_data (ex_dt x n q) ! 0 = of_nat n"
  by (simp_all add: ex_dt_def etp_dt_frame_def etp_frame_wire wf_frame_def copied_out_def)

lemma session_of_etp [simp]:
  "session_of x d (etp_stored q n b s) = session_of x d s" "session_of x d (etp_regrant q s) = session_of x d s"
  "session_of x d (dpo_session n off s) = session_of x d s" "session_of x d (etp_advance q s) = session_of x d s"
  "session_of x d (s\<lparr>ts_timer_ms := t\<rparr>) = session_of x d s" "session_of x d (s\<lparr>ts_state := st\<rparr>) = session_of x d s"
  by (simp_all add: session_of_def etp_regrant_def dpo_session_def)

lemma etp_at_packets: "erx_at x k s \<Longrightarrow> session_packets s = x_packets x" "etx_at x k s \<Longrightarrow> session_packets s = x_packets x"
  by (simp_all add: erx_at_def etx_at_def session_packets_def x_packets_def)

lemma ex_packets_bound: "valid_etp_transfer x \<Longrightarrow> x_packets x \<le> 16777215"
  using div_le_mono [of "length (x_data x) + 6" 117440511 7]
  by (simp add: x_packets_def packet_count_def valid_etp_transfer_def)

section \<open>The receiver\<close>

lemma process_ex_dt:
  assumes "valid_etp_transfer x" and "et_sessions e = [s]" and "erx_at x k s" and "k < x_packets x"
    and "ts_packets_to_send s \<noteq> 0" and "unat (ts_last_sequence s) = n"
  defines "s1 \<equiv> etp_stored k (of_nat (Suc n)) (fr_data (ex_dt x (Suc n) k)) s"
  shows "etp_process_frame e (ex_dt x (Suc n) k) (x_port x) =
    (if Suc k = x_packets x then etp_finish_receive 0 s1 e else etp_next_window 0 (of_nat (Suc n)) s1 e)"
    and "unat (of_nat (Suc n) :: u8) = Suc n" and "ts_data s1 = partial_copy 0xFF (x_data x) (7 * Suc k)"
proof -
  let ?f = "ex_dt x (Suc n) k"
  have s: "etp_wf s" "session_of x Receive s" "unat (ts_dpo_packet_offset s) + unat (ts_last_sequence s) = k"
    using assms(3) by (simp_all add: erx_at_def)
  have rx: "ts_direction s = Receive" using s(2) by (simp add: session_of_def)
  have ok: "etp_rx_ok s" using etp_rx_position(2) [OF s(1) rx] .
  then show n: "unat (of_nat (Suc n) :: u8) = Suc n"
    using assms(6) by (simp add: etp_rx_ok_def unat_of_nat del: of_nat_Suc)
  have "etp_dt_matches (x_src x) (x_dst x) (x_port x) s"
    using s(2) ok by (simp add: etp_dt_matches_def session_of_def etp_rx_ok_def)
  then have pos: "etp_session_position (etp_dt_matches (frame_source ?f) (frame_destination ?f) (x_port x)) e = Some 0"
    using assms(2) by (simp add: etp_session_position_def)
  have "etp_process_frame e ?f (x_port x) = etp_handle_dt e ?f (x_port x)"
    using assms(1) etp_pgns_differ by (auto simp: etp_process_frame_def valid_etp_transfer_def)
  then show "etp_process_frame e ?f (x_port x) =
    (if Suc k = x_packets x then etp_finish_receive 0 s1 e else etp_next_window 0 (of_nat (Suc n)) s1 e)"
    using etp_handle_dt_cases [OF pos] assms(2,5,6) s n etp_at_packets(1) [OF assms(3)]
    by (simp add: s1_def del: of_nat_Suc)
  have "7 * k < length (x_data x)" using assms(4) packet_count_less by (simp add: x_packets_def)
  then have "copied_in 1 (7 * k) (length (x_data x)) 7 (fr_data ?f) (partial_copy 0xFF (x_data x) (7 * k))
      = partial_copy 0xFF (x_data x) (7 * k + 7)"
    unfolding ex_dt_def etp_dt_frame_def by (simp add: copied_in_out)
  then show "ts_data s1 = partial_copy 0xFF (x_data x) (7 * Suc k)"
    using assms(3) by (simp add: s1_def etp_stored_def erx_at_def add.commute)
qed

lemma etp_finish_receive_eq:
  assumes "et_sessions e = [s]" and "session_of x Receive s1" and "ts_data s1 = x_data x"
  shows "\<exists>e'. etp_finish_receive 0 s1 e = Some (e', [ex_eoma x]) \<and> etp_completes x Receive e e'"
proof -
  have "ts_total_bytes s1 = of_nat (length (x_data x))"
    using assms(2) by (simp add: session_of_def) (metis of_nat_unat_word)
  then show ?thesis
    using assms
    by (simp add: etp_finish_receive_def Let_def etp_remove_session_Some etp_completes_def ex_eoma_def)
      (simp add: session_of_def)
qed

text \<open>The rest of a window of \<open>w\<close> packets of which \<open>n\<close> have arrived, the last of them packet \<open>k\<close>.\<close>

lemma etp_deliver_window:
  assumes "valid_etp_transfer x" and "et_sessions e = [s]" and "erx_at x k s"
    and "ts_packets_to_send s \<noteq> 0" and "unat (ts_last_sequence s) = n"
    and "unat (ts_cts_window_size s) = n + Suc w" and "k + Suc w \<le> x_packets x"
  shows "\<exists>e'. if k + Suc w = x_packets x
    then etp_deliver (x_port x) (map (\<lambda>j. ex_dt x (Suc (n + j)) (k + j)) [0..<Suc w]) e = Some (e', [ex_eoma x])
      \<and> etp_completes x Receive e e'
    else \<exists>s'. etp_deliver (x_port x) (map (\<lambda>j. ex_dt x (Suc (n + j)) (k + j)) [0..<Suc w]) e =
          Some (e', [ex_cts x (ts_cts_window_size s') (k + Suc w)])
      \<and> etp_goes_on e e' s' \<and> erx_at x (k + Suc w) s'
      \<and> unat (ts_cts_window_size s') = min (x_packets x - (k + Suc w)) 16"
  using assms(2-7)
proof (induction w arbitrary: k s e n)
  case 0
  let ?s1 = "etp_stored k (of_nat (Suc n)) (fr_data (ex_dt x (Suc n) k)) s"
  have k: "k < x_packets x" using 0 by simp
  note dt = process_ex_dt [OF assms(1) 0(1,2) k 0(3,4)]
  have s: "etp_wf s" "session_of x Receive s" "unat (ts_dpo_packet_offset s) + n = k" "session_packets s = x_packets x"
    using 0(2,4) etp_at_packets(1) [OF 0(2)] by (simp_all add: erx_at_def)
  have rx: "ts_direction s = Receive" "etp_common s" using s by (simp_all add: session_of_def etp_wf_def)
  show ?case
  proof (cases "Suc k = x_packets x")
    case True
    then have "length (x_data x) \<le> 7 * Suc k" using packet_count_le by (simp add: x_packets_def)
    then show ?thesis
      using True dt etp_finish_receive_eq [OF 0(1), of x ?s1] s(2) by (auto simp del: of_nat_Suc)
  next
    case False
    then have more: "Suc k < session_packets s" using k s(4) by simp
    have nz: "of_nat (Suc n) \<noteq> (0 :: u8)" using dt(2) by (metis nat.distinct(1) unat_0)
    have sq: "unat (ts_dpo_packet_offset s) + unat (of_nat (Suc n) :: u8) = Suc k" using dt(2) s(3) by simp
    have sz: "ts_cts_window_size s \<le> of_nat (Suc n)" using 0(5) dt(2) by (simp add: word_le_nat_alt del: of_nat_Suc)
    have le: "unat (of_nat (Suc n) :: u8) \<le> 16"
      using etp_rx_position(2) [OF s(1) rx(1)] 0(5) dt(2) by (simp add: etp_rx_ok_def)
    let ?s2 = "etp_regrant k ?s1"
    have "erx_at x (Suc k) ?s2"
      using etp_stored_wf(2) [OF s(1) rx(1) nz sq more le] dt(3) s(2) sq
      by (simp add: erx_at_def etp_regrant_def session_of_def del: of_nat_Suc)
    moreover have "unat (ts_cts_window_size ?s2) = min (x_packets x - Suc k) 16"
      using etp_regrant_size [of k ?s1] more s(4) by simp
    moreover have "etp_process_frame e (ex_dt x (Suc n) k) (x_port x) =
        Some (etp_put 0 ?s2 e, [ex_cts x (ts_cts_window_size ?s2) (Suc k)])"
      using dt(1) False etp_next_window_eq [OF rx(2) nz sq more] sz s(2)
      by (simp add: ex_cts_def session_of_def del: of_nat_Suc)
    ultimately show ?thesis
      using False 0(1) by (intro exI [of _ "etp_put 0 ?s2 e"]) (auto simp del: of_nat_Suc)
  qed
next
  case (Suc w)
  let ?s1 = "etp_stored k (of_nat (Suc n)) (fr_data (ex_dt x (Suc n) k)) s"
  have k: "k < x_packets x" using Suc.prems by simp
  note dt = process_ex_dt [OF assms(1) Suc.prems(1,2) k Suc.prems(3,4)]
  have s: "etp_wf s" "session_of x Receive s" "unat (ts_dpo_packet_offset s) + n = k" "session_packets s = x_packets x"
    using Suc.prems(2,4) etp_at_packets(1) [OF Suc.prems(2)] by (simp_all add: erx_at_def)
  have rx: "ts_direction s = Receive" "etp_common s" using s by (simp_all add: session_of_def etp_wf_def)
  have more: "Suc k < session_packets s" using Suc.prems(6) s(4) by simp
  have nz: "of_nat (Suc n) \<noteq> (0 :: u8)" using dt(2) by (metis nat.distinct(1) unat_0)
  have sq: "unat (ts_dpo_packet_offset s) + unat (of_nat (Suc n) :: u8) = Suc k" using dt(2) s(3) by simp
  have lt: "unat (of_nat (Suc n) :: u8) < unat (ts_cts_window_size s)" using Suc.prems(5) dt(2) by simp
  have at: "erx_at x (Suc k) ?s1"
    using etp_stored_wf(1) [OF s(1) rx(1) nz sq more lt] dt(3) s(2) sq by (simp add: erx_at_def del: of_nat_Suc)
  have step: "etp_process_frame e (ex_dt x (Suc n) k) (x_port x) = Some (etp_put 0 ?s1 e, [])"
    using dt(1) more s(4) etp_next_window_eq [OF rx(2) nz sq more] lt
    by (simp add: word_le_nat_alt not_le del: of_nat_Suc)
  have e1: "et_sessions (etp_put 0 ?s1 e) = [?s1]" "etp_goes_on e (etp_put 0 ?s1 e) ?s1"
    using Suc.prems(1) by simp_all
  have split: "map (\<lambda>j. ex_dt x (Suc (n + j)) (k + j)) [0..<Suc (Suc w)]
      = ex_dt x (Suc n) k # map (\<lambda>j. ex_dt x (Suc (Suc n + j)) (Suc k + j)) [0..<Suc w]"
    by (simp add: map_upt_Suc del: upt_Suc)
  have pre: "ts_packets_to_send ?s1 \<noteq> 0" "unat (ts_last_sequence ?s1) = Suc n"
    "unat (ts_cts_window_size ?s1) = Suc n + Suc w" "Suc k + Suc w \<le> x_packets x"
    using Suc.prems(3,5,6) dt(2) by (simp_all del: of_nat_Suc)
  from Suc.IH [OF e1(1) at pre] show ?case
    unfolding split using step e1(2) etp_goes_on_trans
    by (fastforce simp del: upt_Suc of_nat_Suc split: if_splits)
qed

section \<open>Connection management\<close>

lemma process_ex_cm:
  fixes c :: u8
  assumes "pgn_is_valid p" and "length hd4 = 4" and "valid_etp_source src" and "valid_etp_destination dst"
  defines "f \<equiv> frame8 (id_encode Lowest PGN_ETP_CM src dst) (c # hd4 @ pgn_bytes p)"
  shows "etp_process_frame e f port =
    (if c = etp_cm_RTS then Some (etp_handle_rts e f port p)
     else if c = etp_cm_CTS then etp_handle_cts e f port p
     else if c = etp_cm_DPO then etp_handle_dpo e f port p
     else if c = etp_cm_EOMA then etp_handle_eoma e f port p
     else if c = etp_cm_ABORT then etp_handle_abort e f port p
     else Some (etp_note_dropped_frame e, []))"
proof -
  have "etp_pgn_from_cm_bytes ((c # hd4) @ pgn_bytes p) = p"
    unfolding etp_pgn_from_cm_bytes_eq using assms(1,2) by (intro pgn_bytes_roundtrip) simp_all
  then have p: "etp_pgn_from_cm_bytes (fr_data f) = p" by (simp add: f_def)
  have cm: "etp_process_frame e f port = etp_handle_cm e f port"
    using assms(3,4) by (simp add: etp_process_frame_def f_def etp_frame_wire)
  have head: "fr_data f ! 0 = c" by (simp add: f_def)
  show ?thesis unfolding cm etp_handle_cm_def Let_def p head using assms(1) by (simp only: not_True_eq_False if_False)
qed

lemma etp_cm_distinct [simp]:
  "etp_cm_CTS \<noteq> etp_cm_RTS" "etp_cm_DPO \<noteq> etp_cm_RTS" "etp_cm_DPO \<noteq> etp_cm_CTS"
  "etp_cm_EOMA \<noteq> etp_cm_RTS" "etp_cm_EOMA \<noteq> etp_cm_CTS" "etp_cm_EOMA \<noteq> etp_cm_DPO"
  by (simp_all add: etp_cm_consts)

lemma ex_ends: "valid_etp_transfer x \<Longrightarrow> valid_etp_source (x_dst x) \<and> valid_etp_destination (x_src x)
    \<and> valid_etp_source (x_src x) \<and> valid_etp_destination (x_dst x) \<and> pgn_is_valid (x_pgn x)"
  by (simp add: valid_etp_transfer_def valid_etp_source_def valid_etp_destination_def)

lemma ex_packet_number:
  assumes "valid_etp_transfer x" and "k \<le> x_packets x"
  shows "unat (of_nat k :: u32) = k" and "cm_packet3 (b0 # b1 # packet_bytes3 (of_nat k) @ rest) = of_nat k"
proof -
  have k: "k \<le> 16777215" using ex_packets_bound [OF assms(1)] assms(2) by simp
  then show 1: "unat (of_nat k :: u32) = k" by (intro unat_of_nat_u32) simp
  show "cm_packet3 (b0 # b1 # packet_bytes3 (of_nat k) @ rest) = of_nat k"
    using k 1 by (intro packet_bytes3_roundtrip) simp
qed

lemma process_ex_cts:
  assumes "valid_etp_transfer x" and "et_sessions e = [s]" and "etx_at x k s" and "ts_state s = WaitingForCTS"
    and w: "1 \<le> unat w" "unat w \<le> 16" "k + unat w \<le> x_packets x"
  shows "\<exists>s'. etp_process_frame e (ex_cts x w k) (x_port x) = Some (etp_put 0 s' e, [])
    \<and> etx_at x k s' \<and> ts_state s' = SendingData \<and> ts_packets_to_send s' = w"
proof -
  have s: "etp_wf s" "session_of x Transmit s" "ts_data s = x_data x" using assms(3) by (simp_all add: etx_at_def)
  have tx: "ts_direction s = Transmit" "etp_common s" using s by (simp_all add: session_of_def etp_wf_def)
  let ?f = "ex_cts x w k" and ?q = "of_nat (Suc k) :: u32"
  have q: "unat ?q = Suc k" "cm_packet3 (fr_data ?f) = ?q"
    using ex_packet_number(1) [OF assms(1), of "Suc k"] w
      ex_packet_number(2) [OF assms(1), of "Suc k" etp_cm_CTS w "pgn_bytes (x_pgn x)"]
    by (simp_all add: ex_cts_def etp_make_cts_def del: of_nat_Suc)
  have d: "fr_data ?f ! 1 = w" "frame_source ?f = x_dst x" "frame_destination ?f = x_src x"
    by (simp_all add: ex_cts_def etp_make_cts_def etp_frame_wire)
  have cm: "etp_process_frame e ?f (x_port x) = etp_handle_cts e ?f (x_port x) (x_pgn x)"
    using process_ex_cm [of "x_pgn x" "w # packet_bytes3 ?q" "x_dst x" "x_src x" e etp_cm_CTS "x_port x"]
      ex_ends [OF assms(1)] by (simp add: ex_cts_def etp_make_cts_def del: of_nat_Suc)
  have pos: "position (etp_cts_matches (x_dst x) (x_src x) (x_port x) (x_pgn x)) (et_sessions e) = Some 0"
    using assms(2,4) s(2) by (simp add: etp_cts_matches_def session_of_def)
  have nz: "w \<noteq> 0" "?q \<noteq> 0" using w(1) q(1) by auto
  have le: "unat ?q \<le> session_packets s" using w q(1) etp_at_packets(2) [OF assms(3)] by simp
  note g = etp_cts_grant_wf [OF s(1) tx(1) nz le]
  have win: "etp_cts_window s w ?q = w"
    using g(1) w q(1) etp_at_packets(2) [OF assms(3)] by (simp add: word_unat_eq_iff del: of_nat_Suc)
  let ?s = "s\<lparr>ts_state := SendingData, ts_packets_to_send := w, ts_bytes_transferred := (?q - 1) * 7, ts_timer_ms := 0\<rparr>"
  have "\<not> total_packets s < ?q" using le by (simp add: word_less_nat_alt not_less etp_total_packets [OF tx(2)])
  then have "etp_apply_cts w ?q s = (?s, None)"
    using assms(4) nz win by (simp add: etp_apply_cts_def del: of_nat_Suc)
  then have "etp_handle_cts e ?f (x_port x) (x_pgn x) = Some (etp_put 0 ?s e, [])"
    using pos assms(2) by (simp only: etp_handle_cts_def d q(2)) (simp del: of_nat_Suc)
  moreover have "etx_at x k ?s"
    using g(2,3) win s(2,3) q(1) w packet_count_less [of k "length (x_data x)"]
    by (simp add: etx_at_def session_of_def x_packets_def min_def del: of_nat_Suc)
  ultimately show ?thesis using cm by (intro exI [of _ ?s]) (simp del: of_nat_Suc)
qed

lemma ex_pending:
  assumes "et_sessions e = [s]" and "etx_at x k s" and "ts_state s = SendingData"
    and "unat (ts_packets_to_send s) = w"
  shows "k + w \<le> x_packets x \<and> (\<exists>e' s'. etp_get_pending_data_frames e =
      Some (e', ex_dpo x (ts_packets_to_send s) k # map (\<lambda>j. ex_dt x (Suc j) (k + j)) [0..<w])
    \<and> etp_goes_on e e' s' \<and> etx_at x (k + w) s'
    \<and> ts_state s' = (if k + w = x_packets x then WaitingForEndOfMsg else WaitingForCTS))"
proof -
  have s: "etp_wf s" "session_of x Transmit s" "ts_data s = x_data x"
    "unat (ts_bytes_transferred s) = min (7 * k) (length (x_data x))" using assms(2) by (simp_all add: etx_at_def)
  have tx: "ts_direction s = Transmit" "ts_source s = x_src x" "ts_destination s = x_dst x" "ts_pgn s = x_pgn x" "etp_common s"
    using s by (simp_all add: session_of_def etp_wf_def)
  note n = etp_at_packets(2) [OF assms(2)]
  have ok: "7 dvd unat (ts_bytes_transferred s)" "1 \<le> w" "unat (ts_bytes_transferred s) div 7 + w \<le> x_packets x"
    using s(1) tx(1) assms(3,4) n by (simp_all add: etp_wf_def etp_tx_ok_def Let_def)
  have "7 * (unat (ts_bytes_transferred s) div 7) < length (x_data x)"
    using ok(2,3) packet_count_less by (simp add: x_packets_def)
  then have lt: "7 * k < length (x_data x)" using ok(1) s(4) by (simp add: min_def split: if_splits)
  then have k: "unat (ts_bytes_transferred s) = 7 * k" using s(4) by simp
  have off: "ts_bytes_transferred s div 7 = of_nat k"
    using k by (intro of_nat_unat_word [symmetric]) (simp add: unat_div)
  have dpo: "make_dpo s = ex_dpo x (ts_packets_to_send s) k"
    unfolding make_dpo_def ex_dpo_def tx off ..
  have inv: "etp_inv e" using assms(1) s(1) by (simp add: etp_inv_def keyed_ok_def)
  note dr = etp_drain_session_eq [OF s(1)]
  let ?s' = "fst (etp_drained s)"
  have d: "etp_drained s = (?s', ex_dpo x (ts_packets_to_send s) k # map (\<lambda>j. ex_dt x (Suc j) (k + j)) [0..<w])"
    using assms(3,4) tx k s(3) dpo by (simp add: etp_drained_def Let_def ex_dt_def)
  have "ts_state ?s' = (if k + w = x_packets x then WaitingForEndOfMsg else WaitingForCTS)"
    "ts_data ?s' = x_data x" "session_of x Transmit ?s'"
    "unat (ts_bytes_transferred ?s') = min (7 * (k + w)) (length (x_data x))"
    using assms(3,4) tx k s(2,3) n etp_advance_bytes [OF tx(5), of "k + w"] by (simp_all add: etp_drained_def Let_def)
  then have "etx_at x (k + w) ?s'" "ts_state ?s' = (if k + w = x_packets x then WaitingForEndOfMsg else WaitingForCTS)"
    using dr by (simp_all add: etx_at_def)
  moreover have "etp_get_pending_data_frames e = Some (e\<lparr>et_sessions := [?s']\<rparr>, snd (etp_drained s))"
    using etp_get_pending_data_frames_eq [OF inv] assms(1) by simp
  ultimately show ?thesis
    using d ok(3) k by (intro conjI exI [of _ "e\<lparr>et_sessions := [?s']\<rparr>"] exI [of _ ?s'])
      (auto simp: etp_goes_on_def, metis snd_conv)
qed

lemma process_ex_dpo:
  assumes "valid_etp_transfer x" and "et_sessions e = [s]" and "erx_at x k s"
    and "w \<noteq> 0" and "w \<le> ts_cts_window_size s" and "k + unat w \<le> x_packets x"
  shows "\<exists>s'. etp_process_frame e (ex_dpo x w k) (x_port x) = Some (etp_put 0 s' e, [])
    \<and> erx_at x k s' \<and> ts_packets_to_send s' = w \<and> ts_cts_window_size s' = w \<and> ts_last_sequence s' = 0"
proof -
  let ?f = "ex_dpo x w k"
  have s: "etp_wf s" "session_of x Receive s" "unat (ts_dpo_packet_offset s) + unat (ts_last_sequence s) = k"
    using assms(3) by (simp_all add: erx_at_def)
  have rx: "ts_direction s = Receive" using s(2) by (simp add: session_of_def)
  have q: "unat (of_nat k :: u32) = k" "cm_packet3 (fr_data ?f) = of_nat k"
    using ex_packet_number(1) [OF assms(1), of k] assms(6)
      ex_packet_number(2) [OF assms(1), of k etp_cm_DPO w "pgn_bytes (x_pgn x)"]
    by (simp_all add: ex_dpo_def make_dpo_fields_def)
  have d: "fr_data ?f ! 1 = w" "frame_source ?f = x_src x" "frame_destination ?f = x_dst x"
    by (simp_all add: ex_dpo_def make_dpo_fields_def etp_frame_wire)
  have cm: "etp_process_frame e ?f (x_port x) = etp_handle_dpo e ?f (x_port x) (x_pgn x)"
    using process_ex_cm [of "x_pgn x" "w # packet_bytes3 (of_nat k)" "x_src x" "x_dst x" e etp_cm_DPO "x_port x"]
      ex_ends [OF assms(1)] by (simp add: ex_dpo_def make_dpo_fields_def)
  have pos: "etp_session_position (\<lambda>s. ts_direction s = Receive \<and> ts_source s = frame_source ?f
      \<and> ts_destination s = frame_destination ?f \<and> ts_pgn s = x_pgn x \<and> ts_can_port s = x_port x) e = Some 0"
    unfolding d using assms(2) s(2) by (simp add: etp_session_position_def session_of_def)
  have v: "etp_window_valid s w (of_nat k)"
    using assms(4-6) s(3) q(1) etp_at_packets(1) [OF assms(3)] by (simp add: etp_window_valid_def)
  have "etp_handle_dpo e ?f (x_port x) (x_pgn x) = Some (etp_put 0 (dpo_session w (of_nat k) s) e, [])"
    using etp_handle_dpo_eq [OF pos] assms(2) s(1) rx d(1) q(2) v by simp
  moreover have "erx_at x k (dpo_session w (of_nat k) s)"
    using dpo_session_wf(1) [OF s(1) rx v] s(2) assms(3) q(1) by (simp add: erx_at_def) (simp add: dpo_session_def)
  ultimately show ?thesis
    using cm by (intro exI [of _ "dpo_session w (of_nat k) s"]) (simp add: dpo_session_def)
qed

lemma process_ex_eoma:
  assumes "valid_etp_transfer x" and "et_sessions e = [s]" and "etx_at x k s" and "ts_state s = WaitingForEndOfMsg"
  shows "\<exists>e'. etp_process_frame e (ex_eoma x) (x_port x) = Some (e', []) \<and> etp_completes x Transmit e e'"
proof -
  let ?f = "ex_eoma x"
  have s: "session_of x Transmit s" "ts_data s = x_data x" using assms(3) by (simp_all add: etx_at_def)
  have tot: "ts_total_bytes s = of_nat (length (x_data x))"
    using s(1) by (simp add: session_of_def) (metis of_nat_unat_word)
  have d: "frame_source ?f = x_dst x" "frame_destination ?f = x_src x" "cm_size4 (fr_data ?f) = of_nat (length (x_data x))"
    by (simp_all add: ex_eoma_def etp_make_eoma_def etp_frame_wire size_bytes4_roundtrip)
  have cm: "etp_process_frame e ?f (x_port x) = etp_handle_eoma e ?f (x_port x) (x_pgn x)"
    using process_ex_cm [of "x_pgn x" "size_bytes4 (of_nat (length (x_data x)))" "x_dst x" "x_src x" e etp_cm_EOMA "x_port x"]
      ex_ends [OF assms(1)] by (simp add: ex_eoma_def etp_make_eoma_def)
  have pos: "etp_session_position (\<lambda>s. ts_direction s = Transmit \<and> ts_source s = x_src x
      \<and> ts_destination s = x_dst x \<and> ts_pgn s = x_pgn x \<and> ts_can_port s = x_port x) e = Some 0"
    using assms(2) s(1) by (simp add: etp_session_position_def session_of_def)
  show ?thesis
    unfolding cm etp_handle_eoma_def Let_def d pos
    using assms(2,4) tot s by (simp add: etp_remove_session_Some etp_completes_def)
qed

section \<open>The exchange\<close>

type_synonym etp_link = "etp_engine \<times> etp_engine \<times> frame list"

definition etp_exchange_round :: "u8 \<Rightarrow> etp_link \<Rightarrow> etp_link option" where
  "etp_exchange_round port st =
     (let (a, b, back) = st in do {
        (a1, out) \<leftarrow> etp_deliver port back a;
        (a2, data) \<leftarrow> etp_get_pending_data_frames a1;
        (b1, back') \<leftarrow> etp_deliver port (out @ data) b;
        Some (a2, b1, back')
      })"

definition etp_linked :: "transfer \<Rightarrow> etp_engine \<Rightarrow> etp_engine \<Rightarrow> nat \<Rightarrow> etp_link \<Rightarrow> bool" where
  "etp_linked x a0 b0 k st \<longleftrightarrow> valid_etp_transfer x \<and> k < x_packets x
     \<and> (\<exists>a b s r. st = (a, b, [ex_cts x (ts_cts_window_size r) k])
     \<and> etp_goes_on a0 a s \<and> etx_at x k s \<and> ts_state s = WaitingForCTS
     \<and> etp_goes_on b0 b r \<and> erx_at x k r \<and> unat (ts_cts_window_size r) = min (x_packets x - k) 16)"

definition etp_acknowledged :: "transfer \<Rightarrow> etp_engine \<Rightarrow> etp_engine \<Rightarrow> etp_link \<Rightarrow> bool" where
  "etp_acknowledged x a0 b0 st \<longleftrightarrow> valid_etp_transfer x \<and> (\<exists>a b s. st = (a, b, [ex_eoma x])
     \<and> etp_goes_on a0 a s \<and> etx_at x (x_packets x) s \<and> ts_state s = WaitingForEndOfMsg
     \<and> etp_completes x Receive b0 b)"

definition etp_delivered :: "transfer \<Rightarrow> etp_engine \<Rightarrow> etp_engine \<Rightarrow> etp_link \<Rightarrow> bool" where
  "etp_delivered x a0 b0 st \<longleftrightarrow>
     (\<exists>a b. st = (a, b, []) \<and> etp_completes x Transmit a0 a \<and> etp_completes x Receive b0 b)"

definition ex_window :: "transfer \<Rightarrow> nat \<Rightarrow> nat \<Rightarrow> frame list" where
  "ex_window x k w = map (\<lambda>j. ex_dt x (Suc j) (k + j)) [0..<w]"

lemma etp_sender_turn:
  assumes "valid_etp_transfer x" and a: "etp_goes_on a0 a s" "etx_at x k s" "ts_state s = WaitingForCTS"
    and w: "unat v = Suc w" "unat v \<le> 16" "k + Suc w \<le> x_packets x"
  shows "\<exists>a1 a2 s2. etp_process_frame a (ex_cts x v k) (x_port x) = Some (a1, [])
    \<and> etp_get_pending_data_frames a1 = Some (a2, ex_dpo x v k # ex_window x k (Suc w))
    \<and> etp_goes_on a0 a2 s2 \<and> etx_at x (k + Suc w) s2
    \<and> ts_state s2 = (if k + Suc w = x_packets x then WaitingForEndOfMsg else WaitingForCTS)"
proof -
  have sa: "et_sessions a = [s]" "k < x_packets x" "v \<noteq> 0" using a(1) w by (auto simp: etp_goes_on_def)
  obtain s1 where s1: "etp_process_frame a (ex_cts x v k) (x_port x) = Some (etp_put 0 s1 a, [])" "etx_at x k s1"
      "ts_state s1 = SendingData" "ts_packets_to_send s1 = v"
    using process_ex_cts [OF assms(1) sa(1) a(2,3), of v] w sa by auto
  obtain a2 s2 where a2: "etp_get_pending_data_frames (etp_put 0 s1 a) = Some (a2, ex_dpo x v k # ex_window x k (Suc w))"
      "etp_goes_on (etp_put 0 s1 a) a2 s2" "etx_at x (k + Suc w) s2"
      "ts_state s2 = (if k + Suc w = x_packets x then WaitingForEndOfMsg else WaitingForCTS)"
    using ex_pending [of "etp_put 0 s1 a" s1 x k "Suc w"] sa s1 w by (auto simp: ex_window_def)
  have "etp_goes_on a (etp_put 0 s1 a) s1" using sa(1) by simp
  then have "etp_goes_on a0 a2 s2" using a(1) a2(2) etp_goes_on_trans(1) by blast
  then show ?thesis using s1(1) a2 by blast
qed

lemma etp_receiver_turn:
  assumes "valid_etp_transfer x" and b: "etp_goes_on b0 b r" "erx_at x k r"
    and w: "unat (ts_cts_window_size r) = Suc w" "k + Suc w \<le> x_packets x"
  shows "\<exists>b2. if k + Suc w = x_packets x
    then etp_deliver (x_port x) (ex_dpo x (ts_cts_window_size r) k # ex_window x k (Suc w)) b = Some (b2, [ex_eoma x])
      \<and> etp_completes x Receive b0 b2
    else \<exists>r'. etp_deliver (x_port x) (ex_dpo x (ts_cts_window_size r) k # ex_window x k (Suc w)) b
        = Some (b2, [ex_cts x (ts_cts_window_size r') (k + Suc w)])
      \<and> etp_goes_on b0 b2 r' \<and> erx_at x (k + Suc w) r'
      \<and> unat (ts_cts_window_size r') = min (x_packets x - (k + Suc w)) 16"
proof -
  define v where "v = ts_cts_window_size r"
  have sb: "et_sessions b = [r]" "v \<noteq> 0" using b(1) w by (auto simp: etp_goes_on_def v_def)
  obtain r1 where r1: "etp_process_frame b (ex_dpo x v k) (x_port x) = Some (etp_put 0 r1 b, [])" "erx_at x k r1"
      "ts_packets_to_send r1 = v" "ts_cts_window_size r1 = v" "ts_last_sequence r1 = 0"
    using process_ex_dpo [OF assms(1) sb(1) b(2) sb(2)] w by (auto simp: v_def)
  let ?b1 = "etp_put 0 r1 b"
  have pre: "et_sessions ?b1 = [r1]" "ts_packets_to_send r1 \<noteq> 0" "unat (ts_last_sequence r1) = 0"
    "unat (ts_cts_window_size r1) = 0 + Suc w"
    using sb r1(3-5) w(1) by (simp_all add: v_def)
  have "etp_goes_on b0 ?b1 r1" using b(1) sb(1) etp_goes_on_trans(1) etp_goes_on_put by blast
  note through = etp_goes_on_trans [OF this]
  have first: "etp_deliver (x_port x) (ex_dpo x v k # fs) b = etp_deliver (x_port x) fs ?b1" for fs
    using r1(1) by (auto split: bind_splits)
  show ?thesis
    using etp_deliver_window [OF assms(1) pre(1) r1(2) pre(2-4) w(2), unfolded add_0] through
    unfolding v_def [symmetric] first ex_window_def by (smt (verit, best))
qed

lemma etp_round_linked:
  assumes "etp_linked x a0 b0 k st"
  shows "\<exists>st' m. etp_exchange_round (x_port x) st = Some st' \<and> k < m
    \<and> (if m = x_packets x then etp_acknowledged x a0 b0 st' else etp_linked x a0 b0 m st')"
proof -
  obtain a b s r where x: "valid_etp_transfer x" "k < x_packets x"
    and st: "st = (a, b, [ex_cts x (ts_cts_window_size r) k])"
    and a: "etp_goes_on a0 a s" "etx_at x k s" "ts_state s = WaitingForCTS"
    and b: "etp_goes_on b0 b r" "erx_at x k r" "unat (ts_cts_window_size r) = min (x_packets x - k) 16"
    using assms unfolding etp_linked_def by blast
  define v where "v = ts_cts_window_size r"
  define w where "w = unat v - 1"
  have w: "unat v = Suc w" "unat v \<le> 16" "k + Suc w \<le> x_packets x" using x(2) b(3) by (auto simp: w_def v_def)
  obtain a1 a2 s2 where a2: "etp_process_frame a (ex_cts x v k) (x_port x) = Some (a1, [])"
      "etp_get_pending_data_frames a1 = Some (a2, ex_dpo x v k # ex_window x k (Suc w))"
      "etp_goes_on a0 a2 s2" "etx_at x (k + Suc w) s2"
      "ts_state s2 = (if k + Suc w = x_packets x then WaitingForEndOfMsg else WaitingForCTS)"
    using etp_sender_turn [OF x(1) a w] by blast
  note turn = etp_receiver_turn [OF x(1) b(1,2) w(1) [unfolded v_def] w(3), folded v_def]
  have round: "etp_exchange_round (x_port x) st = map_option (\<lambda>(b2, back). (a2, b2, back))
      (etp_deliver (x_port x) (ex_dpo x v k # ex_window x k (Suc w)) b)"
    using st a2(1,2) by (auto simp: etp_exchange_round_def map_option_case v_def [symmetric] split: bind_splits option.splits)
  show ?thesis
  proof (cases "k + Suc w = x_packets x")
    case True
    then show ?thesis using turn round x(1) a2(3-5)
      by (auto simp: etp_acknowledged_def intro!: exI [of _ "k + Suc w"])
  next
    case False
    then obtain b2 r' where r': "etp_deliver (x_port x) (ex_dpo x v k # ex_window x k (Suc w)) b
        = Some (b2, [ex_cts x (ts_cts_window_size r') (k + Suc w)])" "etp_goes_on b0 b2 r'" "erx_at x (k + Suc w) r'"
        "unat (ts_cts_window_size r') = min (x_packets x - (k + Suc w)) 16"
      using turn by auto
    have "etp_linked x a0 b0 (k + Suc w) (a2, b2, [ex_cts x (ts_cts_window_size r') (k + Suc w)])"
      unfolding etp_linked_def using r'(2-4) x(1) w(3) a2(3-5) False by (intro conjI exI) auto
    then show ?thesis using False round r'(1) by (intro exI [of _ "k + Suc w"] exI) auto
  qed
qed

lemma etp_round_acknowledged:
  assumes "etp_acknowledged x a0 b0 st"
  shows "\<exists>st'. etp_exchange_round (x_port x) st = Some st' \<and> etp_delivered x a0 b0 st'"
proof -
  obtain a b s where st: "valid_etp_transfer x" "st = (a, b, [ex_eoma x])" "etp_goes_on a0 a s"
    "etx_at x (x_packets x) s" "ts_state s = WaitingForEndOfMsg" "etp_completes x Receive b0 b"
    using assms by (auto simp: etp_acknowledged_def)
  have "et_sessions a = [s]" using st(3) by (simp add: etp_goes_on_def)
  then obtain a1 where a1: "etp_process_frame a (ex_eoma x) (x_port x) = Some (a1, [])" "etp_completes x Transmit a a1"
    using process_ex_eoma [OF st(1)] st(4,5) by blast
  then have "etp_exchange_round (x_port x) st = Some (a1, b, [])"
    using st(2) by (simp add: etp_exchange_round_def etp_get_pending_data_frames_def etp_completes_def)
  then show ?thesis using etp_goes_on_trans(2) [OF st(3) a1(2)] st(6) by (simp add: etp_delivered_def)
qed

interpretation etp_windows: windowed_link "etp_exchange_round (x_port x)" "x_packets x"
  "etp_linked x a0 b0" "etp_acknowledged x a0 b0" "etp_delivered x a0 b0"
  for x a0 b0
proof unfold_locales
  fix k st
  assume "etp_linked x a0 b0 k st"
  then show "k < x_packets x \<and> (\<exists>st' m. etp_exchange_round (x_port x) st = Some st' \<and> k < m
      \<and> (if m = x_packets x then etp_acknowledged x a0 b0 st' else etp_linked x a0 b0 m st'))"
    using etp_round_linked by (auto simp: etp_linked_def [of x a0 b0 k st])
qed (use etp_round_acknowledged in \<open>auto simp: etp_delivered_def etp_completes_def etp_exchange_round_def
    etp_get_pending_data_frames_def\<close>)

section \<open>Opening the transfer\<close>

definition ex_send :: "transfer \<Rightarrow> priority \<Rightarrow> etp_engine \<Rightarrow> etp_engine \<times> frame list net_result" where
  "ex_send x prio e = etp_send e (x_pgn x) (x_data x) (x_src x) (x_dst x) (x_port x) prio"

definition ex_rts :: "transfer \<Rightarrow> frame" where
  "ex_rts x = etp_make_rts_fields (x_pgn x) (of_nat (length (x_data x))) (x_src x) (x_dst x)"

lemma ex_length: "valid_etp_transfer x \<Longrightarrow> unat (of_nat (length (x_data x)) :: u32) = length (x_data x)"
  by (intro unat_of_nat_u32) (simp add: valid_etp_transfer_def)

lemma ex_send_eq:
  assumes "valid_etp_transfer x" and "et_sessions e = []" and "0 < et_max_sessions e"
  shows "\<exists>s. ex_send x prio e = (etp_push_session s e, Inr [ex_rts x]) \<and> etx_at x 0 s \<and> ts_state s = WaitingForCTS"
proof -
  let ?s = "session_default\<lparr>ts_direction := Transmit, ts_state := WaitingForCTS, ts_pgn := x_pgn x, ts_data := x_data x,
      ts_total_bytes := of_nat (length (x_data x)), ts_source := x_src x,
      ts_destination := x_dst x, ts_can_port := x_port x, ts_priority := prio\<rparr>"
  note len = ex_length [OF assms(1)]
  have eq: "ex_send x prio e = (etp_push_session ?s e, Inr [ex_rts x])"
    using assms len by (simp add: ex_send_def etp_send_def Let_def valid_etp_transfer_def limit_consts
        word_less_nat_alt word_le_nat_alt transmit_dt_path_is_active_def ex_rts_def etp_make_rts_def)
  have "length (x_data x) < 2 ^ 32" "etp_inv e" using assms by (simp_all add: valid_etp_transfer_def etp_inv_def)
  from etp_send_inv [OF this(2,1) eq [unfolded ex_send_def]] have "etp_wf ?s"
    using assms(2) by (simp add: etp_inv_def keyed_ok_def)
  then have "etx_at x 0 ?s" using len by (simp add: etx_at_def session_of_def session_default_def)
  then show ?thesis using eq by (intro exI [of _ ?s]) simp
qed

lemma process_ex_rts:
  assumes "valid_etp_transfer x" and "et_sessions e = []" and "0 < et_max_sessions e"
    and "length (x_data x) \<le> unat (et_max_receive_bytes e)"
  shows "\<exists>s. etp_process_frame e (ex_rts x) (x_port x) = Some (etp_push_session s e, [ex_cts x (ts_cts_window_size s) 0])
    \<and> erx_at x 0 s \<and> unat (ts_cts_window_size s) = 16 \<and> ts_timer_ms s = 0"
proof -
  let ?m = "of_nat (length (x_data x)) :: u32" and ?f = "ex_rts x"
  define s where "s = session_default\<lparr>ts_direction := Receive, ts_state := WaitingForData, ts_pgn := x_pgn x,
      ts_total_bytes := ?m, ts_source := x_src x, ts_destination := x_dst x, ts_can_port := x_port x,
      ts_priority := Lowest, ts_data := replicate (length (x_data x)) 0xFF,
      ts_cts_window_size := ucast TP_MAX_PACKETS_PER_CTS\<rparr>"
  have f: "frame_source ?f = x_src x" "frame_destination ?f = x_dst x" "frame_priority ?f = Lowest"
    "cm_size4 (fr_data ?f) = ?m" "wf_frame ?f"
    by (simp_all add: ex_rts_def etp_make_rts_fields_def etp_frame_wire size_bytes4_roundtrip wf_frame_def)
  note m = ex_length [OF assms(1)]
  have cm: "etp_process_frame e ?f (x_port x) = Some (etp_handle_rts e ?f (x_port x) (x_pgn x))"
    using process_ex_cm [of "x_pgn x" "size_bytes4 ?m" "x_src x" "x_dst x" e etp_cm_RTS "x_port x"]
      ex_ends [OF assms(1)] by (simp add: ex_rts_def etp_make_rts_fields_def)
  have pk: "unat (div_ceil ?m TP_BYTES_PER_FRAME) = x_packets x"
    using m by (subst unat_div_ceil) (simp_all add: limit_consts x_packets_def packet_count_def)
  have prof: "receive_profile_for_advertised_size e ?m =
      Inr \<lparr>rp_total_bytes = ?m, rp_total_packets = div_ceil ?m TP_BYTES_PER_FRAME, rp_max_receive_bytes = et_max_receive_bytes e\<rparr>"
    "\<not> 0xFFFFFF < div_ceil ?m TP_BYTES_PER_FRAME"
    using assms(1,4) m pk ex_packets_bound [OF assms(1)]
    by (simp_all add: receive_profile_for_advertised_size_def valid_etp_transfer_def word_le_nat_alt word_less_nat_alt
        limit_consts)
  have "etp_handle_rts e ?f (x_port x) (x_pgn x) = (etp_push_session s e, [ex_cts x (ts_cts_window_size s) 0])"
    unfolding etp_handle_rts_def Let_def f(1-4) prof(1)
    using assms(2-4) m prof(2)
    by (simp add: receive_dt_path_is_active_def etp_rx_buffer_def word_less_nat_alt s_def ex_cts_def)
  moreover from this have "etp_wf s"
    using etp_process_frame_safe [of e ?f "x_port x"] assms(2) f(5) cm by (simp add: etp_inv_def keyed_ok_def)
  moreover from this have "erx_at x 0 s" using m by (simp add: erx_at_def s_def session_of_def session_default_def)
  ultimately show ?thesis using cm by (intro exI [of _ s]) (simp add: s_def session_default_def limit_consts)
qed

definition etp_transfer :: "transfer \<Rightarrow> priority \<Rightarrow> etp_engine \<Rightarrow> etp_engine \<Rightarrow> etp_link option" where
  "etp_transfer x prio a b =
     (case ex_send x prio a of
        (a1, Inr frames) \<Rightarrow> do {
          (b1, back) \<leftarrow> etp_deliver (x_port x) frames b;
          iterate_rounds (etp_exchange_round (x_port x)) (x_packets x + 1) (a1, b1, back)
        }
      | (_, Inl _) \<Rightarrow> None)"

section \<open>Properties\<close>

text \<open>C7: A transfer of the extended transport protocol delivers its payload.  For every payload of 1786 to
117440505 bytes between two valid addresses, a sender and a receiver with idle engines and enough room, over a
link that loses nothing, complete the transfer: the receiver's completion event carries exactly the payload,
PGN and addresses of the sender, the sender completes as well, no abort is reported, and both tables are
empty again.\<close>

theorem etp_delivers:
  assumes "valid_etp_transfer x"
    and "et_sessions a = []" and "0 < et_max_sessions a" and "et_sessions b = []" and "0 < et_max_sessions b"
    and "length (x_data x) \<le> unat (et_max_receive_bytes b)"
  shows "\<exists>a' b' s r. etp_transfer x prio a b = Some (a', b', [])
    \<and> et_sessions a' = [] \<and> et_sessions b' = []
    \<and> et_on_abort a' = et_on_abort a \<and> et_on_abort b' = et_on_abort b
    \<and> et_on_complete a' = et_on_complete a @ [s] \<and> et_on_complete b' = et_on_complete b @ [r]
    \<and> session_of x Transmit s \<and> ts_data s = x_data x \<and> session_of x Receive r \<and> ts_data r = x_data x"
proof -
  obtain s where s: "ex_send x prio a = (etp_push_session s a, Inr [ex_rts x])" "etx_at x 0 s" "ts_state s = WaitingForCTS"
    using ex_send_eq [OF assms(1-3)] by blast
  obtain r where r: "etp_process_frame b (ex_rts x) (x_port x) =
      Some (etp_push_session r b, [ex_cts x (ts_cts_window_size r) 0])" "erx_at x 0 r" "unat (ts_cts_window_size r) = 16"
    using process_ex_rts [OF assms(1,4-6)] by blast
  have "256 \<le> x_packets x"
    using div_le_mono [of 1792 "length (x_data x) + 6" 7] assms(1)
    by (simp add: x_packets_def packet_count_def valid_etp_transfer_def)
  moreover have "etp_goes_on a (etp_push_session s a) s" "etp_goes_on b (etp_push_session r b) r"
    using assms(2,4) by (simp_all add: etp_goes_on_def)
  ultimately have "etp_linked x a b 0 (etp_push_session s a, etp_push_session r b, [ex_cts x (ts_cts_window_size r) 0])"
    unfolding etp_linked_def using assms(1) s(2,3) r(2,3) by auto
  from etp_windows.rounds_complete [OF this, of "x_packets x"]
  obtain a' b' where "etp_transfer x prio a b = Some (a', b', [])"
    "etp_completes x Transmit a a'" "etp_completes x Receive b b'"
    using s(1) r(1) by (auto simp: etp_transfer_def etp_delivered_def)
  then show ?thesis by (auto simp: etp_completes_def)
qed

definition etp_sample :: transfer where
  "etp_sample = \<lparr>x_src = 0x20, x_dst = 0x30, x_port = 0, x_pgn = 0xFECA, x_data = map of_nat [0..<2000]\<rparr>"

theorem etp_delivers_witness:
  "\<exists>a' b' s r. etp_transfer etp_sample Default etp_new etp_new = Some (a', b', [])
    \<and> et_sessions a' = [] \<and> et_sessions b' = []
    \<and> et_on_abort a' = et_on_abort etp_new \<and> et_on_abort b' = et_on_abort etp_new
    \<and> et_on_complete a' = et_on_complete etp_new @ [s] \<and> et_on_complete b' = et_on_complete etp_new @ [r]
    \<and> session_of etp_sample Transmit s \<and> ts_data s = x_data etp_sample
    \<and> session_of etp_sample Receive r \<and> ts_data r = x_data etp_sample"
  by (rule etp_delivers)
    (simp_all add: etp_sample_def valid_etp_transfer_def valid_etp_source_def valid_etp_destination_def
      address_consts pgn_is_valid_def etp_new_def limit_consts ETP_DEFAULT_MAX_SESSIONS_def)

text \<open>C33: A receiver of the extended transport protocol never applies the inter-packet time-out T1 of 750 ms:
in every reachable state a receive session that has waited less than T2, 1250 ms, stays in the table across
a timer update, even between two data frames of one window.\<close>

theorem etp_receiver_waits_t2:
  assumes "\<forall>i \<in> set inputs. etp_admissible i"
    and "run_inputs etp_step inputs etp_new = Some (e, out)"
    and "s \<in> set (et_sessions e)" and "ts_direction s = Receive"
    and "unat (ts_timer_ms s) + unat ms < 1250"
  shows "\<exists>e' fs. etp_update e ms = Some (e', fs) \<and> s\<lparr>ts_timer_ms := ts_timer_ms s + ms\<rparr> \<in> set (et_sessions e')"
proof -
  have inv: "etp_inv e" using etp.run_safe [OF etp_new_inv assms(1)] assms(2) by simp
  then have "etp_wf s" using assms(3) by (simp add: etp_inv_def keyed_ok_def)
  then have st: "ts_state s = WaitingForData" using assms(4) by (simp add: etp_wf_def etp_rx_ok_def)
  have t: "saturating_add (ts_timer_ms s) ms = ts_timer_ms s + ms" "unat (ts_timer_ms s + ms) < 1250"
    using assms(5) by (simp_all add: saturating_add_def unat_word_ariths)
  then have tick: "etp_tick ms s = (Some (s\<lparr>ts_timer_ms := ts_timer_ms s + ms\<rparr>), [])"
    using st by (simp add: etp_tick_def etp_deadline_ms_def etp_timeout_consts timeout_consts word_le_nat_alt)
  obtain e' fs where e': "etp_update e ms = Some (e', fs)"
    "mset (et_sessions e') = mset (List.map_filter (fst \<circ> etp_tick ms) (et_sessions e))"
    using etp_update_eq [OF inv, of ms] by blast
  then have "set (et_sessions e') = set (List.map_filter (fst \<circ> etp_tick ms) (et_sessions e))"
    by (metis set_mset_mset)
  then show ?thesis using e'(1) tick assms(3) by (force simp: map_filter_def)
qed

theorem etp_receiver_waits_t2_witness:
  "\<exists>e out s. run_inputs etp_step [EtpFrame (ex_rts etp_sample) 0] etp_new = Some (e, out) \<and> s \<in> set (et_sessions e)
    \<and> (\<exists>e' fs. etp_update e 1200 = Some (e', fs) \<and> s\<lparr>ts_timer_ms := ts_timer_ms s + 1200\<rparr> \<in> set (et_sessions e'))"
proof -
  have x: "valid_etp_transfer etp_sample" "length (x_data etp_sample) \<le> unat (et_max_receive_bytes etp_new)"
    by (simp_all add: etp_sample_def valid_etp_transfer_def valid_etp_source_def valid_etp_destination_def
      address_consts pgn_is_valid_def etp_new_def limit_consts)
  obtain s where s: "etp_process_frame etp_new (ex_rts etp_sample) (x_port etp_sample) =
      Some (etp_push_session s etp_new, [ex_cts etp_sample (ts_cts_window_size s) 0])"
      "erx_at etp_sample 0 s" "ts_timer_ms s = 0"
    using process_ex_rts [OF x(1) _ _ x(2)] by (auto simp: etp_new_def ETP_DEFAULT_MAX_SESSIONS_def)
  let ?e = "etp_push_session s etp_new"
  have run: "run_inputs etp_step [EtpFrame (ex_rts etp_sample) 0] etp_new = Some (?e, [ex_cts etp_sample (ts_cts_window_size s) 0])"
    using s(1) by (simp add: etp_step_def etp_sample_def)
  have adm: "\<forall>i \<in> set [EtpFrame (ex_rts etp_sample) 0]. etp_admissible i"
    by (simp add: etp_admissible_def ex_rts_def etp_cm_frame_defs wf_frame_def size_bytes4_def pgn_bytes_def)
  have "s \<in> set (et_sessions ?e)" "ts_direction s = Receive" "unat (ts_timer_ms s) + unat (1200 :: u32) < 1250"
    using s(2,3) by (simp_all add: erx_at_def session_of_def)
  from etp_receiver_waits_t2 [OF adm run this] show ?thesis using run \<open>s \<in> set (et_sessions ?e)\<close> by blast
qed

end
