(* ===== verification/Partner_Cf.thy ===== *)
theory Partner_Cf
  imports Control_Function
begin

text \<open>
  The remote control functions that a node tracks by NAME filters (src/src/net/partner_cf.rs).
\<close>

section \<open>Filters\<close>

datatype name_filter_field =
    IdentityNumber | ManufacturerCode | EcuInstance | FunctionInstance | FunctionCode
  | DeviceClass | DeviceClassInstance | IndustryGroup

record name_filter =
  nf_field :: name_filter_field
  nf_value :: u32

definition name_filter_matches :: "name_filter \<Rightarrow> device_name \<Rightarrow> bool" where
  "name_filter_matches f nm =
     (case nf_field f of
        IdentityNumber \<Rightarrow> identity_number nm = nf_value f
      | ManufacturerCode \<Rightarrow> ucast (manufacturer_code nm) = nf_value f
      | EcuInstance \<Rightarrow> ucast (ecu_instance nm) = nf_value f
      | FunctionInstance \<Rightarrow> ucast (function_instance nm) = nf_value f
      | FunctionCode \<Rightarrow> ucast (function_code nm) = nf_value f
      | DeviceClass \<Rightarrow> ucast (device_class nm) = nf_value f
      | DeviceClassInstance \<Rightarrow> ucast (device_class_instance nm) = nf_value f
      | IndustryGroup \<Rightarrow> ucast (industry_group nm) = nf_value f)"

section \<open>Partners\<close>

definition PARTNER_ADDRESS_CLAIM_RESPONSE_TIMEOUT_MS :: u32 where
  "PARTNER_ADDRESS_CLAIM_RESPONSE_TIMEOUT_MS = 2000"

record partner_cf =
  pcf_cf :: control_function
  pcf_filters :: "name_filter list"
  pcf_claim_validation_elapsed_ms :: u32
  pcf_claim_validation_pending :: bool
  pcf_on_partner_found :: "address event"
  pcf_on_partner_lost :: "unit event"

definition pcf_new :: "u8 \<Rightarrow> name_filter list \<Rightarrow> partner_cf" where
  "pcf_new port filters =
     \<lparr>pcf_cf = control_function_default\<lparr>cfn_can_port := port, cfn_type := Partnered\<rparr>,
      pcf_filters = filters, pcf_claim_validation_elapsed_ms = 0, pcf_claim_validation_pending = False,
      pcf_on_partner_found = [], pcf_on_partner_lost = []\<rparr>"

definition pcf_name :: "partner_cf \<Rightarrow> device_name" where "pcf_name p = cfn_name (pcf_cf p)"

definition pcf_address :: "partner_cf \<Rightarrow> address" where "pcf_address p = cfn_address (pcf_cf p)"

definition pcf_port :: "partner_cf \<Rightarrow> u8" where "pcf_port p = cfn_can_port (pcf_cf p)"

definition pcf_set_address :: "address \<Rightarrow> partner_cf \<Rightarrow> partner_cf" where
  "pcf_set_address a p = p\<lparr>pcf_cf := (pcf_cf p)\<lparr>cfn_address := a\<rparr>\<rparr>"

definition pcf_set_name :: "device_name \<Rightarrow> partner_cf \<Rightarrow> partner_cf" where
  "pcf_set_name nm p = p\<lparr>pcf_cf := (pcf_cf p)\<lparr>cfn_name := nm\<rparr>\<rparr>"

definition pcf_set_state :: "cf_state \<Rightarrow> partner_cf \<Rightarrow> partner_cf" where
  "pcf_set_state st p = p\<lparr>pcf_cf := (pcf_cf p)\<lparr>cfn_state := st\<rparr>\<rparr>"

definition note_address_claim_seen :: "device_name \<Rightarrow> address \<Rightarrow> partner_cf \<Rightarrow> partner_cf" where
  "note_address_claim_seen nm a p =
     (let p1 = pcf_set_state Online (pcf_set_address a (pcf_set_name nm p))
      in p1\<lparr>pcf_claim_validation_pending := False, pcf_claim_validation_elapsed_ms := 0,
            pcf_on_partner_found := event_emit (pcf_on_partner_found p1) a\<rparr>)"

definition note_cannot_claim_seen :: "device_name \<Rightarrow> partner_cf \<Rightarrow> partner_cf" where
  "note_cannot_claim_seen nm p =
     (let was_online = (cfn_is_online (pcf_cf p) \<or> cfn_address_valid (pcf_cf p));
          p1 = (pcf_set_state Offline (pcf_set_address NULL_ADDRESS (pcf_set_name nm p)))
                 \<lparr>pcf_claim_validation_pending := False, pcf_claim_validation_elapsed_ms := 0\<rparr>
      in if was_online then p1\<lparr>pcf_on_partner_lost := event_emit (pcf_on_partner_lost p1) ()\<rparr> else p1)"

definition begin_claim_validation :: "partner_cf \<Rightarrow> partner_cf" where
  "begin_claim_validation p =
     (if cfn_is_online (pcf_cf p) \<and> cfn_address_valid (pcf_cf p)
      then p\<lparr>pcf_claim_validation_pending := True, pcf_claim_validation_elapsed_ms := 0\<rparr>
      else p)"

definition update_claim_validation :: "u32 \<Rightarrow> partner_cf \<Rightarrow> partner_cf" where
  "update_claim_validation elapsed p =
     (if \<not> pcf_claim_validation_pending p then p
      else
        let t = saturating_add (pcf_claim_validation_elapsed_ms p) elapsed
        in if t < PARTNER_ADDRESS_CLAIM_RESPONSE_TIMEOUT_MS then p\<lparr>pcf_claim_validation_elapsed_ms := t\<rparr>
           else
             let p1 = pcf_set_state Offline (pcf_set_address NULL_ADDRESS
                        (p\<lparr>pcf_claim_validation_pending := False, pcf_claim_validation_elapsed_ms := 0\<rparr>))
             in p1\<lparr>pcf_on_partner_lost := event_emit (pcf_on_partner_lost p1) ()\<rparr>)"

definition pcf_matches_name :: "partner_cf \<Rightarrow> device_name \<Rightarrow> bool" where
  "pcf_matches_name p nm = list_all (\<lambda>f. name_filter_matches f nm) (pcf_filters p)"

section \<open>Consistency\<close>

text \<open>A partner is online exactly when it has a claimable address, only an online partner is being
validated, and every report of a loss follows a report of a find.\<close>

definition partner_ok :: "partner_cf \<Rightarrow> bool" where
  "partner_ok p \<longleftrightarrow> (cfn_is_online (pcf_cf p) \<longleftrightarrow> cfn_address_valid (pcf_cf p))
     \<and> (pcf_claim_validation_pending p \<longrightarrow> cfn_is_online (pcf_cf p))
     \<and> length (pcf_on_partner_lost p) \<le> length (pcf_on_partner_found p)
     \<and> (cfn_is_online (pcf_cf p) \<longrightarrow> length (pcf_on_partner_lost p) < length (pcf_on_partner_found p))"

lemmas partner_defs = pcf_set_address_def pcf_set_name_def pcf_set_state_def cfn_is_online_def
  cfn_address_valid_def address_consts

lemma partner_ok_new [simp]: "partner_ok (pcf_new port filters)"
  by (simp add: partner_ok_def pcf_new_def control_function_default_def partner_defs)

lemma partner_ok_claim_seen: "partner_ok p \<Longrightarrow> a \<le> MAX_ADDRESS \<Longrightarrow> partner_ok (note_address_claim_seen nm a p)"
  by (simp add: partner_ok_def note_address_claim_seen_def Let_def partner_defs event_emit_def)

lemma partner_ok_cannot_claim: "partner_ok p \<Longrightarrow> partner_ok (note_cannot_claim_seen nm p)"
  by (auto simp: partner_ok_def note_cannot_claim_seen_def Let_def partner_defs event_emit_def)

lemma partner_ok_begin: "partner_ok p \<Longrightarrow> partner_ok (begin_claim_validation p)"
  by (auto simp: partner_ok_def begin_claim_validation_def cfn_is_online_def)

lemma partner_ok_update: "partner_ok p \<Longrightarrow> partner_ok (update_claim_validation ms p)"
  by (auto simp: partner_ok_def update_claim_validation_def Let_def partner_defs event_emit_def)

end
