(* ===== verification/Bus_Load.thy ===== *)
theory Bus_Load
  imports Prelude
begin

text \<open>
  The rolling-window estimator of the bus load (src/src/net/bus_load.rs).  The loop of \<open>update\<close> is a
  partial function whose value \<open>None\<close> stands for a loop that does not end or an index outside the ring
  of samples; the theory shows that neither happens.  The percentage itself is a floating-point value and
  not modelled.
\<close>

section \<open>The estimator\<close>

definition WINDOW_SIZE :: nat where "WINDOW_SIZE = 100"
definition SAMPLE_PERIOD_MS :: u32 where "SAMPLE_PERIOD_MS = 100"

record bus_load =
  bl_bit_counts :: "u32 list"
  bl_write_idx :: nat
  bl_current_bits :: u32
  bl_timer_ms :: u32
  bl_filled :: bool

definition bl_new :: bus_load where
  "bl_new = \<lparr>bl_bit_counts = replicate WINDOW_SIZE 0, bl_write_idx = 0, bl_current_bits = 0, bl_timer_ms = 0,
     bl_filled = False\<rparr>"

definition bl_add_frame :: "u8 \<Rightarrow> bus_load \<Rightarrow> bus_load" where
  "bl_add_frame dlc b =
     (let n = min (ucast dlc) 8 :: u32; bits = (67 + n * 8) * 120 div 100
      in b\<lparr>bl_current_bits := saturating_add (bl_current_bits b) bits\<rparr>)"

partial_function (option) bl_sample_loop :: "bus_load \<Rightarrow> bus_load option" where
  "bl_sample_loop b =
     (if SAMPLE_PERIOD_MS \<le> bl_timer_ms b
      then do {
        counts \<leftarrow> index_set (bl_bit_counts b) (bl_write_idx b) (bl_current_bits b);
        let idx = (bl_write_idx b + 1) mod WINDOW_SIZE;
        bl_sample_loop (b\<lparr>bl_timer_ms := bl_timer_ms b - SAMPLE_PERIOD_MS, bl_bit_counts := counts,
          bl_write_idx := idx, bl_filled := (idx = 0 \<or> bl_filled b), bl_current_bits := 0\<rparr>)
      }
      else Some b)"

definition bl_update :: "u32 \<Rightarrow> bus_load \<Rightarrow> bus_load option" where
  "bl_update delta b = bl_sample_loop (b\<lparr>bl_timer_ms := saturating_add (bl_timer_ms b) delta\<rparr>)"

definition bl_reset :: "bus_load \<Rightarrow> bus_load" where
  "bl_reset b = bl_new"

definition bl_sample_count :: "bus_load \<Rightarrow> nat" where
  "bl_sample_count b = (if bl_filled b then WINDOW_SIZE else bl_write_idx b)"

section \<open>Well-formedness\<close>

definition wf_bus_load :: "bus_load \<Rightarrow> bool" where
  "wf_bus_load b \<longleftrightarrow> length (bl_bit_counts b) = WINDOW_SIZE \<and> bl_write_idx b < WINDOW_SIZE"

lemma wf_bus_load_new [simp]: "wf_bus_load bl_new"
  by (simp add: wf_bus_load_def bl_new_def WINDOW_SIZE_def)

lemma wf_bus_load_add_frame [simp]: "wf_bus_load (bl_add_frame dlc b) = wf_bus_load b"
  by (simp add: wf_bus_load_def bl_add_frame_def Let_def)

section \<open>The loop returns\<close>

text \<open>What \<open>k\<close> rounds of the loop do to the ring: the bits counted so far go into the next bin, and every
later bin gets zero.\<close>

definition bin_age :: "nat \<Rightarrow> nat \<Rightarrow> nat" where
  "bin_age w j = (j + WINDOW_SIZE - w) mod WINDOW_SIZE"

definition binned :: "nat \<Rightarrow> bus_load \<Rightarrow> bus_load" where
  "binned k b =
     (if k = 0 then b
      else b\<lparr>bl_bit_counts := map (\<lambda>j. if j = bl_write_idx b \<and> k \<le> WINDOW_SIZE then bl_current_bits b
                  else if bin_age (bl_write_idx b) j < k then 0 else bl_bit_counts b ! j) [0..<WINDOW_SIZE],
             bl_write_idx := (bl_write_idx b + k) mod WINDOW_SIZE,
             bl_filled := (bl_filled b \<or> WINDOW_SIZE \<le> bl_write_idx b + k),
             bl_current_bits := 0\<rparr>)"

definition one_sample :: "bus_load \<Rightarrow> bus_load" where
  "one_sample b =
     (let idx = (bl_write_idx b + 1) mod WINDOW_SIZE
      in b\<lparr>bl_timer_ms := bl_timer_ms b - SAMPLE_PERIOD_MS,
           bl_bit_counts := (bl_bit_counts b)[bl_write_idx b := bl_current_bits b],
           bl_write_idx := idx, bl_filled := (idx = 0 \<or> bl_filled b), bl_current_bits := 0\<rparr>)"

lemma bl_sample_loop_step:
  assumes "wf_bus_load b"
  shows "bl_sample_loop b = (if SAMPLE_PERIOD_MS \<le> bl_timer_ms b then bl_sample_loop (one_sample b) else Some b)"
  using assms by (subst bl_sample_loop.simps) (simp add: wf_bus_load_def index_set_def one_sample_def Let_def)

lemma wf_one_sample: "wf_bus_load b \<Longrightarrow> wf_bus_load (one_sample b)"
  by (simp add: wf_bus_load_def one_sample_def Let_def WINDOW_SIZE_def)

lemma bin_age_eq:
  assumes "j < WINDOW_SIZE" and "w < WINDOW_SIZE"
  shows "bin_age w j = (if w \<le> j then j - w else j + WINDOW_SIZE - w)"
proof (cases "w \<le> j")
  case True
  then have "j + WINDOW_SIZE - w = j - w + WINDOW_SIZE" by simp
  then have "bin_age w j = (j - w + WINDOW_SIZE) mod WINDOW_SIZE" by (simp only: bin_age_def)
  then have "bin_age w j = (j - w) mod WINDOW_SIZE" by (simp only: mod_add_self2)
  then show ?thesis using True assms(1) by simp
next
  case False
  then have "j + WINDOW_SIZE - w < WINDOW_SIZE" using assms by linarith
  then show ?thesis using False by (simp add: bin_age_def)
qed

lemma bin_age_next:
  assumes "j < WINDOW_SIZE" and "w < WINDOW_SIZE"
  shows "bin_age ((w + 1) mod WINDOW_SIZE) j = (if j = w then WINDOW_SIZE - 1 else bin_age w j - 1)"
proof (cases "w + 1 = WINDOW_SIZE")
  case True
  then have "bin_age ((w + 1) mod WINDOW_SIZE) j = j" using assms(1) by (simp add: bin_age_def)
  moreover have "WINDOW_SIZE - 1 = w" using True by linarith
  moreover have "bin_age w j = j + 1" if "j \<noteq> w"
  proof -
    have "\<not> w \<le> j" using that True assms(1) by linarith
    then have "bin_age w j = j + WINDOW_SIZE - w" using bin_age_eq [OF assms] by simp
    then show ?thesis using True by linarith
  qed
  ultimately show ?thesis by simp
next
  case False
  then have "w + 1 < WINDOW_SIZE" using assms(2) by simp
  moreover from this have "(w + 1) mod WINDOW_SIZE = w + 1" by simp
  ultimately show ?thesis using assms bin_age_eq [OF assms] bin_age_eq [OF assms(1), of "w + 1"] by auto
qed

lemma bin_age_zero: "j < WINDOW_SIZE \<Longrightarrow> w < WINDOW_SIZE \<Longrightarrow> bin_age w j = 0 \<longleftrightarrow> j = w"
  using bin_age_eq [of j w] by (cases "w \<le> j") auto

lemma ring_filled:
  "w < n \<Longrightarrow> n \<le> (w + 1) mod n + k \<or> (w + 1) mod n = (0 :: nat) \<longleftrightarrow> n \<le> w + Suc k"
  "w < n \<Longrightarrow> (w + 1) mod n = (0 :: nat) \<longleftrightarrow> n \<le> w + 1"
  by (cases "w + 1 = n"; auto)+

lemma binned_Suc_counts:
  assumes "wf_bus_load b" and j: "j < WINDOW_SIZE"
  shows "bl_bit_counts (binned (Suc k) b) ! j = bl_bit_counts (binned k (one_sample b)) ! j"
proof -
  have len: "length (bl_bit_counts b) = WINDOW_SIZE" "bl_write_idx b < WINDOW_SIZE" "0 < WINDOW_SIZE"
    using assms(1) by (simp_all add: wf_bus_load_def WINDOW_SIZE_def)
  show ?thesis
  proof (cases "k = 0")
    case True
    then show ?thesis using j len bin_age_zero [OF j len(2)]
      by (cases "j = bl_write_idx b") (simp_all add: binned_def one_sample_def Let_def)
  next
    case False
    let ?v = "(bl_write_idx b + 1) mod WINDOW_SIZE"
    have "?v < WINDOW_SIZE" using len(3) by simp
    then have first: "j = ?v \<longleftrightarrow> bin_age ?v j = 0" using bin_age_zero [OF j] by auto
    have lhs: "bl_bit_counts (binned (Suc k) b) ! j = (if j = bl_write_idx b \<and> Suc k \<le> WINDOW_SIZE then bl_current_bits b
        else if bin_age (bl_write_idx b) j < Suc k then 0 else bl_bit_counts b ! j)"
      using j by (simp add: binned_def)
    have rhs: "bl_bit_counts (binned k (one_sample b)) ! j = (if bin_age ?v j < k then 0
        else (bl_bit_counts b)[bl_write_idx b := bl_current_bits b] ! j)"
      using j first False by (simp add: binned_def one_sample_def Let_def)
    show ?thesis
    proof (cases "j = bl_write_idx b")
      case True
      then have "bin_age ?v j = WINDOW_SIZE - 1" "bin_age (bl_write_idx b) j = 0"
        using bin_age_next [OF j len(2)] bin_age_zero [OF j len(2)] by simp_all
      then show ?thesis unfolding lhs rhs using True len by auto
    next
      case other: False
      then have "bin_age ?v j = bin_age (bl_write_idx b) j - 1" "bin_age (bl_write_idx b) j \<noteq> 0"
        using bin_age_next [OF j len(2)] bin_age_zero [OF j len(2)] by simp_all
      then have "bin_age ?v j < k \<longleftrightarrow> bin_age (bl_write_idx b) j < Suc k" by linarith
      then show ?thesis unfolding lhs rhs using other by simp
    qed
  qed
qed

lemma binned_Suc:
  assumes "wf_bus_load b"
  shows "binned (Suc k) b = (binned k (one_sample b))\<lparr>bl_timer_ms := bl_timer_ms b\<rparr>"
proof -
  let ?n = WINDOW_SIZE and ?w = "bl_write_idx b"
  have len: "length (bl_bit_counts b) = ?n" "?w < ?n" "0 < ?n"
    using assms by (simp_all add: wf_bus_load_def WINDOW_SIZE_def)
  have "bl_bit_counts (binned (Suc k) b) = bl_bit_counts (binned k (one_sample b))"
    using len binned_Suc_counts [OF assms] by (intro nth_equalityI) (simp_all add: binned_def one_sample_def Let_def)
  moreover have "bl_write_idx (binned (Suc k) b) = bl_write_idx (binned k (one_sample b))"
    by (simp add: binned_def one_sample_def Let_def mod_add_left_eq)
  moreover have "bl_filled (binned (Suc k) b) = bl_filled (binned k (one_sample b))"
    using ring_filled(1) [OF len(2), of k] ring_filled(2) [OF len(2)]
    by (cases "k = 0") (auto simp: binned_def one_sample_def Let_def)
  ultimately show ?thesis by (intro bus_load.equality) (simp_all add: binned_def one_sample_def Let_def)
qed

lemma bl_sample_loop_eq:
  assumes "wf_bus_load b"
  shows "bl_sample_loop b
    = Some ((binned (unat (bl_timer_ms b) div 100) b)\<lparr>bl_timer_ms := bl_timer_ms b mod SAMPLE_PERIOD_MS\<rparr>)"
  using assms
proof (induction "unat (bl_timer_ms b) div 100" arbitrary: b)
  case 0
  then have "unat (bl_timer_ms b) < 100" by simp
  then have "\<not> SAMPLE_PERIOD_MS \<le> bl_timer_ms b" "bl_timer_ms b mod SAMPLE_PERIOD_MS = bl_timer_ms b"
    by (simp_all add: SAMPLE_PERIOD_MS_def word_le_nat_alt word_unat_eq_iff unat_mod)
  then show ?case using 0 bl_sample_loop_step [OF 0(2)] by (simp add: binned_def)
next
  case (Suc k)
  let ?t = "bl_timer_ms b"
  have ge: "100 \<le> unat ?t" using Suc.hyps(2) by (cases "100 \<le> unat ?t") simp_all
  then have t: "unat (?t - SAMPLE_PERIOD_MS) = unat ?t - 100" "SAMPLE_PERIOD_MS \<le> ?t"
    by (simp_all add: SAMPLE_PERIOD_MS_def word_le_nat_alt unat_sub)
  then have k: "unat (bl_timer_ms (one_sample b)) div 100 = k"
    using Suc.hyps(2) ge by (simp add: one_sample_def Let_def le_div_geq)
  have "(?t - SAMPLE_PERIOD_MS) mod SAMPLE_PERIOD_MS = ?t mod SAMPLE_PERIOD_MS"
    using t(1) ge by (simp add: word_unat_eq_iff unat_mod SAMPLE_PERIOD_MS_def le_mod_geq)
  moreover have "bl_timer_ms (one_sample b) = ?t - SAMPLE_PERIOD_MS" by (simp add: one_sample_def Let_def)
  ultimately show ?case
    using Suc.hyps(1) [OF k [symmetric] wf_one_sample [OF Suc.prems]] bl_sample_loop_step [OF Suc.prems]
      binned_Suc [OF Suc.prems, of k] t(2) k Suc.hyps(2)
    by simp
qed

lemma wf_binned: "wf_bus_load b \<Longrightarrow> wf_bus_load (binned k b)"
  by (simp add: wf_bus_load_def binned_def WINDOW_SIZE_def)

lemma bl_update_returns:
  "wf_bus_load b \<Longrightarrow> \<exists>b'. bl_update ms b = Some b' \<and> wf_bus_load b'"
  using bl_sample_loop_eq [of "b\<lparr>bl_timer_ms := saturating_add (bl_timer_ms b) ms\<rparr>"]
    wf_binned [of "b\<lparr>bl_timer_ms := saturating_add (bl_timer_ms b) ms\<rparr>"]
  by (simp add: bl_update_def wf_bus_load_def)

section \<open>Properties\<close>

text \<open>C34: The sampling loop of the bus-load estimator ends for every elapsed time, and it never writes outside
its ring.  It makes one round per full sample period; the bits counted before the call go into the
first bin, the bins of the other periods get zero, a period that has not ended stays on the timer, and the
number of samples is that of the periods so far, up to the window size.\<close>

theorem bus_load_update_ends:
  assumes "wf_bus_load b"
  shows "let t = saturating_add (bl_timer_ms b) ms in
    \<exists>b'. bl_update ms b = Some b' \<and> wf_bus_load b'
    \<and> bl_timer_ms b' = t mod 100
    \<and> bl_current_bits b' = (if unat t < 100 then bl_current_bits b else 0)
    \<and> bl_sample_count b' = min WINDOW_SIZE (bl_sample_count b + unat t div 100)
    \<and> (100 \<le> unat t \<and> unat t < 10100 \<longrightarrow> bl_bit_counts b' ! bl_write_idx b = bl_current_bits b)"
proof -
  define t where "t = saturating_add (bl_timer_ms b) ms"
  let ?b = "b\<lparr>bl_timer_ms := t\<rparr>" and ?k = "unat t div 100"
  let ?b' = "(binned ?k ?b)\<lparr>bl_timer_ms := t mod SAMPLE_PERIOD_MS\<rparr>"
  have wf: "wf_bus_load ?b" "bl_write_idx b < WINDOW_SIZE" "0 < WINDOW_SIZE"
    using assms(1) by (simp_all add: wf_bus_load_def WINDOW_SIZE_def)
  have "bl_update ms b = Some ?b'" using bl_sample_loop_eq [OF wf(1)] by (simp add: bl_update_def t_def)
  moreover have "wf_bus_load ?b'" using wf_binned [OF wf(1), of ?k] by (simp add: wf_bus_load_def)
  moreover have "bl_sample_count ?b' = min WINDOW_SIZE (bl_sample_count b + ?k)"
    using wf(2,3) by (auto simp: bl_sample_count_def binned_def)
  moreover have "bl_bit_counts ?b' ! bl_write_idx b = bl_current_bits b" if "100 \<le> unat t" "unat t < 10100"
  proof -
    have "?k \<noteq> 0" "?k \<le> WINDOW_SIZE"
      using that div_le_mono [of "unat t" 10099 100] by (simp_all add: WINDOW_SIZE_def div_eq_0_iff)
    then show ?thesis using wf by (simp add: binned_def)
  qed
  moreover have "?k = 0 \<longleftrightarrow> unat t < 100" by (auto simp: div_eq_0_iff)
  ultimately show ?thesis
    unfolding Let_def t_def [symmetric]
    by (intro exI [of _ ?b']) (auto simp: SAMPLE_PERIOD_MS_def binned_def)
qed

theorem bus_load_update_ends_witness:
  "wf_bus_load bl_new \<and> (\<exists>b'. bl_update 350 bl_new = Some b' \<and> bl_sample_count b' = 3 \<and> bl_timer_ms b' = 50)"
proof -
  have "saturating_add (bl_timer_ms bl_new) 350 = 350" "bl_sample_count bl_new = 0"
    by (simp_all add: bl_new_def saturating_add_def bl_sample_count_def)
  then show ?thesis
    using bus_load_update_ends [OF wf_bus_load_new, of 350] by (auto simp: Let_def WINDOW_SIZE_def)
qed

end
