(* ===== verification/Net_Manager.thy ===== *)
theory Net_Manager
  imports Address_Claim TP_Engine ETP_Engine Fast_Packet Partner_Cf Bus_Load
begin

text \<open>
  The network manager \<open>IsoNet\<close> (src/src/net/network_manager/iso_network_manager.rs): it owns the CAN
  endpoints, the local and remote control functions and the three transport engines, and routes frames
  between them.  An endpoint belongs to a CAN library outside of this repository; it is the type parameter
  \<open>'ep\<close>, with its two operations given by a \<open>link\<close>.  Listeners and callbacks are closures of the
  application: a listener is the list of the values it is given, a callback is a number, and the calls
  are logged.  The two 64-bit frame counters are natural numbers.
\<close>

section \<open>Requests\<close>

text \<open>The request for a parameter group, from src/src/j1939/pgn_request.rs.\<close>

definition decode_request :: "bytes \<Rightarrow> pgn option" where
  "decode_request data =
     (if length data = 3 \<or> length data = 8 \<and> list_all (\<lambda>b. b = 0xFF) (drop 3 data)
      then
        let p = ucast (data ! 0) OR push_bit 8 (ucast (data ! 1)) OR push_bit 16 (ucast (data ! 2))
        in if pgn_is_valid p then Some p else None
      else None)"

section \<open>Configuration and state\<close>

record network_config =
  nc_num_ports :: u8
  nc_address_claim_timeout_ms :: u32
  nc_enable_bus_load :: bool
  nc_enable_fast_packet :: bool

definition config_default :: network_config where
  "config_default = \<lparr>nc_num_ports = 1, nc_address_claim_timeout_ms = ADDRESS_CLAIM_TIMEOUT_MS,
     nc_enable_bus_load = True, nc_enable_fast_packet = False\<rparr>"

definition config_ports :: "u8 \<Rightarrow> network_config \<Rightarrow> network_config" where
  "config_ports n c = c\<lparr>nc_num_ports := n\<rparr>"

definition config_claim_timeout :: "u32 \<Rightarrow> network_config \<Rightarrow> network_config" where
  "config_claim_timeout ms c = c\<lparr>nc_address_claim_timeout_ms := ms\<rparr>"

definition config_bus_load :: "bool \<Rightarrow> network_config \<Rightarrow> network_config" where
  "config_bus_load enable c = c\<lparr>nc_enable_bus_load := enable\<rparr>"

definition config_fast_packet :: "bool \<Rightarrow> network_config \<Rightarrow> network_config" where
  "config_fast_packet enable c = c\<lparr>nc_enable_fast_packet := enable\<rparr>"

definition MAX_PENDING_TRANSPORT_TX :: nat where "MAX_PENDING_TRANSPORT_TX = 32"

definition ADDRESS_VIOLATION_RESPONSE_INTERVAL_MS :: u32 where
  "ADDRESS_VIOLATION_RESPONSE_INTERVAL_MS = 1000"

datatype pending_transport_kind = PendingTp | PendingEtp

record pending_transport_tx =
  px_kind :: pending_transport_kind
  px_pgn :: pgn
  px_data :: bytes
  px_source :: address
  px_destination :: address
  px_port :: u8
  px_priority :: priority

record 'ep link =
  lk_send :: "can_frame \<Rightarrow> 'ep \<Rightarrow> 'ep \<times> (string + unit)"
  lk_recv :: "'ep \<Rightarrow> 'ep \<times> can_frame option"

record 'ep iso_net =
  n_config :: network_config
  n_frames_sent :: nat
  n_frames_received :: nat
  n_internal_cfs :: "internal_cf list"
  n_recent_violations :: "(u8 \<times> address \<times> u32) list"
  n_partner_cfs :: "partner_cf list"
  n_claimers :: "claimer list"
  n_endpoints :: "u8 \<Rightarrow> 'ep option"
  n_bus_loads :: "u8 \<Rightarrow> bus_load option"
  n_tp :: tp_engine
  n_etp :: etp_engine
  n_fast_packet :: fast_packet
  n_pgn_callbacks :: "pgn \<Rightarrow> nat list"
  n_fast_packet_pgns :: "pgn list"
  n_pending_transport_tx :: "pending_transport_tx list"
  n_tp_completions :: "transport_session list"
  n_etp_completions :: "transport_session list"
  n_outbound :: "(u8 \<times> frame) list"
  n_capture_outbound :: bool
  n_captured_messages :: "message list"
  n_capture_messages :: bool
  n_on_message :: "message event"
  n_callback_log :: "(nat \<times> message) list"
  n_on_address_violation :: "address event"
  n_on_duplicate_name :: "(device_name \<times> address) event"

definition net_new :: "network_config \<Rightarrow> 'ep iso_net" where
  "net_new config = \<lparr>
     n_config = config, n_frames_sent = 0, n_frames_received = 0, n_internal_cfs = [],
     n_recent_violations = [], n_partner_cfs = [], n_claimers = [], n_endpoints = (\<lambda>_. None),
     n_bus_loads = (\<lambda>p. if nc_enable_bus_load config \<and> p < nc_num_ports config then Some bl_new else None),
     n_tp = tp_new, n_etp = etp_new, n_fast_packet = fp_new, n_pgn_callbacks = (\<lambda>_. []),
     n_fast_packet_pgns = [], n_pending_transport_tx = [], n_tp_completions = [], n_etp_completions = [],
     n_outbound = [], n_capture_outbound = False, n_captured_messages = [], n_capture_messages = False,
     n_on_message = [], n_callback_log = [], n_on_address_violation = [], n_on_duplicate_name = []\<rparr>"

text \<open>
  \<open>new\<close> subscribes a listener to the completion events of the two engines that appends each completed
  session to a queue.  Storing an engine back therefore appends what it has emitted meanwhile.
\<close>

definition net_set_tp :: "tp_engine \<Rightarrow> 'ep iso_net \<Rightarrow> 'ep iso_net" where
  "net_set_tp e n =
     n\<lparr>n_tp := e, n_tp_completions := n_tp_completions n
         @ drop (length (tp_on_complete (n_tp n))) (tp_on_complete e)\<rparr>"

definition net_set_etp :: "etp_engine \<Rightarrow> 'ep iso_net \<Rightarrow> 'ep iso_net" where
  "net_set_etp e n =
     n\<lparr>n_etp := e, n_etp_completions := n_etp_completions n
         @ drop (length (et_on_complete (n_etp n))) (et_on_complete e)\<rparr>"

section \<open>Devices, endpoints and registries\<close>

definition net_create_internal ::
  "device_name \<Rightarrow> u8 \<Rightarrow> address \<Rightarrow> 'ep iso_net \<Rightarrow> ('ep iso_net \<times> nat net_result) option" where
  "net_create_internal nm port preferred n =
     (if list_ex (\<lambda>cf. icf_name cf = nm) (n_internal_cfs n)
      then Some (n, Inl (error_with_message AddressConflict
             (''duplicate internal NAME '' @ hex_padded 16 (unat (name_raw nm)))))
      else do {
        c \<leftarrow> claimer_with_timeout (nc_address_claim_timeout_ms (n_config n)) (rtxd_for_name nm);
        let cfs = n_internal_cfs n @ [icf_new nm port preferred];
        Some (n\<lparr>n_internal_cfs := cfs, n_claimers := n_claimers n @ [c]\<rparr>, Inr (length cfs - 1))
      })"

definition net_create_partner :: "u8 \<Rightarrow> name_filter list \<Rightarrow> 'ep iso_net \<Rightarrow> 'ep iso_net \<times> nat net_result" where
  "net_create_partner port filters n =
     (let ps = n_partner_cfs n @ [pcf_new port filters]
      in (n\<lparr>n_partner_cfs := ps\<rparr>, Inr (length ps - 1)))"

definition net_set_endpoint :: "u8 \<Rightarrow> 'ep \<Rightarrow> 'ep iso_net \<Rightarrow> 'ep iso_net" where
  "net_set_endpoint port ep n =
     n\<lparr>n_endpoints := (n_endpoints n)(port \<mapsto> ep),
       n_bus_loads := (if nc_enable_bus_load (n_config n) \<and> n_bus_loads n port = None
                       then (n_bus_loads n)(port \<mapsto> bl_new) else n_bus_loads n)\<rparr>"

text \<open>The keys of the endpoint map, ascending.\<close>

definition all_ports :: "u8 list" where "all_ports = map of_nat [0..<256]"

definition net_ports :: "'ep iso_net \<Rightarrow> u8 list" where
  "net_ports n = filter (\<lambda>p. n_endpoints n p \<noteq> None) all_ports"

definition net_register_pgn_callback :: "pgn \<Rightarrow> nat \<Rightarrow> 'ep iso_net \<Rightarrow> 'ep iso_net \<times> unit net_result" where
  "net_register_pgn_callback p cb n =
     (if \<not> pgn_is_valid p then (n, Inl (error_invalid_pgn p))
      else (n\<lparr>n_pgn_callbacks := (n_pgn_callbacks n)(p := n_pgn_callbacks n p @ [cb])\<rparr>, Inr ()))"

definition net_register_fast_packet_pgn :: "pgn \<Rightarrow> 'ep iso_net \<Rightarrow> 'ep iso_net \<times> unit net_result" where
  "net_register_fast_packet_pgn p n =
     (if \<not> pgn_is_valid p then (n, Inl (error_invalid_pgn p))
      else (if p \<in> set (n_fast_packet_pgns n) then n
            else n\<lparr>n_fast_packet_pgns := n_fast_packet_pgns n @ [p]\<rparr>, Inr ()))"

definition is_fast_packet_pgn :: "'ep iso_net \<Rightarrow> pgn \<Rightarrow> bool" where
  "is_fast_packet_pgn n p \<longleftrightarrow> nc_enable_fast_packet (n_config n) \<and> p \<in> set (n_fast_packet_pgns n)"

section \<open>Sending frames\<close>

definition count_bus_load :: "u8 \<Rightarrow> u8 \<Rightarrow> 'ep iso_net \<Rightarrow> 'ep iso_net" where
  "count_bus_load port len n =
     (if nc_enable_bus_load (n_config n)
      then n\<lparr>n_bus_loads := (n_bus_loads n)(port := map_option (bl_add_frame len) (n_bus_loads n port))\<rparr>
      else n)"

definition net_send_frame ::
  "'ep link \<Rightarrow> frame \<Rightarrow> u8 \<Rightarrow> 'ep iso_net \<Rightarrow> 'ep iso_net \<times> unit net_result" where
  "net_send_frame lk f port n =
     (if n_capture_outbound n
      then (count_bus_load port (fr_length f)
              (n\<lparr>n_outbound := n_outbound n @ [(port, f)], n_frames_sent := n_frames_sent n + 1\<rparr>), Inr ())
      else case n_endpoints n port of
        None \<Rightarrow> (n, Inl error_not_connected)
      | Some ep \<Rightarrow>
          let (ep', r) = lk_send lk (frame_to_can_frame f) ep;
              n1 = n\<lparr>n_endpoints := (n_endpoints n)(port \<mapsto> ep')\<rparr>
          in case r of
               Inl e \<Rightarrow> (n1, Inl (error_with_message DriverError e))
             | Inr _ \<Rightarrow> (count_bus_load port (fr_length f) (n1\<lparr>n_frames_sent := n_frames_sent n1 + 1\<rparr>), Inr ()))"

primrec net_send_frames ::
  "'ep link \<Rightarrow> frame list \<Rightarrow> u8 \<Rightarrow> 'ep iso_net \<Rightarrow> 'ep iso_net \<times> unit net_result" where
  "net_send_frames lk [] port n = (n, Inr ())"
| "net_send_frames lk (f # fs) port n =
     (case net_send_frame lk f port n of
        (n1, Inl e) \<Rightarrow> (n1, Inl e)
      | (n1, Inr _) \<Rightarrow> net_send_frames lk fs port n1)"

text \<open>Frames whose transmit result is ignored, each on its own port or all on one.\<close>

primrec send_each :: "'ep link \<Rightarrow> (u8 \<times> frame) list \<Rightarrow> 'ep iso_net \<Rightarrow> 'ep iso_net" where
  "send_each lk [] n = n"
| "send_each lk (pf # pfs) n = send_each lk pfs (fst (net_send_frame lk (snd pf) (fst pf) n))"

definition send_frames_best_effort :: "'ep link \<Rightarrow> frame list \<Rightarrow> u8 \<Rightarrow> 'ep iso_net \<Rightarrow> 'ep iso_net" where
  "send_frames_best_effort lk fs port n = send_each lk (map (Pair port) fs) n"

definition send_single_frame ::
  "'ep link \<Rightarrow> pgn \<Rightarrow> bytes \<Rightarrow> address \<Rightarrow> address \<Rightarrow> priority \<Rightarrow> u8 \<Rightarrow> 'ep iso_net \<Rightarrow> 'ep iso_net \<times> unit net_result" where
  "send_single_frame lk p data src dst prio port n =
     (let k = min (length data) 8
      in net_send_frame lk (frame8 (id_encode prio p src dst) (take k data @ replicate (8 - k) 0xFF)) port n)"

definition queue_transport_tx :: "pending_transport_tx \<Rightarrow> 'ep iso_net \<Rightarrow> 'ep iso_net \<times> unit net_result" where
  "queue_transport_tx tx n =
     (if length (n_pending_transport_tx n) < MAX_PENDING_TRANSPORT_TX
      then (n\<lparr>n_pending_transport_tx := n_pending_transport_tx n @ [tx]\<rparr>, Inr ())
      else (n, Inl (error_with_message NoResources ''pending transport transmit queue full'')))"

definition net_send_transport ::
  "'ep link \<Rightarrow> pending_transport_tx \<Rightarrow> 'ep iso_net \<Rightarrow> 'ep iso_net \<times> frame list net_result" where
  "net_send_transport lk tx n =
     (case px_kind tx of
        PendingTp \<Rightarrow>
          let (e, r) = tp_send (n_tp n) (px_pgn tx) (px_data tx) (px_source tx) (px_destination tx) (px_port tx)
                         (px_priority tx)
          in (net_set_tp e n, r)
      | PendingEtp \<Rightarrow>
          let (e, r) = etp_send (n_etp n) (px_pgn tx) (px_data tx) (px_source tx) (px_destination tx) (px_port tx)
                         (px_priority tx)
          in (net_set_etp e n, r))"

text \<open>The transport half of \<open>send\<close>: start the transfer, or queue it behind a transfer on the same path.\<close>

definition send_or_queue :: "'ep link \<Rightarrow> pending_transport_tx \<Rightarrow> 'ep iso_net \<Rightarrow> 'ep iso_net \<times> unit net_result" where
  "send_or_queue lk tx n =
     (case net_send_transport lk tx n of
        (n1, Inr frames) \<Rightarrow> net_send_frames lk frames (px_port tx) n1
      | (n1, Inl e) \<Rightarrow> if err_code e = SessionExists then queue_transport_tx tx n1 else (n1, Inl e))"

definition net_send ::
  "'ep link \<Rightarrow> pgn \<Rightarrow> bytes \<Rightarrow> nat \<Rightarrow> address \<Rightarrow> priority \<Rightarrow> 'ep iso_net
    \<Rightarrow> ('ep iso_net \<times> unit net_result) option" where
  "net_send lk p data src dst prio n =
     (if \<not> pgn_is_valid p then Some (n, Inl (error_invalid_pgn p))
      else if length (n_internal_cfs n) \<le> src then Some (n, Inl error_not_connected)
      else
        let icf = n_internal_cfs n ! src
        in if icf_claim_state icf \<noteq> Claimed \<or> \<not> icf_is_online icf
           then Some (n, Inl (error_invalid_state ''control function has not claimed an address''))
           else if \<not> cfn_address_valid (icf_cf icf) then Some (n, Inl error_not_connected)
           else
             let src_addr = icf_address icf; port = icf_port icf; len = of_nat (length data) :: u32;
                 tx = (\<lambda>kind. \<lparr>px_kind = kind, px_pgn = p, px_data = data, px_source = src_addr,
                         px_destination = dst, px_port = port, px_priority = prio\<rparr>)
             in if len \<le> CAN_DATA_LENGTH then Some (send_single_frame lk p data src_addr dst prio port n)
                else if is_fast_packet_pgn n p \<and> len \<le> FAST_PACKET_MAX_DATA
                then do {
                  (e, r) \<leftarrow> fp_send_to (n_fast_packet n) p data src_addr dst prio;
                  let n1 = n\<lparr>n_fast_packet := e\<rparr>;
                  case r of
                    Inl err \<Rightarrow> Some (n1, Inl err)
                  | Inr frames \<Rightarrow> Some (net_send_frames lk frames port n1)
                }
                else if len \<le> TP_MAX_DATA_LENGTH then Some (send_or_queue lk (tx PendingTp) n)
                else if dst = BROADCAST_ADDRESS
                then Some (n, Inl (error_invalid_state ''ETP does not support broadcast''))
                else Some (send_or_queue lk (tx PendingEtp) n))"

section \<open>Queued transfers\<close>

definition try_start_pending_transport_tx ::
  "'ep link \<Rightarrow> pending_transport_tx \<Rightarrow> 'ep iso_net \<Rightarrow> 'ep iso_net \<times> unit net_result" where
  "try_start_pending_transport_tx lk tx n =
     (case net_send_transport lk tx n of
        (n1, Inl e) \<Rightarrow> (n1, Inl e)
      | (n1, Inr frames) \<Rightarrow> net_send_frames lk frames (px_port tx) n1)"

primrec start_pending_loop :: "'ep link \<Rightarrow> nat \<Rightarrow> 'ep iso_net \<Rightarrow> 'ep iso_net" where
  "start_pending_loop lk 0 n = n"
| "start_pending_loop lk (Suc attempts) n =
     (case n_pending_transport_tx n of
        [] \<Rightarrow> n
      | tx # rest \<Rightarrow>
          start_pending_loop lk attempts
            (case try_start_pending_transport_tx lk tx (n\<lparr>n_pending_transport_tx := rest\<rparr>) of
               (n1, Inr _) \<Rightarrow> n1
             | (n1, Inl e) \<Rightarrow>
                 if err_code e = SessionExists \<or> err_code e = NoResources
                 then n1\<lparr>n_pending_transport_tx := n_pending_transport_tx n1 @ [tx]\<rparr> else n1))"

definition start_ready_pending_transport :: "'ep link \<Rightarrow> 'ep iso_net \<Rightarrow> 'ep iso_net" where
  "start_ready_pending_transport lk n = start_pending_loop lk (length (n_pending_transport_tx n)) n"

end
