(* ===== verification/Net_Routing.thy ===== *)
theory Net_Routing
  imports Net_Manager
begin

text \<open>
  The second half of the network manager (src/src/net/network_manager/iso_network_manager.rs): address
  claiming, the routing of received frames, address violations, commanded addresses, and the poll loop.
  Receiving from an endpoint until it is empty is a partial function: it has no value if the endpoint
  never runs dry.
\<close>

section \<open>Dispatch\<close>

definition dispatch_message :: "message \<Rightarrow> 'ep iso_net \<Rightarrow> 'ep iso_net" where
  "dispatch_message m n =
     n\<lparr>n_captured_messages := (if n_capture_messages n then n_captured_messages n @ [m] else n_captured_messages n),
       n_on_message := event_emit (n_on_message n) m,
       n_callback_log := n_callback_log n @ map (\<lambda>cb. (cb, m)) (n_pgn_callbacks n (msg_pgn m))\<rparr>"

primrec port_of_address :: "internal_cf list \<Rightarrow> address \<Rightarrow> u8" where
  "port_of_address [] a = 0"
| "port_of_address (icf # cfs) a = (if icf_address icf = a then icf_port icf else port_of_address cfs a)"

definition port_for_address :: "'ep iso_net \<Rightarrow> address \<Rightarrow> u8" where
  "port_for_address n a = port_of_address (n_internal_cfs n) a"

definition is_addressed_to_us :: "'ep iso_net \<Rightarrow> frame \<Rightarrow> u8 \<Rightarrow> bool" where
  "is_addressed_to_us n f port =
     (frame_destination f = BROADCAST_ADDRESS
      \<or> list_ex (\<lambda>icf. icf_port icf = port \<and> icf_claim_state icf = Claimed
                   \<and> icf_address icf = frame_destination f) (n_internal_cfs n))"

section \<open>Loops over the control functions\<close>

text \<open>
  The loops that zip the control functions with their claimers.  The body returns the two, changed, and
  what it collects.
\<close>

primrec over_cfs ::
  "(internal_cf \<Rightarrow> claimer \<Rightarrow> internal_cf \<times> claimer \<times> 'r) \<Rightarrow> internal_cf list \<Rightarrow> claimer list
    \<Rightarrow> internal_cf list \<times> claimer list \<times> 'r list" where
  "over_cfs g [] cs = ([], cs, [])"
| "over_cfs g (icf # cfs) cs =
     (case cs of
        [] \<Rightarrow> (icf # cfs, [], [])
      | c # cs' \<Rightarrow>
          let (icf', c', r) = g icf c; (cfs', cs'', rs) = over_cfs g cfs cs'
          in (icf' # cfs', c' # cs'', r # rs))"

definition net_over_cfs ::
  "(internal_cf \<Rightarrow> claimer \<Rightarrow> internal_cf \<times> claimer \<times> 'r) \<Rightarrow> 'ep iso_net \<Rightarrow> 'ep iso_net \<times> 'r list" where
  "net_over_cfs g n =
     (let (cfs, cs, rs) = over_cfs g (n_internal_cfs n) (n_claimers n)
      in (n\<lparr>n_internal_cfs := cfs, n_claimers := cs\<rparr>, rs))"

section \<open>Address claiming\<close>

definition start_cf :: "internal_cf \<Rightarrow> claimer \<Rightarrow> internal_cf \<times> claimer \<times> (u8 \<times> frame) list" where
  "start_cf icf c =
     (let (c', icf', fs) = claimer_start c icf in (icf', c', map (Pair (icf_port icf)) fs))"

definition net_start_address_claiming :: "'ep link \<Rightarrow> 'ep iso_net \<Rightarrow> 'ep iso_net \<times> unit net_result" where
  "net_start_address_claiming lk n =
     (if n_claimers n = [] then (n, Inl (error_invalid_state ''no control functions registered''))
      else let (n1, emitted) = net_over_cfs start_cf n in (send_each lk (concat emitted) n1, Inr ()))"

definition respond_cf :: "internal_cf \<Rightarrow> claimer \<Rightarrow> internal_cf \<times> claimer \<times> (u8 \<times> frame) list" where
  "respond_cf icf c =
     (let (c', icf', fs) = handle_request_for_claim c icf in (icf', c', map (Pair (icf_port icf)) fs))"

definition net_send_address_claim_responses :: "'ep link \<Rightarrow> 'ep iso_net \<Rightarrow> 'ep iso_net \<times> unit net_result" where
  "net_send_address_claim_responses lk n =
     (if n_claimers n = [] then (n, Inl (error_invalid_state ''no control functions registered''))
      else let (n1, emitted) = net_over_cfs respond_cf n in (send_each lk (concat emitted) n1, Inr ()))"

section \<open>Giving up an address\<close>

definition discontinue_address :: "u8 \<Rightarrow> address \<Rightarrow> 'ep iso_net \<Rightarrow> 'ep iso_net \<times> frame list" where
  "discontinue_address port a n =
     (if a = NULL_ADDRESS \<or> a = BROADCAST_ADDRESS then (n, [])
      else
        let (tp, frames) = tp_abort_sessions_for_address (n_tp n) port a;
            n1 = net_set_tp tp n;
            (etp, more) = etp_abort_sessions_for_address (n_etp n1) port a;
            n2 = net_set_etp etp n1
        in (n2\<lparr>n_pending_transport_tx := filter (\<lambda>tx. px_port tx \<noteq> port \<or> px_source tx \<noteq> a)
                 (n_pending_transport_tx n2)\<rparr>, frames @ more))"

primrec discontinue_all :: "u8 \<Rightarrow> address list \<Rightarrow> 'ep iso_net \<Rightarrow> 'ep iso_net \<times> frame list" where
  "discontinue_all port [] n = (n, [])"
| "discontinue_all port (a # as) n =
     (let (n1, fs) = discontinue_address port a n; (n2, more) = discontinue_all port as n1 in (n2, fs @ more))"

section \<open>Received address claims\<close>

definition duplicate_cf ::
  "device_name \<Rightarrow> address \<Rightarrow> u8 \<Rightarrow> internal_cf \<Rightarrow> claimer
    \<Rightarrow> internal_cf \<times> claimer \<times> (frame list \<times> address list \<times> bool)" where
  "duplicate_cf nm a port icf c =
     (if icf_port icf \<noteq> port \<or> icf_name icf \<noteq> nm \<or> \<not> ac_attempted_claim c \<or> icf_claim_state icf = Failed
         \<or> icf_address icf = a
      then (icf, c, ([], [], False))
      else
        let held = icf_address icf; (c', icf', fs) = handle_duplicate_name c icf
        in (icf', c', (fs, if icf_address icf' \<noteq> held \<or> \<not> icf_is_online icf' then [held] else [], True)))"

definition handle_duplicate_internal_name ::
  "'ep link \<Rightarrow> device_name \<Rightarrow> address \<Rightarrow> u8 \<Rightarrow> 'ep iso_net \<Rightarrow> 'ep iso_net \<times> address list" where
  "handle_duplicate_internal_name lk nm a port n =
     (if a = NULL_ADDRESS \<or> a = BROADCAST_ADDRESS then (n, [])
      else
        let (n1, rs) = net_over_cfs (duplicate_cf nm a port) n;
            n2 = n1\<lparr>n_on_duplicate_name := n_on_duplicate_name n1
                      @ replicate (length (filter (snd \<circ> snd) rs)) (nm, a)\<rparr>
        in (send_frames_best_effort lk (concat (map fst rs)) port n2, concat (map (fst \<circ> snd) rs)))"

definition notify_cf ::
  "device_name \<Rightarrow> address \<Rightarrow> u8 \<Rightarrow> internal_cf \<Rightarrow> claimer \<Rightarrow> internal_cf \<times> claimer \<times> (frame list \<times> address list)" where
  "notify_cf nm a port icf c =
     (if icf_port icf \<noteq> port then (icf, c, ([], []))
      else
        let held = icf_address icf; (c', icf', fs) = handle_claim c icf a nm
        in (icf', c', (fs, if icf_address icf' \<noteq> held \<or> \<not> icf_is_online icf' then [held] else [])))"

definition notify_partner :: "device_name \<Rightarrow> address \<Rightarrow> u8 \<Rightarrow> partner_cf \<Rightarrow> partner_cf" where
  "notify_partner nm a port p =
     (if pcf_port p = port \<and> pcf_matches_name p nm
      then if a = NULL_ADDRESS then note_cannot_claim_seen nm p else note_address_claim_seen nm a p
      else p)"

definition net_handle_address_claim :: "'ep link \<Rightarrow> frame \<Rightarrow> u8 \<Rightarrow> 'ep iso_net \<Rightarrow> 'ep iso_net" where
  "net_handle_address_claim lk f port n =
     (case name_from_bytes (frame_payload f) of
        None \<Rightarrow> n
      | Some nm \<Rightarrow>
          let a = frame_source f
          in if a = BROADCAST_ADDRESS then n
             else
               let n' = (if a \<le> MAX_ADDRESS
                     then
                       let (n1, vacated) = handle_duplicate_internal_name lk nm a port n;
                           (n2, rs) = net_over_cfs (notify_cf nm a port) n1;
                           (n3, aborts) = discontinue_all port (vacated @ concat (map snd rs)) n2
                       in send_frames_best_effort lk (concat (map fst rs) @ aborts) port n3
                     else n)
               in n'\<lparr>n_partner_cfs := map (notify_partner nm a port) (n_partner_cfs n')\<rparr>)"

section \<open>Requests, violations and commanded addresses\<close>

definition answer_request_cf ::
  "address \<Rightarrow> u8 \<Rightarrow> internal_cf \<Rightarrow> claimer \<Rightarrow> internal_cf \<times> claimer \<times> frame list" where
  "answer_request_cf dst port icf c =
     (if icf_port icf \<noteq> port \<or> dst \<noteq> BROADCAST_ADDRESS \<and> icf_address icf \<noteq> dst then (icf, c, [])
      else let (c', icf', fs) = handle_request_for_claim c icf in (icf', c', fs))"

definition validate_partner :: "address \<Rightarrow> u8 \<Rightarrow> partner_cf \<Rightarrow> partner_cf" where
  "validate_partner dst port p =
     (if pcf_port p \<noteq> port \<or> \<not> cfn_is_online (pcf_cf p) \<or> dst \<noteq> BROADCAST_ADDRESS \<and> pcf_address p \<noteq> dst
      then p else begin_claim_validation p)"

definition handle_request_for_address_claim ::
  "'ep link \<Rightarrow> frame \<Rightarrow> u8 \<Rightarrow> 'ep iso_net \<Rightarrow> 'ep iso_net \<times> bool" where
  "handle_request_for_address_claim lk f port n =
     (if decode_request (frame_payload f) \<noteq> Some PGN_ADDRESS_CLAIMED then (n, False)
      else
        let dst = frame_destination f;
            (n1, emitted) = net_over_cfs (answer_request_cf dst port) n;
            n2 = n1\<lparr>n_partner_cfs := map (validate_partner dst port) (n_partner_cfs n1)\<rparr>
        in (send_frames_best_effort lk (concat emitted) port n2, True))"

definition violation_cf ::
  "address \<Rightarrow> u8 \<Rightarrow> internal_cf \<Rightarrow> claimer \<Rightarrow> internal_cf \<times> claimer \<times> (frame list \<times> bool)" where
  "violation_cf src port icf c =
     (if icf_port icf = port \<and> icf_claim_state icf = Claimed \<and> icf_address icf = src
      then let (c', icf', fs) = handle_request_for_claim c icf in (icf', c', (fs, True))
      else (icf, c, ([], False)))"

definition check_address_violation :: "'ep link \<Rightarrow> frame \<Rightarrow> u8 \<Rightarrow> 'ep iso_net \<Rightarrow> 'ep iso_net" where
  "check_address_violation lk f port n =
     (let src = frame_source f
      in if src = NULL_ADDRESS \<or> src = BROADCAST_ADDRESS then n
         else if list_ex (\<lambda>(p, a, _). p = port \<and> a = src) (n_recent_violations n) then n
         else
           let (n1, rs) = net_over_cfs (violation_cf src port) n
           in if list_ex snd rs
              then send_frames_best_effort lk (concat (map fst rs)) port
                     (n1\<lparr>n_recent_violations := n_recent_violations n1 @ [(port, src, 0)],
                         n_on_address_violation := event_emit (n_on_address_violation n1) src\<rparr>)
              else n1)"

text \<open>One control function addressed by a commanded-address message: the frames it sends, the address
it leaves, and whether it was addressed.\<close>

definition command_cf ::
  "device_name \<Rightarrow> address \<Rightarrow> u8 \<Rightarrow> bool \<Rightarrow> internal_cf \<Rightarrow> internal_cf \<times> (frame list \<times> address list \<times> bool)" where
  "command_cf nm a port occupied icf =
     (let cannot_claim = (icf_claim_state icf = Failed)
      in if icf_port icf \<noteq> port \<or> icf_name icf \<noteq> nm then (icf, ([], [], False))
         else if \<not> cannot_claim \<and> (icf_claim_state icf \<noteq> Claimed \<or> \<not> icf_is_online icf) then (icf, ([], [], False))
         else if occupied \<and> cannot_claim then (icf, ([], [], True))
         else if occupied then (icf, ([make_claim_frame nm (icf_address icf)], [], True))
         else
           (icf_emit_claimed a (icf_reset_claim_timer (icf_transition Claimed
              (icf_set_state Online (icf_set_address a icf)))),
            ([make_claim_frame nm a], if icf_address icf \<noteq> a then [icf_address icf] else [], True)))"

definition occupied_by_other :: "device_name \<Rightarrow> address \<Rightarrow> u8 \<Rightarrow> 'ep iso_net \<Rightarrow> bool" where
  "occupied_by_other nm a port n =
     (list_ex (\<lambda>icf. icf_port icf = port \<and> icf_address icf = a \<and> icf_name icf \<noteq> nm
         \<and> icf_claim_state icf = Claimed) (n_internal_cfs n)
      \<or> list_ex (\<lambda>p. pcf_port p = port \<and> pcf_address p = a \<and> pcf_name p \<noteq> nm \<and> cfn_is_online (pcf_cf p))
         (n_partner_cfs n))"

definition handle_commanded_address_message ::
  "'ep link \<Rightarrow> message \<Rightarrow> u8 \<Rightarrow> 'ep iso_net \<Rightarrow> 'ep iso_net \<times> bool" where
  "handle_commanded_address_message lk m port n =
     (if msg_pgn m \<noteq> PGN_COMMANDED_ADDRESS \<or> length (msg_data m) \<noteq> 9 then (n, False)
      else case name_from_bytes (take 8 (msg_data m)) of
        None \<Rightarrow> (n, False)
      | Some nm \<Rightarrow>
          let a = msg_data m ! 8
          in if MAX_ADDRESS < a then (n, False)
             else
               let rs = map (command_cf nm a port (occupied_by_other nm a port n)) (n_internal_cfs n);
                   n1 = n\<lparr>n_internal_cfs := map fst rs\<rparr>;
                   (n2, aborts) = discontinue_all port (concat (map (fst \<circ> snd \<circ> snd) rs)) n1
               in (send_frames_best_effort lk (concat (map (fst \<circ> snd) rs) @ aborts) port n2,
                   list_ex (snd \<circ> snd \<circ> snd) rs))"

section \<open>Completed transfers\<close>

definition completed_message :: "transport_session \<Rightarrow> message" where
  "completed_message s = \<lparr>msg_pgn = ts_pgn s, msg_data = ts_data s, msg_source = ts_source s,
     msg_destination = ts_destination s, msg_priority = ts_priority s, msg_timestamp_us = 0\<rparr>"

primrec dispatch_completions :: "'ep link \<Rightarrow> transport_session list \<Rightarrow> 'ep iso_net \<Rightarrow> 'ep iso_net" where
  "dispatch_completions lk [] n = n"
| "dispatch_completions lk (s # ss) n =
     dispatch_completions lk ss
       (if ts_direction s \<noteq> Receive then n
        else dispatch_message (completed_message s)
               (fst (handle_commanded_address_message lk (completed_message s) (ts_can_port s) n)))"

definition drain_transport_completions :: "'ep link \<Rightarrow> 'ep iso_net \<Rightarrow> 'ep iso_net" where
  "drain_transport_completions lk n =
     dispatch_completions lk (n_tp_completions n @ n_etp_completions n)
       (n\<lparr>n_tp_completions := [], n_etp_completions := []\<rparr>)"

section \<open>Frame routing\<close>

definition frame_message :: "frame \<Rightarrow> message" where
  "frame_message f = \<lparr>msg_pgn = frame_pgn f, msg_data = frame_payload f, msg_source = frame_source f,
     msg_destination = frame_destination f, msg_priority = frame_priority f, msg_timestamp_us = fr_timestamp_us f\<rparr>"

definition is_transport_pgn :: "pgn \<Rightarrow> bool" where
  "is_transport_pgn p = (p = PGN_TP_CM \<or> p = PGN_TP_DT \<or> p = PGN_ETP_CM \<or> p = PGN_ETP_DT)"

text \<open>The transport, fast-packet and single-frame arms, after the address checks.\<close>

definition route_frame :: "'ep link \<Rightarrow> frame \<Rightarrow> u8 \<Rightarrow> 'ep iso_net \<Rightarrow> 'ep iso_net option" where
  "route_frame lk f port n =
     (let p = frame_pgn f
      in if is_transport_pgn p \<and> \<not> is_addressed_to_us n f port then Some n
         else if p = PGN_TP_CM \<or> p = PGN_TP_DT
         then do {
           (e, responses) \<leftarrow> tp_process_frame (n_tp n) f port;
           Some (drain_transport_completions lk (send_frames_best_effort lk responses port (net_set_tp e n)))
         }
         else if p = PGN_ETP_CM \<or> p = PGN_ETP_DT
         then do {
           (e, responses) \<leftarrow> etp_process_frame (n_etp n) f port;
           Some (drain_transport_completions lk (send_frames_best_effort lk responses port (net_set_etp e n)))
         }
         else if is_fast_packet_pgn n p
         then do {
           (e, r) \<leftarrow> fp_process_frame (n_fast_packet n) f;
           let n1 = n\<lparr>n_fast_packet := e\<rparr>;
           Some (case r of None \<Rightarrow> n1 | Some m \<Rightarrow> dispatch_message m n1)
         }
         else Some (dispatch_message (frame_message f) n))"

definition net_process_frame :: "'ep link \<Rightarrow> frame \<Rightarrow> u8 \<Rightarrow> 'ep iso_net \<Rightarrow> 'ep iso_net option" where
  "net_process_frame lk f port n0 =
     (let n = n0\<lparr>n_frames_received := n_frames_received n0 + 1\<rparr>;
          p = frame_pgn f
      in if p = PGN_ADDRESS_CLAIMED
         then Some (dispatch_message (message_with_addressing p (frame_payload f) (frame_source f)
                 (frame_destination f) (frame_priority f)) (net_handle_address_claim lk f port n))
         else
           let (n1, answered) =
                 (if p = PGN_REQUEST then handle_request_for_address_claim lk f port n else (n, False))
           in if answered then Some n1
              else route_frame lk f port (check_address_violation lk f port n1))"

definition net_feed :: "'ep link \<Rightarrow> frame \<Rightarrow> u8 \<Rightarrow> 'ep iso_net \<Rightarrow> 'ep iso_net option" where
  "net_feed lk f port n = net_process_frame lk f port (count_bus_load port (fr_length f) n)"

section \<open>The poll loop\<close>

partial_function (option) recv_loop :: "'ep link \<Rightarrow> 'ep \<Rightarrow> ('ep \<times> frame list) option" where
  "recv_loop lk ep =
     (case snd (lk_recv lk ep) of
        None \<Rightarrow> Some (fst (lk_recv lk ep), [])
      | Some cf \<Rightarrow> do {
          (ep', fs) \<leftarrow> recv_loop lk (fst (lk_recv lk ep));
          Some (ep', (case frame_from_can_frame cf of None \<Rightarrow> fs | Some f \<Rightarrow> f # fs))
        })"

primrec drain_ports :: "'ep link \<Rightarrow> u8 list \<Rightarrow> 'ep iso_net \<Rightarrow> ('ep iso_net \<times> (u8 \<times> frame) list) option" where
  "drain_ports lk [] n = Some (n, [])"
| "drain_ports lk (port # ports) n =
     (case n_endpoints n port of
        None \<Rightarrow> drain_ports lk ports n
      | Some ep \<Rightarrow> do {
          (ep', fs) \<leftarrow> recv_loop lk ep;
          (n2, more) \<leftarrow> drain_ports lk ports (n\<lparr>n_endpoints := (n_endpoints n)(port \<mapsto> ep')\<rparr>);
          Some (n2, map (Pair port) fs @ more)
        })"

primrec process_received :: "'ep link \<Rightarrow> (u8 \<times> frame) list \<Rightarrow> 'ep iso_net \<Rightarrow> 'ep iso_net option" where
  "process_received lk [] n = Some n"
| "process_received lk (pf # pfs) n = do {
     n1 \<leftarrow> net_feed lk (snd pf) (fst pf) n;
     process_received lk pfs n1
   }"

definition send_by_source :: "'ep link \<Rightarrow> frame list \<Rightarrow> 'ep iso_net \<Rightarrow> 'ep iso_net" where
  "send_by_source lk fs n = send_each lk (map (\<lambda>f. (port_for_address n (frame_source f), f)) fs) n"

definition drive_transports :: "'ep link \<Rightarrow> u32 \<Rightarrow> 'ep iso_net \<Rightarrow> 'ep iso_net option" where
  "drive_transports lk ms n = do {
     (tp1, fs1) \<leftarrow> tp_update (n_tp n) ms;
     let n1 = send_by_source lk fs1 (net_set_tp tp1 n);
     (tp2, fs2) \<leftarrow> tp_get_pending_data_frames (n_tp n1);
     let n2 = send_by_source lk fs2 (net_set_tp tp2 n1);
     (etp1, fs3) \<leftarrow> etp_update (n_etp n2) ms;
     let n3 = send_by_source lk fs3 (net_set_etp etp1 n2);
     (etp2, fs4) \<leftarrow> etp_get_pending_data_frames (n_etp n3);
     let n4 = send_by_source lk fs4 (net_set_etp etp2 n3);
     fp \<leftarrow> fp_update (n_fast_packet n4) ms;
     Some (start_ready_pending_transport lk (drain_transport_completions lk (n4\<lparr>n_fast_packet := fp\<rparr>)))
   }"

definition update_cf ::
  "u32 \<Rightarrow> internal_cf \<Rightarrow> claimer \<Rightarrow> internal_cf \<times> claimer \<times> ((u8 \<times> frame) list \<times> (u8 \<times> address) list)" where
  "update_cf ms icf c =
     (let port = icf_port icf; held = icf_address icf; (c', icf', fs) = claimer_update c icf ms
      in (icf', c', (map (Pair port) fs,
            if held \<noteq> NULL_ADDRESS \<and> (icf_address icf' \<noteq> held \<or> icf_is_online icf \<and> \<not> icf_is_online icf')
            then [(port, held)] else [])))"

primrec discontinue_each :: "'ep link \<Rightarrow> (u8 \<times> address) list \<Rightarrow> 'ep iso_net \<Rightarrow> 'ep iso_net" where
  "discontinue_each lk [] n = n"
| "discontinue_each lk (pa # pas) n =
     (let (n1, aborts) = discontinue_address (fst pa) (snd pa) n
      in discontinue_each lk pas (send_frames_best_effort lk aborts (fst pa) n1))"

definition drive_claimers :: "'ep link \<Rightarrow> u32 \<Rightarrow> 'ep iso_net \<Rightarrow> 'ep iso_net" where
  "drive_claimers lk ms n =
     (let (n1, rs) = net_over_cfs (update_cf ms) n
      in send_each lk (concat (map fst rs)) (discontinue_each lk (concat (map snd rs)) n1))"

text \<open>The loads of the ports, each binned for itself; the map is finite, so it is walked port by port.\<close>

primrec bin_loads :: "u32 \<Rightarrow> u8 list \<Rightarrow> (u8 \<Rightarrow> bus_load option) \<Rightarrow> (u8 \<Rightarrow> bus_load option) option" where
  "bin_loads ms [] loads = Some loads"
| "bin_loads ms (port # ports) loads =
     (case loads port of
        None \<Rightarrow> bin_loads ms ports loads
      | Some b \<Rightarrow> do { b' \<leftarrow> bl_update ms b; bin_loads ms ports (loads(port \<mapsto> b')) })"

definition age_violations :: "u32 \<Rightarrow> (u8 \<times> address \<times> u32) list \<Rightarrow> (u8 \<times> address \<times> u32) list" where
  "age_violations ms vs =
     filter (\<lambda>(_, _, age). age < ADDRESS_VIOLATION_RESPONSE_INTERVAL_MS)
       (map (\<lambda>(p, a, age). (p, a, saturating_add age ms)) vs)"

definition net_update :: "'ep link \<Rightarrow> u32 \<Rightarrow> 'ep iso_net \<Rightarrow> 'ep iso_net option" where
  "net_update lk ms n = do {
     let n1 = n\<lparr>n_partner_cfs := map (update_claim_validation ms) (n_partner_cfs n),
                n_recent_violations := age_violations ms (n_recent_violations n)\<rparr>;
     (n2, rx) \<leftarrow> drain_ports lk (net_ports n1) n1;
     n3 \<leftarrow> process_received lk rx n2;
     n4 \<leftarrow> drive_transports lk ms n3;
     let n5 = drive_claimers lk ms n4;
     if nc_enable_bus_load (n_config n5)
     then do {
       loads \<leftarrow> bin_loads ms all_ports (n_bus_loads n5);
       Some (n5\<lparr>n_bus_loads := loads\<rparr>)
     }
     else Some n5
   }"

section \<open>The seam without endpoints\<close>

definition net_set_capture_outbound :: "bool \<Rightarrow> 'ep iso_net \<Rightarrow> 'ep iso_net" where
  "net_set_capture_outbound enabled n = n\<lparr>n_capture_outbound := enabled\<rparr>"

definition net_take_outbound :: "'ep iso_net \<Rightarrow> 'ep iso_net \<times> (u8 \<times> frame) option" where
  "net_take_outbound n =
     (case n_outbound n of [] \<Rightarrow> (n, None) | pf # pfs \<Rightarrow> (n\<lparr>n_outbound := pfs\<rparr>, Some pf))"

definition net_set_capture_messages :: "bool \<Rightarrow> 'ep iso_net \<Rightarrow> 'ep iso_net" where
  "net_set_capture_messages enabled n =
     n\<lparr>n_capture_messages := enabled, n_captured_messages := (if enabled then n_captured_messages n else [])\<rparr>"

definition net_take_message :: "'ep iso_net \<Rightarrow> 'ep iso_net \<times> message option" where
  "net_take_message n =
     (case n_captured_messages n of [] \<Rightarrow> (n, None) | m # ms \<Rightarrow> (n\<lparr>n_captured_messages := ms\<rparr>, Some m))"

definition net_inject_message :: "message \<Rightarrow> 'ep iso_net \<Rightarrow> 'ep iso_net" where
  "net_inject_message m n = dispatch_message m n"

end
