(* ===== verification/Net_Safety.thy ===== *)
theory Net_Safety
  imports Net_Routing Claim_Protocol TP_Safety ETP_Runs Fast_Packet_Transfer
begin

text \<open>
  The network manager keeps its parts well formed: over every sequence of calls and received frames no
  operation panics, the three engines, the control functions with their claimers and the partners stay
  consistent, and every frame put out is well formed.  The contracts of the engines enter as the
  interpretations of \<open>safe_system\<close> in their own theories.
\<close>

section \<open>Control functions\<close>

text \<open>What holds of a control function under every operation of the manager, commanded addresses and
restarts of the claim included.\<close>

definition cf_ok :: "internal_cf \<Rightarrow> bool" where
  "cf_ok icf \<longleftrightarrow> (icf_claim_state icf = Claimed \<longrightarrow> icf_is_online icf \<and> icf_address icf \<le> MAX_ADDRESS)
     \<and> (icf_claim_state icf = WaitForContest \<longrightarrow> icf_address icf \<le> MAX_ADDRESS)"

definition frame_ok :: "frame \<Rightarrow> bool" where
  "frame_ok f \<longleftrightarrow> wf_frame f \<and> fr_length f = 8"

lemma frame_ok_simps [simp]:
  "frame_ok (make_claim_frame nm a)" "frame_ok make_request_frame" "tp_frame_ok f \<Longrightarrow> frame_ok f"
  "etp_frame_ok f \<Longrightarrow> frame_ok f"
  by (simp_all add: frame_ok_def make_request_frame_def wf_frame_def tp_frame_ok_def etp_frame_ok_def
      make_claim_frame_def frame8_def name_to_bytes_def)

lemma icf_port_simps [simp]:
  "icf_port (icf_set_address a cf) = icf_port cf"
  "icf_port (icf_set_state st cf) = icf_port cf"
  "icf_port (icf_transition cs cf) = icf_port cf"
  "icf_port (icf_add_claim_time ms cf) = icf_port cf"
  "icf_port (icf_reset_claim_timer cf) = icf_port cf"
  "icf_port (icf_emit_claimed a cf) = icf_port cf"
  "icf_port (icf_emit_lost cf) = icf_port cf"
  by (simp_all add: icf_access_defs icf_mutator_defs)

text \<open>The contract between the manager and the claimer: the pair stays consistent, the control function
keeps its NAME and port, and the frames are well formed.\<close>

definition claimed_ok :: "internal_cf \<Rightarrow> claim_result \<Rightarrow> bool" where
  "claimed_ok icf r \<longleftrightarrow> (case r of (c', icf', fs) \<Rightarrow> wf_claimer c' \<and> cf_ok icf' \<and> icf_name icf' = icf_name icf
     \<and> icf_port icf' = icf_port icf \<and> (\<forall>f \<in> set fs. frame_ok f))"

lemmas claimed_ok_defs = claimed_ok_def cf_ok_def wf_claimer_def Let_def

lemma claimer_start_ok: "wf_claimer c \<Longrightarrow> cf_ok icf \<Longrightarrow> claimed_ok icf (claimer_start c icf)"
  by (simp add: claimer_start_def claimed_ok_defs)

lemma finish_listen_ok: "wf_claimer c \<Longrightarrow> cf_ok icf \<Longrightarrow> claimed_ok icf (finish_listen c icf)"
  by (auto simp: finish_listen_def claimed_ok_defs not_less)

lemma update_reclaim_ok: "wf_claimer c \<Longrightarrow> cf_ok icf \<Longrightarrow> claimed_ok icf (update_reclaim c icf ms)"
  by (auto simp: update_reclaim_def claimed_ok_defs not_less)

lemma update_contest_ok:
  "wf_claimer c \<Longrightarrow> cf_ok icf \<Longrightarrow> claimed_ok icf (case update_contest c icf ms of (c', icf') \<Rightarrow> (c', icf', []))"
  by (auto simp: update_contest_def claimed_ok_defs address_consts)

lemma update_cannot_claim_ok:
  "wf_claimer c \<Longrightarrow> update_cannot_claim c icf ms = (c', fs) \<Longrightarrow> wf_claimer c' \<and> (\<forall>f \<in> set fs. frame_ok f)"
  by (auto simp: update_cannot_claim_def wf_claimer_def Let_def split: if_splits)

lemma claimer_update_ok:
  assumes "wf_claimer c" and "cf_ok icf"
  shows "claimed_ok icf (claimer_update c icf ms)"
proof (cases "ac_listen_pending c")
  case True
  have "wf_claimer (c\<lparr>ac_listen_timer_ms := t\<rparr>)" for t using assms(1) by (simp add: wf_claimer_def)
  then show ?thesis
    using True finish_listen_ok [OF _ assms(2)] assms(2) by (simp add: claimer_update_def claimed_ok_def Let_def)
next
  case False
  obtain c1 fs where c1: "update_cannot_claim c icf ms = (c1, fs)" by fastforce
  then have ok: "wf_claimer c1" "\<forall>f \<in> set fs. frame_ok f" using update_cannot_claim_ok [OF assms(1)] by blast+
  show ?thesis
    using False c1 ok(2) update_reclaim_ok [OF ok(1) assms(2), of ms] update_contest_ok [OF ok(1) assms(2), of ms]
    by (auto simp: claimer_update_def claimed_ok_def split: prod.splits)
qed

lemma yield_address_ok: "wf_claimer c \<Longrightarrow> cf_ok icf \<Longrightarrow> claimed_ok icf (yield_address c icf a)"
  by (auto simp: yield_address_def claimed_ok_defs not_less)

lemma handle_claim_ok:
  assumes "wf_claimer c" and "cf_ok icf"
  shows "claimed_ok icf (handle_claim c icf a nm)"
  using assms yield_address_ok [OF wf_claimer_mark [OF assms(1)] assms(2)]
  by (auto simp: handle_claim_def claimed_ok_def Let_def)

lemma handle_duplicate_name_ok: "wf_claimer c \<Longrightarrow> cf_ok icf \<Longrightarrow> claimed_ok icf (handle_duplicate_name c icf)"
  by (auto simp: handle_duplicate_name_def claimed_ok_defs)

lemma handle_request_for_claim_ok:
  "wf_claimer c \<Longrightarrow> cf_ok icf \<Longrightarrow> claimed_ok icf (handle_request_for_claim c icf)"
  by (auto simp: handle_request_for_claim_def claimed_ok_defs split: claim_state.splits)

section \<open>The invariant\<close>

definition tx_fits :: "pending_transport_tx \<Rightarrow> bool" where
  "tx_fits tx \<longleftrightarrow> length (px_data tx) < 2 ^ 32"

definition net_inv :: "'ep iso_net \<Rightarrow> bool" where
  "net_inv n \<longleftrightarrow> tp_inv (n_tp n) \<and> etp_inv (n_etp n) \<and> fp_inv (n_fast_packet n)
     \<and> length (n_claimers n) = length (n_internal_cfs n)
     \<and> (\<forall>c \<in> set (n_claimers n). wf_claimer c) \<and> (\<forall>icf \<in> set (n_internal_cfs n). cf_ok icf)
     \<and> distinct (map icf_name (n_internal_cfs n))
     \<and> (\<forall>p \<in> set (n_partner_cfs n). partner_ok p)
     \<and> (\<forall>port b. n_bus_loads n port = Some b \<longrightarrow> wf_bus_load b)
     \<and> length (n_pending_transport_tx n) \<le> MAX_PENDING_TRANSPORT_TX
     \<and> (\<forall>tx \<in> set (n_pending_transport_tx n). tx_fits tx)
     \<and> distinct (map (\<lambda>(p, a, _). (p, a)) (n_recent_violations n))
     \<and> (\<forall>pf \<in> set (n_outbound n). frame_ok (snd pf))
     \<and> unat (nc_address_claim_timeout_ms (n_config n)) + 153 < 2 ^ 32"

text \<open>What sending frames leaves alone.\<close>

definition core :: "'ep iso_net \<Rightarrow> 'ep iso_net" where
  "core n = n\<lparr>n_frames_sent := 0, n_endpoints := (\<lambda>_. None), n_bus_loads := (\<lambda>_. None), n_outbound := []\<rparr>"

lemma core_count [simp]: "core (count_bus_load port len n) = core n"
  by (simp add: count_bus_load_def core_def)

lemma core_send_frame [simp]: "core (fst (net_send_frame lk f port n)) = core n"
  by (auto simp: net_send_frame_def core_def count_bus_load_def Let_def split: option.splits prod.splits sum.splits)

lemma core_send_frames [simp]: "core (fst (net_send_frames lk fs port n)) = core n"
proof (induction fs arbitrary: n)
  case (Cons f fs)
  obtain n1 r where r: "net_send_frame lk f port n = (n1, r)" by fastforce
  then have "core n1 = core n" by (metis core_send_frame fst_conv)
  then show ?case using r Cons by (cases r) simp_all
qed simp

lemma core_send_each [simp]: "core (send_each lk pfs n) = core n"
  by (induction pfs arbitrary: n) simp_all

lemma core_best_effort [simp]: "core (send_frames_best_effort lk fs port n) = core n"
  by (simp add: send_frames_best_effort_def)

lemma core_fields:
  assumes "core n' = core n"
  shows "n_config n' = n_config n" "n_frames_received n' = n_frames_received n"
    "n_internal_cfs n' = n_internal_cfs n" "n_recent_violations n' = n_recent_violations n"
    "n_partner_cfs n' = n_partner_cfs n" "n_claimers n' = n_claimers n" "n_tp n' = n_tp n" "n_etp n' = n_etp n"
    "n_fast_packet n' = n_fast_packet n" "n_pgn_callbacks n' = n_pgn_callbacks n"
    "n_fast_packet_pgns n' = n_fast_packet_pgns n" "n_pending_transport_tx n' = n_pending_transport_tx n"
    "n_tp_completions n' = n_tp_completions n" "n_etp_completions n' = n_etp_completions n"
    "n_capture_outbound n' = n_capture_outbound n" "n_on_message n' = n_on_message n"
  using assms by (cases n; cases n'; simp add: core_def)+

lemmas sent_fields [simp] = core_fields [OF core_send_each] core_fields [OF core_best_effort]

section \<open>Frames\<close>

lemma net_inv_count [simp]: "net_inv n \<Longrightarrow> net_inv (count_bus_load port len n)"
  by (auto simp: net_inv_def count_bus_load_def)

lemma net_inv_send_frame:
  assumes "net_inv n" and "frame_ok f"
  shows "net_inv (fst (net_send_frame lk f port n))"
proof -
  have "net_inv (n\<lparr>n_outbound := n_outbound n @ [(port, f)], n_frames_sent := k\<rparr>)"
    "net_inv (n\<lparr>n_endpoints := eps, n_frames_sent := k\<rparr>)" "net_inv (n\<lparr>n_endpoints := eps\<rparr>)" for k eps
    using assms by (auto simp: net_inv_def)
  then show ?thesis
    using assms(1) by (auto simp: net_send_frame_def Let_def split: option.splits prod.splits sum.splits)
qed

lemma net_inv_send_frames:
  "net_inv n \<Longrightarrow> \<forall>f \<in> set fs. frame_ok f \<Longrightarrow> net_inv (fst (net_send_frames lk fs port n))"
proof (induction fs arbitrary: n)
  case (Cons f fs)
  then show ?case using net_inv_send_frame [of n f lk port] by (auto split: prod.splits sum.splits)
qed simp

lemma net_inv_send_each:
  "net_inv n \<Longrightarrow> \<forall>pf \<in> set pfs. frame_ok (snd pf) \<Longrightarrow> net_inv (send_each lk pfs n)"
  by (induction pfs arbitrary: n) (simp_all add: net_inv_send_frame)

lemma net_inv_best_effort:
  "net_inv n \<Longrightarrow> \<forall>f \<in> set fs. frame_ok f \<Longrightarrow> net_inv (send_frames_best_effort lk fs port n)"
  by (simp add: send_frames_best_effort_def net_inv_send_each)

lemma net_inv_by_source:
  "net_inv n \<Longrightarrow> \<forall>f \<in> set fs. frame_ok f \<Longrightarrow> net_inv (send_by_source lk fs n)"
  by (simp add: send_by_source_def net_inv_send_each)

section \<open>Engines\<close>

lemma net_inv_set_tp [simp]: "net_inv n \<Longrightarrow> tp_inv e \<Longrightarrow> net_inv (net_set_tp e n)"
  by (simp add: net_inv_def net_set_tp_def)

lemma net_inv_set_etp [simp]: "net_inv n \<Longrightarrow> etp_inv e \<Longrightarrow> net_inv (net_set_etp e n)"
  by (simp add: net_inv_def net_set_etp_def)

lemma net_inv_parts:
  assumes "net_inv n"
  shows "tp_inv (n_tp n)" "etp_inv (n_etp n)" "fp_inv (n_fast_packet n)"
  using assms by (simp_all add: net_inv_def)

lemma net_send_transport_safe:
  assumes "net_inv n" and "tx_fits tx" and "net_send_transport lk tx n = (n1, r)"
  shows "net_inv n1" and "\<And>fs. r = Inr fs \<Longrightarrow> \<forall>f \<in> set fs. frame_ok f"
    and "n_pending_transport_tx n1 = n_pending_transport_tx n"
  using assms tp_send_inv [OF net_inv_parts(1) [OF assms(1)]] etp_send_inv [OF net_inv_parts(2) [OF assms(1)]]
  by (auto simp: net_send_transport_def tx_fits_def net_set_tp_def net_set_etp_def net_inv_def
      split: pending_transport_kind.splits prod.splits)

lemma net_inv_queue:
  "net_inv n \<Longrightarrow> tx_fits tx \<Longrightarrow> net_inv (fst (queue_transport_tx tx n))"
  by (auto simp: queue_transport_tx_def net_inv_def)

lemma net_inv_send_or_queue:
  assumes "net_inv n" and "tx_fits tx"
  shows "net_inv (fst (send_or_queue lk tx n))"
proof -
  obtain n1 r where r: "net_send_transport lk tx n = (n1, r)" by fastforce
  show ?thesis
    using net_send_transport_safe [OF assms r] r net_inv_queue [OF _ assms(2), of n1] net_inv_send_frames
    by (cases r) (auto simp: send_or_queue_def)
qed

lemma net_inv_try_start:
  assumes "net_inv n" and "tx_fits tx" and "try_start_pending_transport_tx lk tx n = (n1, r)"
  shows "net_inv n1" and "n_pending_transport_tx n1 = n_pending_transport_tx n"
proof -
  obtain n2 q where q: "net_send_transport lk tx n = (n2, q)" by fastforce
  note safe = net_send_transport_safe [OF assms(1,2) q]
  have n1: "n1 = (case q of Inl _ \<Rightarrow> n2 | Inr fs \<Rightarrow> fst (net_send_frames lk fs (px_port tx) n2))"
    using assms(3) q by (auto simp: try_start_pending_transport_tx_def split: sum.splits)
  show "net_inv n1" using n1 safe(1,2) by (auto simp: net_inv_send_frames split: sum.splits)
  show "n_pending_transport_tx n1 = n_pending_transport_tx n"
    using n1 safe(3) by (auto simp: core_fields(12) [OF core_send_frames] split: sum.splits)
qed

lemma net_inv_start_loop: "net_inv n \<Longrightarrow> net_inv (start_pending_loop lk k n)"
proof (induction k arbitrary: n)
  case (Suc k)
  show ?case
  proof (cases "n_pending_transport_tx n")
    case (Cons tx rest)
    obtain n1 r where r: "try_start_pending_transport_tx lk tx (n\<lparr>n_pending_transport_tx := rest\<rparr>) = (n1, r)"
      by fastforce
    have tx: "net_inv (n\<lparr>n_pending_transport_tx := rest\<rparr>)" "tx_fits tx" "length rest < MAX_PENDING_TRANSPORT_TX"
      using Suc.prems Cons by (auto simp: net_inv_def)
    note n1 = net_inv_try_start [OF tx(1,2) r]
    have "net_inv (n1\<lparr>n_pending_transport_tx := n_pending_transport_tx n1 @ [tx]\<rparr>)"
      using n1 tx(2,3) by (auto simp: net_inv_def)
    then show ?thesis using Cons r n1(1) Suc.IH by (auto split: sum.splits)
  qed (simp add: Suc.prems)
qed simp

lemma net_inv_start_ready: "net_inv n \<Longrightarrow> net_inv (start_ready_pending_transport lk n)"
  by (simp add: start_ready_pending_transport_def net_inv_start_loop)

section \<open>Loops over the control functions\<close>

definition good_body :: "(internal_cf \<Rightarrow> claimer \<Rightarrow> internal_cf \<times> claimer \<times> 'r) \<Rightarrow> ('r \<Rightarrow> bool) \<Rightarrow> bool" where
  "good_body g P \<longleftrightarrow> (\<forall>icf c. wf_claimer c \<longrightarrow> cf_ok icf \<longrightarrow> (case g icf c of (icf', c', r) \<Rightarrow>
     wf_claimer c' \<and> cf_ok icf' \<and> icf_name icf' = icf_name icf \<and> icf_port icf' = icf_port icf \<and> P r))"

lemma over_cfs_ok:
  assumes "good_body g P" and "length cs = length cfs" and "\<forall>c \<in> set cs. wf_claimer c" and "\<forall>icf \<in> set cfs. cf_ok icf"
    and "over_cfs g cfs cs = (cfs', cs', rs)"
  shows "length cs' = length cfs' \<and> (\<forall>c \<in> set cs'. wf_claimer c) \<and> (\<forall>icf \<in> set cfs'. cf_ok icf)
    \<and> map icf_name cfs' = map icf_name cfs \<and> (\<forall>r \<in> set rs. P r)"
  using assms(2-)
proof (induction cfs arbitrary: cs cfs' cs' rs)
  case (Cons icf cfs)
  obtain c cs0 where cs: "cs = c # cs0" using Cons.prems(1) by (cases cs) simp_all
  obtain icf1 c1 r where g: "g icf c = (icf1, c1, r)" by (rule prod_cases3)
  obtain cfs2 cs2 rs2 where rest: "over_cfs g cfs cs0 = (cfs2, cs2, rs2)" by (rule prod_cases3)
  have ok: "wf_claimer c" "cf_ok icf" using Cons.prems cs by simp_all
  have head: "wf_claimer c1 \<and> cf_ok icf1 \<and> icf_name icf1 = icf_name icf \<and> P r"
    using assms(1) [unfolded good_body_def, rule_format, OF ok] by (simp add: g)
  have tail: "length cs2 = length cfs2 \<and> (\<forall>c \<in> set cs2. wf_claimer c) \<and> (\<forall>icf \<in> set cfs2. cf_ok icf)
      \<and> map icf_name cfs2 = map icf_name cfs \<and> (\<forall>r \<in> set rs2. P r)"
    using Cons.prems cs by (intro Cons.IH [OF _ _ _ rest]) simp_all
  have "cfs' = icf1 # cfs2" "cs' = c1 # cs2" "rs = r # rs2" using Cons.prems(4) by (simp_all add: cs g rest)
  with head tail show ?case by simp
qed simp

lemma net_over_cfs_ok:
  assumes "good_body g P" and "net_inv n" and "net_over_cfs g n = (n1, rs)"
  shows "net_inv n1" and "\<forall>r \<in> set rs. P r"
proof -
  obtain cfs cs where o: "over_cfs g (n_internal_cfs n) (n_claimers n) = (cfs, cs, rs)"
    and n1: "n1 = n\<lparr>n_internal_cfs := cfs, n_claimers := cs\<rparr>"
    using assms(3) by (auto simp: net_over_cfs_def split: prod.splits)
  have "length cs = length cfs \<and> (\<forall>c \<in> set cs. wf_claimer c) \<and> (\<forall>icf \<in> set cfs. cf_ok icf)
      \<and> map icf_name cfs = map icf_name (n_internal_cfs n) \<and> (\<forall>r \<in> set rs. P r)"
    using assms(2) by (intro over_cfs_ok [OF assms(1) _ _ _ o]) (simp_all add: net_inv_def)
  then show "net_inv n1" "\<forall>r \<in> set rs. P r" using assms(2) by (simp_all add: n1 net_inv_def)
qed

text \<open>A body that runs one operation of the claimer, or leaves the pair alone.\<close>

lemma good_bodyI:
  assumes "\<And>icf c. wf_claimer c \<Longrightarrow> cf_ok icf \<Longrightarrow>
    (\<exists>r. g icf c = (icf, c, r) \<and> P r)
    \<or> (\<exists>op r. claimed_ok icf op \<and> g icf c = (fst (snd op), fst op, r) \<and> ((\<forall>f \<in> set (snd (snd op)). frame_ok f) \<longrightarrow> P r))"
  shows "good_body g P"
  unfolding good_body_def
proof (intro allI impI)
  fix icf c
  assume ok: "wf_claimer c" "cf_ok icf"
  from assms [OF ok] show "case g icf c of (icf', c', r) \<Rightarrow>
      wf_claimer c' \<and> cf_ok icf' \<and> icf_name icf' = icf_name icf \<and> icf_port icf' = icf_port icf \<and> P r"
    using ok by (auto simp: claimed_ok_def split: prod.splits)
qed

lemma start_cf_good: "good_body start_cf (\<lambda>r. \<forall>pf \<in> set r. frame_ok (snd pf))"
  using claimer_start_ok by (intro good_bodyI disjI2) (fastforce simp: start_cf_def split: prod.splits)

lemma respond_cf_good: "good_body respond_cf (\<lambda>r. \<forall>pf \<in> set r. frame_ok (snd pf))"
  using handle_request_for_claim_ok by (intro good_bodyI disjI2) (fastforce simp: respond_cf_def split: prod.splits)

lemma duplicate_cf_good: "good_body (duplicate_cf nm a port) (\<lambda>r. \<forall>f \<in> set (fst r). frame_ok f)"
proof (rule good_bodyI, goal_cases)
  case (1 icf c)
  then show ?case
    using handle_duplicate_name_ok [OF 1] by (cases "handle_duplicate_name c icf") (auto simp: duplicate_cf_def Let_def)
qed

lemma notify_cf_good: "good_body (notify_cf nm a port) (\<lambda>r. \<forall>f \<in> set (fst r). frame_ok f)"
proof (rule good_bodyI, goal_cases)
  case (1 icf c)
  then show ?case
    using handle_claim_ok [OF 1, of a nm] by (cases "handle_claim c icf a nm") (auto simp: notify_cf_def Let_def)
qed

lemma answer_request_cf_good: "good_body (answer_request_cf dst port) (\<lambda>r. \<forall>f \<in> set r. frame_ok f)"
proof (rule good_bodyI, goal_cases)
  case (1 icf c)
  then show ?case
    using handle_request_for_claim_ok [OF 1]
    by (cases "handle_request_for_claim c icf") (auto simp: answer_request_cf_def)
qed

lemma violation_cf_good: "good_body (violation_cf src port) (\<lambda>r. \<forall>f \<in> set (fst r). frame_ok f)"
proof (rule good_bodyI, goal_cases)
  case (1 icf c)
  then show ?case
    using handle_request_for_claim_ok [OF 1] by (cases "handle_request_for_claim c icf") (auto simp: violation_cf_def)
qed

lemma update_cf_good: "good_body (update_cf ms) (\<lambda>r. \<forall>pf \<in> set (fst r). frame_ok (snd pf))"
proof (rule good_bodyI, goal_cases)
  case (1 icf c)
  then show ?case
    using claimer_update_ok [OF 1, of ms] by (cases "claimer_update c icf ms") (auto simp: update_cf_def Let_def)
qed

section \<open>Addresses\<close>

lemma net_inv_dispatch [simp]: "net_inv n \<Longrightarrow> net_inv (dispatch_message m n)"
  by (simp add: dispatch_message_def net_inv_def)

lemma discontinue_address_safe:
  assumes "net_inv n" and "discontinue_address port a n = (n1, fs)"
  shows "net_inv n1 \<and> (\<forall>f \<in> set fs. frame_ok f)"
proof -
  have "tp_inv (fst (tp_abort_sessions_for_address (n_tp n) port a))"
    "etp_inv (fst (etp_abort_sessions_for_address (n_etp n) port a))"
    using assms(1) by (simp_all add: net_inv_def tp_inv_def tp_abort_sessions_for_address_def sessions_ok_filter
        etp_inv_def etp_abort_sessions_for_address_def keyed_ok_filter)
  then show ?thesis
    using assms le_trans [OF length_filter_le]
    by (auto simp: discontinue_address_def net_inv_def net_set_tp_def net_set_etp_def
        tp_abort_sessions_for_address_def etp_abort_sessions_for_address_def Let_def split: if_splits)
qed

lemma discontinue_all_safe:
  "net_inv n \<Longrightarrow> discontinue_all port as n = (n1, fs) \<Longrightarrow> net_inv n1 \<and> (\<forall>f \<in> set fs. frame_ok f)"
proof (induction "as" arbitrary: n n1 fs)
  case (Cons a "as")
  obtain n2 fs2 where "discontinue_address port a n = (n2, fs2)" by fastforce
  moreover obtain n3 fs3 where "discontinue_all port as n2 = (n3, fs3)" by fastforce
  ultimately show ?case using Cons discontinue_address_safe [of n port a n2 fs2] by fastforce
qed simp

lemma discontinue_each_safe: "net_inv n \<Longrightarrow> net_inv (discontinue_each lk pas n)"
proof (induction pas arbitrary: n)
  case (Cons pa pas)
  obtain n1 fs where "discontinue_address (fst pa) (snd pa) n = (n1, fs)" by fastforce
  then show ?case
    using Cons discontinue_address_safe [of n "fst pa" "snd pa" n1 fs] by (simp add: net_inv_best_effort)
qed simp

lemma handle_duplicate_internal_name_safe:
  assumes "net_inv n"
  shows "net_inv (fst (handle_duplicate_internal_name lk nm a port n))"
proof -
  obtain n1 rs where n1: "net_over_cfs (duplicate_cf nm a port) n = (n1, rs)" by fastforce
  note ok = net_over_cfs_ok [OF duplicate_cf_good assms n1]
  have "net_inv (n1\<lparr>n_on_duplicate_name := evs\<rparr>)" for evs using ok(1) by (simp add: net_inv_def)
  then show ?thesis
    using assms n1 ok(2) by (auto simp: handle_duplicate_internal_name_def intro!: net_inv_best_effort)
qed

lemma net_inv_partners:
  "net_inv n \<Longrightarrow> (\<And>p. partner_ok p \<Longrightarrow> partner_ok (g p)) \<Longrightarrow> ps = n_partner_cfs n \<Longrightarrow>
   net_inv (n\<lparr>n_partner_cfs := map g ps\<rparr>)"
  by (simp add: net_inv_def)

lemma partner_ok_notify: "a \<noteq> BROADCAST_ADDRESS \<Longrightarrow> partner_ok p \<Longrightarrow> partner_ok (notify_partner nm a port p)"
proof -
  assume "a \<noteq> BROADCAST_ADDRESS" "partner_ok p"
  moreover have "a \<le> MAX_ADDRESS" if "a \<noteq> NULL_ADDRESS"
  proof -
    have "unat a \<noteq> 254" "unat a \<noteq> 255" "unat a < 256"
      using that \<open>a \<noteq> BROADCAST_ADDRESS\<close> unat_u8_less [of a]
      by (auto simp: address_consts word_unat_eq_iff simp del: unat_u8_less)
    then have "unat a \<le> 253" by linarith
    then show ?thesis by (simp add: address_consts word_le_nat_alt)
  qed
  ultimately show ?thesis by (simp add: notify_partner_def partner_ok_cannot_claim partner_ok_claim_seen)
qed

lemma net_handle_address_claim_safe:
  assumes "net_inv n"
  shows "net_inv (net_handle_address_claim lk f port n)"
proof (cases "name_from_bytes (frame_payload f)")
  case None
  then show ?thesis using assms by (simp add: net_handle_address_claim_def)
next
  case (Some nm)
  let ?a = "frame_source f"
  obtain n1 vacated where n1: "handle_duplicate_internal_name lk nm ?a port n = (n1, vacated)" by fastforce
  obtain n2 rs where n2: "net_over_cfs (notify_cf nm ?a port) n1 = (n2, rs)" by fastforce
  obtain n3 aborts where n3: "discontinue_all port (vacated @ concat (map snd rs)) n2 = (n3, aborts)" by fastforce
  have "net_inv n1" using handle_duplicate_internal_name_safe [OF assms] n1 by (metis fst_conv)
  note ok = net_over_cfs_ok [OF notify_cf_good this n2]
  have "net_inv (send_frames_best_effort lk (concat (map fst rs) @ aborts) port n3)"
    using discontinue_all_safe [OF ok(1) n3] ok(2) by (intro net_inv_best_effort) auto
  then show ?thesis
    using Some n1 n2 n3 assms partner_ok_notify [of ?a]
    by (auto simp: net_handle_address_claim_def Let_def intro!: net_inv_partners)
qed

lemma handle_request_for_address_claim_safe:
  assumes "net_inv n"
  shows "net_inv (fst (handle_request_for_address_claim lk f port n))"
proof -
  let ?d = "frame_destination f"
  obtain n1 rs where n1: "net_over_cfs (answer_request_cf ?d port) n = (n1, rs)" by fastforce
  note ok = net_over_cfs_ok [OF answer_request_cf_good assms n1]
  have "net_inv (n1\<lparr>n_partner_cfs := map (validate_partner ?d port) (n_partner_cfs n1)\<rparr>)"
    using ok(1) by (intro net_inv_partners) (simp_all add: validate_partner_def partner_ok_begin)
  then show ?thesis
    using assms n1 ok(2) by (auto simp: handle_request_for_address_claim_def Let_def intro!: net_inv_best_effort)
qed

lemma check_address_violation_safe:
  assumes "net_inv n"
  shows "net_inv (check_address_violation lk f port n)"
proof (cases "list_ex (\<lambda>(p, a, _). p = port \<and> a = frame_source f) (n_recent_violations n)")
  case False
  obtain n1 rs where n1: "net_over_cfs (violation_cf (frame_source f) port) n = (n1, rs)" by fastforce
  note ok = net_over_cfs_ok [OF violation_cf_good assms n1]
  have v: "n_recent_violations n1 = n_recent_violations n"
    using n1 by (auto simp: net_over_cfs_def split: prod.splits)
  have "net_inv (n1\<lparr>n_recent_violations := n_recent_violations n1 @ [(port, frame_source f, 0)],
      n_on_address_violation := evs\<rparr>)" for evs
    using ok(1) False by (auto simp: net_inv_def v list_ex_iff split: prod.splits)
  then show ?thesis
    using assms n1 ok by (auto simp: check_address_violation_def Let_def intro!: net_inv_best_effort)
qed (use assms in \<open>simp add: check_address_violation_def Let_def\<close>)

lemma command_cf_ok:
  "cf_ok icf \<Longrightarrow> a \<le> MAX_ADDRESS \<Longrightarrow> command_cf nm a port occ icf = (icf', fs, vac, m) \<Longrightarrow>
   cf_ok icf' \<and> icf_name icf' = icf_name icf \<and> (\<forall>f \<in> set fs. frame_ok f)"
  by (auto simp: command_cf_def cf_ok_def Let_def split: if_splits)

lemma handle_commanded_address_safe:
  assumes "net_inv n"
  shows "net_inv (fst (handle_commanded_address_message lk m port n))"
proof (cases "msg_pgn m \<noteq> PGN_COMMANDED_ADDRESS \<or> length (msg_data m) \<noteq> 9
    \<or> name_from_bytes (take 8 (msg_data m)) = None \<or> MAX_ADDRESS < msg_data m ! 8")
  case False
  then obtain nm where nm: "name_from_bytes (take 8 (msg_data m)) = Some nm" by auto
  define a where "a = msg_data m ! 8"
  define g where "g = command_cf nm a port (occupied_by_other nm a port n)"
  have g: "cf_ok (fst (g icf)) \<and> icf_name (fst (g icf)) = icf_name icf \<and> (\<forall>f \<in> set (fst (snd (g icf))). frame_ok f)"
    if "icf \<in> set (n_internal_cfs n)" for icf
    using command_cf_ok [of icf a nm port _ "fst (g icf)"] that assms False
    by (auto simp: g_def a_def net_inv_def not_less) (metis prod.collapse)+
  have "net_inv (n\<lparr>n_internal_cfs := map (fst \<circ> g) (n_internal_cfs n)\<rparr>)"
    using assms g by (auto simp: net_inv_def comp_def cong: map_cong)
  moreover obtain n2 aborts where n2: "discontinue_all port (concat (map (fst \<circ> snd \<circ> snd) (map g (n_internal_cfs n))))
      (n\<lparr>n_internal_cfs := map (fst \<circ> g) (n_internal_cfs n)\<rparr>) = (n2, aborts)" by fastforce
  ultimately have "net_inv n2 \<and> (\<forall>f \<in> set aborts. frame_ok f)" by (rule discontinue_all_safe)
  then show ?thesis
    using False nm n2 g
    by (auto simp: handle_commanded_address_message_def Let_def a_def [symmetric] g_def [symmetric]
        intro!: net_inv_best_effort)
qed (use assms in \<open>auto simp: handle_commanded_address_message_def Let_def split: option.splits\<close>)

end
