(* ===== verification/Net_Runs.thy ===== *)
theory Net_Runs
  imports Net_Safety
begin

text \<open>
  Runs of the network manager: the routing of any received frame and the poll loop return, and every
  sequence of calls keeps the invariant.  An endpoint is only required to run dry: it has a measure that
  each received frame decreases, as the receive queue of a CAN driver does.
\<close>

section \<open>Routing\<close>

lemma dispatch_completions_safe: "net_inv n \<Longrightarrow> net_inv (dispatch_completions lk ss n)"
  by (induction ss arbitrary: n) (simp_all add: handle_commanded_address_safe)

lemma drain_transport_completions_safe: "net_inv n \<Longrightarrow> net_inv (drain_transport_completions lk n)"
  unfolding drain_transport_completions_def by (rule dispatch_completions_safe) (simp add: net_inv_def)

lemma net_inv_set_fp [simp]: "net_inv n \<Longrightarrow> fp_inv e \<Longrightarrow> net_inv (n\<lparr>n_fast_packet := e\<rparr>)"
  by (simp add: net_inv_def)

lemma fp_process_frame_safe: "fp_inv e \<Longrightarrow> wf_frame f \<Longrightarrow> \<exists>e' r. fp_process_frame e f = Some (e', r) \<and> fp_inv e'"
  using process_frame_session_safe [of e f] by (auto simp: fp_process_frame_def)

lemma tp_process_frame_ok:
  "tp_inv e \<Longrightarrow> wf_frame f \<Longrightarrow> \<exists>e' fs. tp_process_frame e f port = Some (e', fs) \<and> tp_inv e' \<and> (\<forall>f \<in> set fs. frame_ok f)"
  using tp.safe_step [of e "TpFrame f port"] by (fastforce simp: tp_step_def tp_admissible_def)

lemma etp_process_frame_ok:
  "etp_inv e \<Longrightarrow> wf_frame f \<Longrightarrow> \<exists>e' fs. etp_process_frame e f port = Some (e', fs) \<and> etp_inv e' \<and> (\<forall>f \<in> set fs. frame_ok f)"
  using etp.safe_step [of e "EtpFrame f port"] by (fastforce simp: etp_step_def etp_admissible_def)

lemma route_frame_safe:
  assumes "net_inv n" and "wf_frame f"
  shows "\<exists>n'. route_frame lk f port n = Some n' \<and> net_inv n'"
proof -
  obtain e fs where tp: "tp_process_frame (n_tp n) f port = Some (e, fs)" "tp_inv e" "\<forall>f \<in> set fs. frame_ok f"
    using tp_process_frame_ok [OF net_inv_parts(1) [OF assms(1)] assms(2)] by blast
  obtain e' fs' where etp: "etp_process_frame (n_etp n) f port = Some (e', fs')" "etp_inv e'" "\<forall>f \<in> set fs'. frame_ok f"
    using etp_process_frame_ok [OF net_inv_parts(2) [OF assms(1)] assms(2)] by blast
  obtain fp r where fp: "fp_process_frame (n_fast_packet n) f = Some (fp, r)" "fp_inv fp"
    using fp_process_frame_safe [OF net_inv_parts(3) [OF assms(1)] assms(2)] by blast
  have "net_inv (drain_transport_completions lk (send_frames_best_effort lk fs port (net_set_tp e n)))"
    "net_inv (drain_transport_completions lk (send_frames_best_effort lk fs' port (net_set_etp e' n)))"
    using assms(1) tp(2,3) etp(2,3) by (simp_all add: drain_transport_completions_safe net_inv_best_effort)
  moreover have "net_inv (case r of None \<Rightarrow> n\<lparr>n_fast_packet := fp\<rparr> | Some m \<Rightarrow> dispatch_message m (n\<lparr>n_fast_packet := fp\<rparr>))"
    using assms(1) fp(2) by (simp split: option.splits)
  ultimately show ?thesis using assms(1) tp(1) etp(1) fp(1) by (simp add: route_frame_def Let_def)
qed

lemma net_process_frame_safe:
  assumes "net_inv n" and "wf_frame f"
  shows "\<exists>n'. net_process_frame lk f port n = Some n' \<and> net_inv n'"
proof -
  let ?n = "n\<lparr>n_frames_received := n_frames_received n + 1\<rparr>"
  have n: "net_inv ?n" using assms(1) by (simp add: net_inv_def)
  obtain n1 b where n1: "(if frame_pgn f = PGN_REQUEST then handle_request_for_address_claim lk f port ?n
      else (?n, False)) = (n1, b)" by fastforce
  then have "net_inv n1" using handle_request_for_address_claim_safe [OF n, of lk f port] n by (auto split: if_splits)
  then obtain n2 where "route_frame lk f port (check_address_violation lk f port n1) = Some n2" "net_inv n2"
    using route_frame_safe [OF check_address_violation_safe assms(2)] by blast
  then show ?thesis
    using net_handle_address_claim_safe [OF n, of lk f port] \<open>net_inv n1\<close> n1
    by (cases "frame_pgn f = PGN_REQUEST") (auto simp: net_process_frame_def Let_def)
qed

lemma net_feed_safe: "net_inv n \<Longrightarrow> wf_frame f \<Longrightarrow> \<exists>n'. net_feed lk f port n = Some n' \<and> net_inv n'"
  by (simp add: net_feed_def net_process_frame_safe)

section \<open>The poll loop\<close>

definition link_runs_dry :: "('ep \<Rightarrow> nat) \<Rightarrow> 'ep link \<Rightarrow> bool" where
  "link_runs_dry queued lk \<longleftrightarrow> (\<forall>ep ep' cf. lk_recv lk ep = (ep', Some cf) \<longrightarrow>
     queued ep' < queued ep \<and> length (cf_data cf) = 8)"

lemma frame_from_can_frame_wf: "frame_from_can_frame cf = Some f \<Longrightarrow> length (cf_data cf) = 8 \<Longrightarrow> wf_frame f"
  by (auto simp: frame_from_can_frame_def wf_frame_def Let_def split: if_splits)

lemma recv_loop_returns:
  assumes "link_runs_dry queued lk"
  shows "\<exists>ep' fs. recv_loop lk ep = Some (ep', fs) \<and> (\<forall>f \<in> set fs. wf_frame f)"
proof (induction "queued ep" arbitrary: ep rule: less_induct)
  case less
  obtain ep1 r where r: "lk_recv lk ep = (ep1, r)" by fastforce
  show ?case
  proof (cases r)
    case None
    then show ?thesis using r by (simp add: recv_loop.simps [of lk ep])
  next
    case (Some cf)
    then have cf: "queued ep1 < queued ep" "length (cf_data cf) = 8" using assms r by (auto simp: link_runs_dry_def)
    obtain ep2 fs where "recv_loop lk ep1 = Some (ep2, fs)" "\<forall>f \<in> set fs. wf_frame f" using less [OF cf(1)] by blast
    then show ?thesis
      using r Some frame_from_can_frame_wf [OF _ cf(2)] by (simp add: recv_loop.simps [of lk ep] split: option.splits)
  qed
qed

lemma drain_ports_returns:
  assumes "link_runs_dry queued lk"
  shows "net_inv n \<Longrightarrow> \<exists>n' rx. drain_ports lk ports n = Some (n', rx) \<and> net_inv n' \<and> (\<forall>pf \<in> set rx. wf_frame (snd pf))"
proof (induction ports arbitrary: n)
  case (Cons port ports)
  show ?case
  proof (cases "n_endpoints n port")
    case (Some ep)
    obtain ep' fs where fs: "recv_loop lk ep = Some (ep', fs)" "\<forall>f \<in> set fs. wf_frame f"
      using recv_loop_returns [OF assms] by blast
    have "net_inv (n\<lparr>n_endpoints := (n_endpoints n)(port \<mapsto> ep')\<rparr>)" using Cons.prems by (simp add: net_inv_def)
    from Cons.IH [OF this] show ?thesis using Some fs by auto
  qed (use Cons in simp)
qed simp

lemma process_received_safe:
  "net_inv n \<Longrightarrow> \<forall>pf \<in> set rx. wf_frame (snd pf) \<Longrightarrow> \<exists>n'. process_received lk rx n = Some n' \<and> net_inv n'"
proof (induction rx arbitrary: n)
  case (Cons pf rx)
  then show ?case using net_feed_safe [of n "snd pf" lk "fst pf"] by auto
qed simp

lemma send_by_source_fields [simp]:
  "n_tp (send_by_source lk fs n) = n_tp n" "n_etp (send_by_source lk fs n) = n_etp n"
  "n_fast_packet (send_by_source lk fs n) = n_fast_packet n"
  by (simp_all add: send_by_source_def)

lemma tp_drives:
  assumes "tp_inv e"
  shows "\<exists>e' fs. tp_update e ms = Some (e', fs) \<and> tp_inv e' \<and> (\<forall>f \<in> set fs. frame_ok f)"
    and "\<exists>e' fs. tp_get_pending_data_frames e = Some (e', fs) \<and> tp_inv e' \<and> (\<forall>f \<in> set fs. frame_ok f)"
  using tp.safe_step [OF assms, of "TpUpdate ms"] tp.safe_step [OF assms, of TpPending]
  by (fastforce simp: tp_step_def tp_admissible_def)+

lemma etp_drives:
  assumes "etp_inv e"
  shows "\<exists>e' fs. etp_update e ms = Some (e', fs) \<and> etp_inv e' \<and> (\<forall>f \<in> set fs. frame_ok f)"
    and "\<exists>e' fs. etp_get_pending_data_frames e = Some (e', fs) \<and> etp_inv e' \<and> (\<forall>f \<in> set fs. frame_ok f)"
  using etp.safe_step [OF assms, of "EtpUpdate ms"] etp.safe_step [OF assms, of EtpPending]
  by (fastforce simp: etp_step_def etp_admissible_def)+

lemma drive_transports_safe:
  assumes "net_inv n"
  shows "\<exists>n'. drive_transports lk ms n = Some n' \<and> net_inv n'"
proof -
  obtain e1 fs1 where 1: "tp_update (n_tp n) ms = Some (e1, fs1)" "tp_inv e1" "\<forall>f \<in> set fs1. frame_ok f"
    using tp_drives(1) [OF net_inv_parts(1) [OF assms]] by blast
  define n1 where "n1 = send_by_source lk fs1 (net_set_tp e1 n)"
  have n1: "net_inv n1" using assms 1 by (simp add: n1_def net_inv_by_source)
  obtain e2 fs2 where 2: "tp_get_pending_data_frames (n_tp n1) = Some (e2, fs2)" "tp_inv e2" "\<forall>f \<in> set fs2. frame_ok f"
    using tp_drives(2) [OF net_inv_parts(1) [OF n1]] by blast
  define n2 where "n2 = send_by_source lk fs2 (net_set_tp e2 n1)"
  have n2: "net_inv n2" using n1 2 by (simp add: n2_def net_inv_by_source)
  obtain e3 fs3 where 3: "etp_update (n_etp n2) ms = Some (e3, fs3)" "etp_inv e3" "\<forall>f \<in> set fs3. frame_ok f"
    using etp_drives(1) [OF net_inv_parts(2) [OF n2]] by blast
  define n3 where "n3 = send_by_source lk fs3 (net_set_etp e3 n2)"
  have n3: "net_inv n3" using n2 3 by (simp add: n3_def net_inv_by_source)
  obtain e4 fs4 where 4: "etp_get_pending_data_frames (n_etp n3) = Some (e4, fs4)" "etp_inv e4" "\<forall>f \<in> set fs4. frame_ok f"
    using etp_drives(2) [OF net_inv_parts(2) [OF n3]] by blast
  define n4 where "n4 = send_by_source lk fs4 (net_set_etp e4 n3)"
  have n4: "net_inv n4" using n3 4 by (simp add: n4_def net_inv_by_source)
  obtain fp where 5: "fp_update (n_fast_packet n4) ms = Some fp" "fp_inv fp"
    using fp_update_eq [OF net_inv_parts(3) [OF n4], of ms] by blast
  have "drive_transports lk ms n = Some (start_ready_pending_transport lk
      (drain_transport_completions lk (n4\<lparr>n_fast_packet := fp\<rparr>)))"
    using 1(1) 2(1) 3(1) 4(1) 5(1) unfolding n4_def n3_def n2_def n1_def by (simp add: drive_transports_def)
  then show ?thesis using n4 5(2) by (simp add: net_inv_start_ready drain_transport_completions_safe)
qed

lemma drive_claimers_safe:
  assumes "net_inv n"
  shows "net_inv (drive_claimers lk ms n)"
proof -
  obtain n1 rs where n1: "net_over_cfs (update_cf ms) n = (n1, rs)" by fastforce
  note ok = net_over_cfs_ok [OF update_cf_good assms n1]
  show ?thesis
    using n1 ok(2) discontinue_each_safe [OF ok(1)] by (fastforce simp: drive_claimers_def intro!: net_inv_send_each)
qed

lemma bin_loads_returns:
  "\<forall>port b. loads port = Some b \<longrightarrow> wf_bus_load b \<Longrightarrow>
   \<exists>loads'. bin_loads ms ports loads = Some loads' \<and> (\<forall>port b. loads' port = Some b \<longrightarrow> wf_bus_load b)"
proof (induction ports arbitrary: loads)
  case (Cons port ports)
  show ?case
  proof (cases "loads port")
    case (Some b)
    obtain b' where b': "bl_update ms b = Some b'" "wf_bus_load b'" using bl_update_returns Cons.prems Some by blast
    have "\<forall>p c. (loads(port \<mapsto> b')) p = Some c \<longrightarrow> wf_bus_load c" using Cons.prems b'(2) by simp
    from Cons.IH [of "loads(port \<mapsto> b')", OF this] show ?thesis using Some b'(1) by (simp del: fun_upd_apply)
  qed (use Cons in simp)
qed simp

lemma net_inv_aged:
  assumes "net_inv n"
  shows "net_inv (n\<lparr>n_partner_cfs := map (update_claim_validation ms) (n_partner_cfs n),
    n_recent_violations := age_violations ms (n_recent_violations n)\<rparr>)"
proof -
  let ?key = "\<lambda>(p, a, _). (p, a)" and ?old = "\<lambda>(p :: u8, a :: address, age). (p, a, saturating_add age ms)"
  have "map ?key (map ?old vs) = map ?key vs" for vs by (induction vs) auto
  moreover have "distinct (map ?key (n_recent_violations n))" using assms by (simp add: net_inv_def)
  ultimately have "distinct (map ?key (map ?old (n_recent_violations n)))" by (simp only:)
  then have "distinct (map ?key (age_violations ms (n_recent_violations n)))"
    unfolding age_violations_def by (rule distinct_map_filter)
  then show ?thesis using assms by (simp add: net_inv_def partner_ok_update)
qed

lemma net_update_safe:
  assumes "link_runs_dry queued lk" and "net_inv n"
  shows "\<exists>n'. net_update lk ms n = Some n' \<and> net_inv n'"
proof -
  let ?n1 = "n\<lparr>n_partner_cfs := map (update_claim_validation ms) (n_partner_cfs n),
    n_recent_violations := age_violations ms (n_recent_violations n)\<rparr>"
  obtain n2 rx where n2: "drain_ports lk (net_ports ?n1) ?n1 = Some (n2, rx)" "net_inv n2" "\<forall>pf \<in> set rx. wf_frame (snd pf)"
    using drain_ports_returns [OF assms(1) net_inv_aged [OF assms(2)]] by blast
  obtain n3 where n3: "process_received lk rx n2 = Some n3" "net_inv n3" using process_received_safe [OF n2(2,3)] by blast
  obtain n4 where n4: "drive_transports lk ms n3 = Some n4" "net_inv n4" using drive_transports_safe [OF n3(2)] by blast
  have n5: "net_inv (drive_claimers lk ms n4)" using n4(2) by (rule drive_claimers_safe)
  then have "\<forall>port b. n_bus_loads (drive_claimers lk ms n4) port = Some b \<longrightarrow> wf_bus_load b" by (simp add: net_inv_def)
  then obtain loads where loads: "bin_loads ms all_ports (n_bus_loads (drive_claimers lk ms n4)) = Some loads"
    "\<forall>port b. loads port = Some b \<longrightarrow> wf_bus_load b"
    using bin_loads_returns by blast
  have "net_inv ((drive_claimers lk ms n4)\<lparr>n_bus_loads := loads\<rparr>)" using n5 loads(2) by (simp add: net_inv_def)
  then show ?thesis using n2(1) n3(1) n4(1) loads(1) n5 by (simp add: net_update_def Let_def)
qed

section \<open>Calls\<close>

lemma returned_inv: "(\<exists>n'. (\<exists>r. x = (n', r)) \<and> net_inv n') \<longleftrightarrow> net_inv (fst x)"
  by (cases x) simp

lemma net_send_safe:
  assumes "net_inv n" and "length data < 2 ^ 32"
  shows "\<exists>n' r. net_send lk p data src dst prio n = Some (n', r) \<and> net_inv n'"
proof -
  let ?a = "icf_address (n_internal_cfs n ! src)" and ?port = "icf_port (n_internal_cfs n ! src)"
  let ?tx = "\<lambda>kind. \<lparr>px_kind = kind, px_pgn = p, px_data = data, px_source = ?a, px_destination = dst,
    px_port = ?port, px_priority = prio\<rparr>"
  have single: "net_inv (fst (send_single_frame lk p data ?a dst prio ?port n))"
    using assms(1) by (auto simp: send_single_frame_def Let_def frame_ok_def wf_frame_def frame8_def intro!: net_inv_send_frame)
  have queued: "net_inv (fst (send_or_queue lk (?tx kind) n))" for kind
    using assms by (intro net_inv_send_or_queue) (simp_all add: tx_fits_def)
  obtain e r where fp: "fp_send_to (n_fast_packet n) p data ?a dst prio = Some (e, r)" "fp_inv e"
    "\<forall>fs. r = Inr fs \<longrightarrow> (\<forall>f \<in> set fs. frame_ok f)"
    using fp_send_to_safe [OF net_inv_parts(3) [OF assms(1)] assms(2)] unfolding frame_ok_def by blast
  have "\<exists>n' q. (case r of Inl err \<Rightarrow> Some (n\<lparr>n_fast_packet := e\<rparr>, Inl err)
      | Inr frames \<Rightarrow> Some (net_send_frames lk frames ?port (n\<lparr>n_fast_packet := e\<rparr>))) = Some (n', q) \<and> net_inv n'"
    using fp(2,3) assms(1) by (cases r) (simp_all add: returned_inv net_inv_send_frames)
  then show ?thesis using single queued assms(1) fp(1) by (simp add: net_send_def Let_def returned_inv)
qed

lemma net_create_internal_safe:
  assumes "net_inv n"
  shows "\<exists>n' r. net_create_internal nm port a n = Some (n', r) \<and> net_inv n'"
proof -
  let ?base = "nc_address_claim_timeout_ms (n_config n)"
  have "unat ?base + 153 < 2 ^ 32" using assms by (simp add: net_inv_def)
  then obtain c where c: "claimer_with_timeout ?base (rtxd_for_name nm) = Some c"
    using rtxd_for_name_bounded [of nm]
    by (auto simp: claimer_with_timeout_def Let_def checked_add_def timeout_consts word_less_nat_alt)
  have "wf_claimer c" using claimer_with_timeout_inv [OF c, of nm a port] by (simp add: claim_inv_def)
  moreover have "cf_ok (icf_new nm port a)" "icf_name (icf_new nm port a) = nm"
    by (simp_all add: cf_ok_def icf_new_def icf_access_defs sm_new_def control_function_new_def)
  ultimately show ?thesis
    using assms c by (auto simp: net_create_internal_def net_inv_def list_ex_iff)
qed

lemma net_inv_emitted:
  assumes "good_body g (\<lambda>r. \<forall>pf \<in> set r. frame_ok (snd pf))" and "net_inv n"
  shows "net_inv (case net_over_cfs g n of (n1, emitted) \<Rightarrow> send_each lk (concat emitted) n1)"
proof -
  obtain n1 rs where n1: "net_over_cfs g n = (n1, rs)" by fastforce
  then show ?thesis using net_over_cfs_ok [OF assms n1] by (fastforce intro!: net_inv_send_each)
qed

lemma net_start_safe: "net_inv n \<Longrightarrow> net_inv (fst (net_start_address_claiming lk n))"
  using net_inv_emitted [OF start_cf_good, of n lk] by (simp add: net_start_address_claiming_def split: prod.splits)

lemma net_respond_safe: "net_inv n \<Longrightarrow> net_inv (fst (net_send_address_claim_responses lk n))"
  using net_inv_emitted [OF respond_cf_good, of n lk] by (simp add: net_send_address_claim_responses_def split: prod.splits)

lemma net_new_inv: "unat (nc_address_claim_timeout_ms config) + 153 < 2 ^ 32 \<Longrightarrow> net_inv (net_new config)"
  by (simp add: net_inv_def net_new_def tp_new_inv etp_new_inv fp_new_inv)

section \<open>Runs\<close>

text \<open>
  The calls of the manager.  \<open>NetSetEndpoint\<close> also stands for what the bus does to an endpoint between two
  calls; \<open>NetTp\<close>, \<open>NetEtp\<close> and \<open>NetFp\<close> are calls on an engine through the accessors.
\<close>

datatype 'ep net_input =
    NetCreateInternal device_name u8 address
  | NetCreatePartner u8 "name_filter list"
  | NetSetEndpoint u8 'ep
  | NetRegisterCallback pgn nat
  | NetRegisterFastPacket pgn
  | NetStart
  | NetRespond
  | NetSend pgn bytes nat address priority
  | NetSendFrame frame u8
  | NetFeed frame u8
  | NetUpdate u32
  | NetCapture bool
  | NetTakeOutbound
  | NetCaptureMessages bool
  | NetTakeMessage
  | NetInject message
  | NetTp tp_input
  | NetEtp etp_input
  | NetFp fp_input

definition net_step :: "'ep link \<Rightarrow> 'ep net_input \<Rightarrow> 'ep iso_net \<Rightarrow> ('ep iso_net \<times> (u8 \<times> frame) list) option" where
  "net_step lk i n =
     (case i of
        NetCreateInternal nm port a \<Rightarrow> map_option (\<lambda>r. (fst r, [])) (net_create_internal nm port a n)
      | NetCreatePartner port filters \<Rightarrow> Some (fst (net_create_partner port filters n), [])
      | NetSetEndpoint port ep \<Rightarrow> Some (net_set_endpoint port ep n, [])
      | NetRegisterCallback p cb \<Rightarrow> Some (fst (net_register_pgn_callback p cb n), [])
      | NetRegisterFastPacket p \<Rightarrow> Some (fst (net_register_fast_packet_pgn p n), [])
      | NetStart \<Rightarrow> Some (fst (net_start_address_claiming lk n), [])
      | NetRespond \<Rightarrow> Some (fst (net_send_address_claim_responses lk n), [])
      | NetSend p data src dst prio \<Rightarrow> map_option (\<lambda>r. (fst r, [])) (net_send lk p data src dst prio n)
      | NetSendFrame f port \<Rightarrow> Some (fst (net_send_frame lk f port n), [])
      | NetFeed f port \<Rightarrow> map_option (\<lambda>n'. (n', [])) (net_feed lk f port n)
      | NetUpdate ms \<Rightarrow> map_option (\<lambda>n'. (n', [])) (net_update lk ms n)
      | NetCapture b \<Rightarrow> Some (net_set_capture_outbound b n, [])
      | NetTakeOutbound \<Rightarrow> Some (case net_take_outbound n of (n', r) \<Rightarrow> (n', case r of None \<Rightarrow> [] | Some pf \<Rightarrow> [pf]))
      | NetCaptureMessages b \<Rightarrow> Some (net_set_capture_messages b n, [])
      | NetTakeMessage \<Rightarrow> Some (fst (net_take_message n), [])
      | NetInject m \<Rightarrow> Some (net_inject_message m n, [])
      | NetTp j \<Rightarrow> map_option (\<lambda>r. (net_set_tp (fst r) n, [])) (tp_step j (n_tp n))
      | NetEtp j \<Rightarrow> map_option (\<lambda>r. (net_set_etp (fst r) n, [])) (etp_step j (n_etp n))
      | NetFp j \<Rightarrow> map_option (\<lambda>r. (n\<lparr>n_fast_packet := fst r\<rparr>, [])) (fp_step j (n_fast_packet n)))"

definition net_admissible :: "'ep net_input \<Rightarrow> bool" where
  "net_admissible i =
     (case i of
        NetSend p data src dst prio \<Rightarrow> length data < 2 ^ 32
      | NetSendFrame f port \<Rightarrow> frame_ok f
      | NetFeed f port \<Rightarrow> wf_frame f
      | NetTp j \<Rightarrow> tp_admissible j
      | NetEtp j \<Rightarrow> etp_admissible j
      | NetFp j \<Rightarrow> fp_admissible j
      | _ \<Rightarrow> True)"

lemma net_step_engine:
  assumes "net_inv n"
  shows "tp_admissible j \<Longrightarrow> \<exists>n'. net_step lk (NetTp j) n = Some (n', []) \<and> net_inv n'"
    and "etp_admissible k \<Longrightarrow> \<exists>n'. net_step lk (NetEtp k) n = Some (n', []) \<and> net_inv n'"
    and "fp_admissible m \<Longrightarrow> \<exists>n'. net_step lk (NetFp m) n = Some (n', []) \<and> net_inv n'"
  using assms tp.safe_step [OF net_inv_parts(1) [OF assms], of j] etp.safe_step [OF net_inv_parts(2) [OF assms], of k]
    fast.safe_step [OF net_inv_parts(3) [OF assms], of m]
  by (auto simp: net_step_def)

lemma net_step_register:
  assumes "net_inv n"
  shows "net_inv (fst (net_create_partner port filters n))" "net_inv (net_set_endpoint port ep n)"
    "net_inv (fst (net_register_pgn_callback p cb n))" "net_inv (fst (net_register_fast_packet_pgn p n))"
    "net_inv (net_set_capture_outbound b n)" "net_inv (net_set_capture_messages b n)"
    "net_inv (fst (net_take_message n))" "net_inv (net_inject_message m n)"
  using assms
  by (auto simp: net_inv_def net_create_partner_def net_set_endpoint_def net_register_pgn_callback_def
      net_register_fast_packet_pgn_def net_set_capture_outbound_def net_set_capture_messages_def
      net_take_message_def net_inject_message_def dispatch_message_def Let_def split: list.splits)

lemma net_take_outbound_safe:
  "net_inv n \<Longrightarrow> net_take_outbound n = (n', r) \<Longrightarrow> net_inv n' \<and> (\<forall>pf. r = Some pf \<longrightarrow> frame_ok (snd pf))"
  by (auto simp: net_take_outbound_def net_inv_def split: list.splits)

lemma net_step_safe:
  assumes "link_runs_dry queued lk" and "net_inv n" and "net_admissible i"
  shows "\<exists>n' out. net_step lk i n = Some (n', out) \<and> net_inv n' \<and> (\<forall>pf \<in> set out. frame_ok (snd pf))"
proof (cases i)
  case (NetCreateInternal nm port a)
  then show ?thesis using net_create_internal_safe [OF assms(2), of nm port a] by (auto simp: net_step_def)
next
  case (NetSend p data src dst prio)
  then show ?thesis
    using net_send_safe [OF assms(2), of data lk p src dst prio] assms(3) by (auto simp: net_step_def net_admissible_def)
next
  case (NetFeed f port)
  then show ?thesis using net_feed_safe [OF assms(2), of f lk port] assms(3) by (auto simp: net_step_def net_admissible_def)
next
  case (NetUpdate ms)
  then show ?thesis using net_update_safe [OF assms(1,2), of ms] by (auto simp: net_step_def)
next
  case NetTakeOutbound
  obtain n' r where "net_take_outbound n = (n', r)" by fastforce
  then show ?thesis
    using NetTakeOutbound net_take_outbound_safe [OF assms(2)] by (auto simp: net_step_def split: option.splits)
next
  case (NetTp j)
  then show ?thesis using net_step_engine(1) [OF assms(2)] assms(3) by (force simp: net_admissible_def)
next
  case (NetEtp j)
  then show ?thesis using net_step_engine(2) [OF assms(2)] assms(3) by (force simp: net_admissible_def)
next
  case (NetFp j)
  then show ?thesis using net_step_engine(3) [OF assms(2)] assms(3) by (force simp: net_admissible_def)
qed (use assms(2,3) in \<open>simp_all add: net_step_def net_step_register net_start_safe net_respond_safe
    net_inv_send_frame net_admissible_def\<close>)

lemma net_system:
  "link_runs_dry queued lk \<Longrightarrow> safe_system (net_step lk) net_inv net_admissible (\<lambda>pf. frame_ok (snd pf))"
  by unfold_locales (rule net_step_safe)

section \<open>Properties\<close>


text \<open>An endpoint that is the list of the frames it holds, and accepts every frame sent.\<close>

definition list_link :: "can_frame list link" where
  "list_link = \<lparr>lk_send = (\<lambda>cf ep. (ep, Inr ())),
     lk_recv = (\<lambda>ep. case ep of [] \<Rightarrow> ([], None) | cf # cfs \<Rightarrow> (cfs, Some (cf\<lparr>cf_data := take 8 (cf_data cf @ replicate 8 0)\<rparr>)))\<rparr>"

lemma list_link_runs_dry: "link_runs_dry length list_link"
  by (auto simp: link_runs_dry_def list_link_def split: list.splits)

definition net_sample_inputs :: "can_frame list net_input list" where
  "net_sample_inputs =
     [NetCreateInternal (Name 0x8000) 0 0x20, NetCreatePartner 0 [], NetCapture True, NetStart, NetUpdate 500,
      NetSetEndpoint 0 [frame_to_can_frame (make_claim_frame (Name 7) 0x30)], NetUpdate 500,
      NetSend 0xFECA (replicate 100 7) 0 0x30 Default, NetFeed (make_request_frame) 0, NetUpdate 1250, NetTakeOutbound]"


end
