(* ===== verification/Net_Addresses.thy ===== *)
theory Net_Addresses
  imports Net_Runs
begin

text \<open>
  What a received address claim does to the transfers of a network manager: an address that a control
  function stops using carries no transfer any more.
\<close>

section \<open>Discontinued addresses\<close>

definition quiet_at :: "u8 \<Rightarrow> address \<Rightarrow> 'ep iso_net \<Rightarrow> bool" where
  "quiet_at port a n \<longleftrightarrow>
     list_all (\<lambda>s. ts_can_port s \<noteq> port \<or> ts_source s \<noteq> a \<and> ts_destination s \<noteq> a) (tp_sessions (n_tp n))
     \<and> list_all (\<lambda>s. ts_can_port s \<noteq> port \<or> ts_source s \<noteq> a \<and> ts_destination s \<noteq> a) (et_sessions (n_etp n))
     \<and> list_all (\<lambda>tx. px_port tx \<noteq> port \<or> px_source tx \<noteq> a) (n_pending_transport_tx n)"

lemma discontinue_address_quiet:
  assumes "discontinue_address port a n = (n1, fs)"
  shows "a \<noteq> NULL_ADDRESS \<Longrightarrow> a \<noteq> BROADCAST_ADDRESS \<Longrightarrow> quiet_at port a n1" and "quiet_at port b n \<Longrightarrow> quiet_at port b n1"
    and "n_internal_cfs n1 = n_internal_cfs n"
  using assms
  by (auto simp: discontinue_address_def quiet_at_def net_set_tp_def net_set_etp_def tp_abort_sessions_for_address_def
      etp_abort_sessions_for_address_def list_all_iff Let_def split: if_splits)

lemma discontinue_all_quiet:
  "discontinue_all port as n = (n1, fs) \<Longrightarrow> (quiet_at port b n \<longrightarrow> quiet_at port b n1)
    \<and> n_internal_cfs n1 = n_internal_cfs n
    \<and> (\<forall>a \<in> set as. a \<noteq> NULL_ADDRESS \<longrightarrow> a \<noteq> BROADCAST_ADDRESS \<longrightarrow> quiet_at port a n1)"
proof (induction "as" arbitrary: n n1 fs b)
  case (Cons a "as")
  obtain n2 fs2 where n2: "discontinue_address port a n = (n2, fs2)" by fastforce
  obtain n3 fs3 where n3: "discontinue_all port as n2 = (n3, fs3)" by fastforce
  have "n1 = n3" using Cons.prems n2 n3 by simp
  then show ?case
    using Cons.IH [OF n3, of b] Cons.IH [OF n3, of a] discontinue_address_quiet [OF n2] by auto
qed simp

lemma quiet_at_sent [simp]: "quiet_at port a (send_frames_best_effort lk fs p n) = quiet_at port a n"
  by (simp add: quiet_at_def)

lemma over_cfs_nth:
  assumes "length cs = length cfs" and "over_cfs g cfs cs = (cfs', cs', rs)"
  shows "length cfs' = length cfs \<and> length cs' = length cfs \<and> length rs = length cfs
    \<and> (\<forall>i < length cfs. g (cfs ! i) (cs ! i) = (cfs' ! i, cs' ! i, rs ! i))"
  using assms
proof (induction cfs arbitrary: cs cfs' cs' rs)
  case (Cons icf cfs)
  obtain c cs0 where cs: "cs = c # cs0" using Cons.prems(1) by (cases cs) simp_all
  obtain icf1 c1 r where g: "g icf c = (icf1, c1, r)" by (rule prod_cases3)
  obtain cfs2 cs2 rs2 where rest: "over_cfs g cfs cs0 = (cfs2, cs2, rs2)" by (rule prod_cases3)
  have eqs: "cfs' = icf1 # cfs2" "cs' = c1 # cs2" "rs = r # rs2" using Cons.prems(2) by (simp_all add: cs g rest)
  have "length cs0 = length cfs" using Cons.prems(1) cs by simp
  from Cons.IH [OF this rest] show ?case by (auto simp: eqs cs g nth_Cons split: nat.splits)
qed simp

lemma net_over_cfs_nth:
  assumes "net_over_cfs g n = (n1, rs)" and "length (n_claimers n) = length (n_internal_cfs n)"
  shows "length (n_claimers n1) = length (n_internal_cfs n1)" "length (n_internal_cfs n1) = length (n_internal_cfs n)"
    "length rs = length (n_internal_cfs n)"
    "\<And>i. i < length (n_internal_cfs n) \<Longrightarrow>
       g (n_internal_cfs n ! i) (n_claimers n ! i) = (n_internal_cfs n1 ! i, n_claimers n1 ! i, rs ! i)"
  using over_cfs_nth [OF assms(2), of g] assms(1) by (auto simp: net_over_cfs_def split: prod.splits)

lemma good_bodyD:
  "good_body g P \<Longrightarrow> wf_claimer c \<Longrightarrow> cf_ok icf \<Longrightarrow> g icf c = (icf', c', r) \<Longrightarrow>
   wf_claimer c' \<and> cf_ok icf' \<and> icf_name icf' = icf_name icf \<and> icf_port icf' = icf_port icf \<and> P r"
  unfolding good_body_def by force

lemma duplicate_pass:
  assumes "net_inv n" and "handle_duplicate_internal_name lk nm b port n = (n1, vacated)"
    and "i < length (n_internal_cfs n)"
  shows "net_inv n1" and "length (n_internal_cfs n1) = length (n_internal_cfs n)"
    and "icf_port (n_internal_cfs n1 ! i) = icf_port (n_internal_cfs n ! i)"
    and "icf_address (n_internal_cfs n ! i) \<in> set vacated
      \<or> icf_address (n_internal_cfs n1 ! i) = icf_address (n_internal_cfs n ! i)"
    and "icf_name (n_internal_cfs n ! i) \<noteq> nm \<Longrightarrow> n_internal_cfs n1 ! i = n_internal_cfs n ! i"
proof -
  show "net_inv n1" using handle_duplicate_internal_name_safe [OF assms(1)] assms(2) by (metis fst_conv)
  obtain n2 rs where n2: "net_over_cfs (duplicate_cf nm b port) n = (n2, rs)" by fastforce
  have len: "length (n_claimers n) = length (n_internal_cfs n)" using assms(1) by (simp add: net_inv_def)
  note nth = net_over_cfs_nth [OF n2 len]
  let ?icf = "n_internal_cfs n ! i" and ?icf2 = "n_internal_cfs n2 ! i"
  have step: "duplicate_cf nm b port ?icf (n_claimers n ! i) = (?icf2, n_claimers n2 ! i, rs ! i)"
    using nth(4) [OF assms(3)] .
  have "wf_claimer (n_claimers n ! i)" "cf_ok ?icf" using assms(1,3) len by (auto simp: net_inv_def)
  then have port: "icf_port ?icf2 = icf_port ?icf" using good_bodyD [OF duplicate_cf_good _ _ step] by blast
  have "rs ! i \<in> set rs" using nth(3) assms(3) by simp
  moreover have "icf_address ?icf \<in> set (fst (snd (rs ! i))) \<or> icf_address ?icf2 = icf_address ?icf"
    using step by (cases "rs ! i") (auto simp: duplicate_cf_def Let_def split: if_splits prod.splits)
  ultimately have left: "icf_address ?icf \<in> set (concat (map (fst \<circ> snd) rs)) \<or> icf_address ?icf2 = icf_address ?icf"
    by auto
  have same: "icf_name ?icf \<noteq> nm \<Longrightarrow> ?icf2 = ?icf" using step by (simp add: duplicate_cf_def)
  have n1: "n_internal_cfs n1 = (if b = NULL_ADDRESS \<or> b = BROADCAST_ADDRESS then n_internal_cfs n else n_internal_cfs n2)"
    "vacated = (if b = NULL_ADDRESS \<or> b = BROADCAST_ADDRESS then [] else concat (map (fst \<circ> snd) rs))"
    using assms(2) n2 by (auto simp: handle_duplicate_internal_name_def split: if_splits)
  show "length (n_internal_cfs n1) = length (n_internal_cfs n)" using n1 nth(2) by simp
  show "icf_port (n_internal_cfs n1 ! i) = icf_port ?icf" using n1 port by simp
  show "icf_address ?icf \<in> set vacated \<or> icf_address (n_internal_cfs n1 ! i) = icf_address ?icf" using n1 left by auto
  show "n_internal_cfs n1 ! i = ?icf" if "icf_name ?icf \<noteq> nm" using n1 same [OF that] by simp
qed

lemma claimable_not_special: "a \<le> MAX_ADDRESS \<Longrightarrow> a \<noteq> NULL_ADDRESS \<and> a \<noteq> BROADCAST_ADDRESS"
  by (auto simp: address_consts)

lemma claim_discontinues:
  fixes lk :: "'ep link"
  assumes "net_inv n" and "name_from_bytes (frame_payload f) = Some nm" and "frame_source f \<le> MAX_ADDRESS"
    and "i < length (n_internal_cfs n)" and "icf_port (n_internal_cfs n ! i) = port"
    and "icf_address (n_internal_cfs n ! i) = a" and "a \<le> MAX_ADDRESS"
  defines "n' \<equiv> net_handle_address_claim lk f port n"
  assumes gone: "icf_address (n_internal_cfs n' ! i) \<noteq> a \<or> \<not> icf_is_online (n_internal_cfs n' ! i)"
  shows "quiet_at port a n'"
proof -
  let ?b = "frame_source f"
  obtain n1 vacated where n1: "handle_duplicate_internal_name lk nm ?b port n = (n1, vacated)" by fastforce
  obtain n2 rs where n2: "net_over_cfs (notify_cf nm ?b port) n1 = (n2, rs)" by fastforce
  obtain n3 aborts where n3: "discontinue_all port (vacated @ concat (map snd rs)) n2 = (n3, aborts)" by fastforce
  have n': "n' = (send_frames_best_effort lk (concat (map fst rs) @ aborts) port n3)
      \<lparr>n_partner_cfs := map (notify_partner nm ?b port) (n_partner_cfs n3)\<rparr>"
    using assms(2,3) n1 n2 n3 claimable_not_special [OF assms(3)] by (simp add: n'_def net_handle_address_claim_def Let_def)
  note dup = duplicate_pass [OF assms(1) n1 assms(4)]
  have len: "length (n_claimers n1) = length (n_internal_cfs n1)" using dup(1) by (simp add: net_inv_def)
  have i1: "i < length (n_internal_cfs n1)" using dup(2) assms(4) by simp
  have step: "notify_cf nm ?b port (n_internal_cfs n1 ! i) (n_claimers n1 ! i) = (n_internal_cfs n2 ! i, n_claimers n2 ! i, rs ! i)"
    using net_over_cfs_nth(4) [OF n2 len i1] .
  have cfs: "n_internal_cfs n' = n_internal_cfs n2" using n' discontinue_all_quiet [OF n3] by simp
  have "a \<in> set (vacated @ concat (map snd rs))"
  proof (cases "a \<in> set vacated")
    case False
    have "snd (rs ! i) = [a]"
      using step dup(3,4) False assms(5,6) gone
      by (cases "rs ! i") (auto simp: notify_cf_def Let_def cfs split: prod.splits if_splits)
    then show ?thesis using net_over_cfs_nth(3) [OF n2 len] i1 by (force intro: nth_mem)
  qed simp
  then have "quiet_at port a n3" using discontinue_all_quiet [OF n3] claimable_not_special [OF assms(7)] by blast
  then show ?thesis by (simp add: n' quiet_at_def)
qed

lemma claim_elsewhere:
  assumes "net_inv n" and "i < length (n_internal_cfs n)" and "icf_name (n_internal_cfs n ! i) \<noteq> nm"
    and "name_from_bytes (frame_payload f) = Some nm" and "icf_address (n_internal_cfs n ! i) \<noteq> frame_source f"
  shows "n_internal_cfs (net_handle_address_claim lk f port n) ! i = n_internal_cfs n ! i"
proof -
  let ?b = "frame_source f"
  obtain n1 vacated where n1: "handle_duplicate_internal_name lk nm ?b port n = (n1, vacated)" by fastforce
  obtain n2 rs where n2: "net_over_cfs (notify_cf nm ?b port) n1 = (n2, rs)" by fastforce
  obtain n3 aborts where n3: "discontinue_all port (vacated @ concat (map snd rs)) n2 = (n3, aborts)" by fastforce
  note dup = duplicate_pass [OF assms(1) n1 assms(2)]
  have len: "length (n_claimers n1) = length (n_internal_cfs n1)" using dup(1) by (simp add: net_inv_def)
  have i1: "i < length (n_internal_cfs n1)" using dup(2) assms(2) by simp
  have "n_internal_cfs n2 ! i = n_internal_cfs n ! i"
    using net_over_cfs_nth(4) [OF n2 len i1] dup(5) [OF assms(3)] assms(5)
    by (auto simp: notify_cf_def handle_claim_def Let_def split: if_splits)
  then show ?thesis
    using n1 n2 n3 discontinue_all_quiet [OF n3] assms(4) by (simp add: net_handle_address_claim_def Let_def)
qed

text \<open>A received address claim, seen through \<open>feed\<close>.\<close>

lemma quiet_at_dispatch [simp]: "quiet_at port a (dispatch_message m n) = quiet_at port a n"
  by (simp add: quiet_at_def dispatch_message_def)

definition counted :: "frame \<Rightarrow> u8 \<Rightarrow> 'ep iso_net \<Rightarrow> 'ep iso_net" where
  "counted f port n = (count_bus_load port (fr_length f) n)
     \<lparr>n_frames_received := n_frames_received (count_bus_load port (fr_length f) n) + 1\<rparr>"

lemma counted_simps [simp]:
  "n_internal_cfs (counted f port n) = n_internal_cfs n" "net_inv n \<Longrightarrow> net_inv (counted f port n)"
  using net_inv_count [of n port "fr_length f"] by (simp_all add: counted_def count_bus_load_def net_inv_def)

lemma feed_claim:
  assumes "frame_pgn f = PGN_ADDRESS_CLAIMED" and "net_feed lk f port n = Some n'"
  obtains m where "n' = dispatch_message m (net_handle_address_claim lk f port (counted f port n))"
  using assms by (auto simp: net_feed_def net_process_frame_def Let_def counted_def)

lemma dispatch_cfs [simp]: "n_internal_cfs (dispatch_message m n) = n_internal_cfs n"
  by (simp add: dispatch_message_def)

lemma claim_cfs:
  assumes "name_from_bytes (frame_payload f) = Some nm" and "frame_source f \<le> MAX_ADDRESS"
  shows "n_internal_cfs (net_handle_address_claim lk f port n)
    = n_internal_cfs (fst (net_over_cfs (notify_cf nm (frame_source f) port)
        (fst (handle_duplicate_internal_name lk nm (frame_source f) port n))))"
proof -
  let ?b = "frame_source f"
  obtain n1 vacated where n1: "handle_duplicate_internal_name lk nm ?b port n = (n1, vacated)" by fastforce
  obtain n2 rs where n2: "net_over_cfs (notify_cf nm ?b port) n1 = (n2, rs)" by fastforce
  obtain n3 aborts where n3: "discontinue_all port (vacated @ concat (map snd rs)) n2 = (n3, aborts)" by fastforce
  show ?thesis
    using assms n1 n2 n3 discontinue_all_quiet [OF n3] claimable_not_special [OF assms(2)]
    by (simp add: net_handle_address_claim_def Let_def)
qed

end
