(* ===== verification/Net_Transfers.thy ===== *)
theory Net_Transfers
  imports Net_Addresses TP_Broadcast
begin

text \<open>
  Two network managers on one bus: a broadcast started with \<open>send\<close> on one is dispatched as a message on the
  other, through the poll loops of both.  The managers run without endpoints, the frames are taken from the
  outbound queue of the sender and fed to the receiver on the port of the same number.
\<close>

section \<open>Managers at rest\<close>

text \<open>No endpoint is attached, frames go to the outbound queue, nothing but the transport engine is busy,
and every control function has claimed its address.\<close>

definition resting :: "'ep iso_net \<Rightarrow> bool" where
  "resting n \<longleftrightarrow> net_ports n = [] \<and> n_capture_outbound n \<and> et_sessions (n_etp n) = [] \<and> n_pending_transport_tx n = []
     \<and> n_tp_completions n = [] \<and> n_etp_completions n = []"

definition cf_settled :: "internal_cf \<Rightarrow> claimer \<Rightarrow> bool" where
  "cf_settled icf c \<longleftrightarrow> icf_claim_state icf = Claimed \<and> icf_is_online icf \<and> \<not> ac_listen_pending c \<and> \<not> ac_reclaim_pending c"

definition settled :: "'ep iso_net \<Rightarrow> bool" where
  "settled n \<longleftrightarrow> list_all2 cf_settled (n_internal_cfs n) (n_claimers n)"

text \<open>What a step of such a manager does: the engine it leaves, the frames it queues and the messages it
dispatches.\<close>

definition moves :: "'ep iso_net \<Rightarrow> tp_engine \<Rightarrow> (u8 \<times> frame) list \<Rightarrow> message list \<Rightarrow> 'ep iso_net \<Rightarrow> bool" where
  "moves n e out msgs n' \<longleftrightarrow> net_inv n' \<and> resting n' \<and> settled n' \<and> n_internal_cfs n' = n_internal_cfs n \<and> n_tp n' = e
     \<and> n_outbound n' = n_outbound n @ out \<and> n_on_message n' = n_on_message n @ msgs"

lemma send_each_captured:
  "n_capture_outbound n \<Longrightarrow> n_outbound (send_each lk pfs n) = n_outbound n @ pfs
     \<and> n_endpoints (send_each lk pfs n) = n_endpoints n"
proof (induction pfs arbitrary: n)
  case (Cons pf pfs)
  then show ?case using Cons.IH [of "fst (net_send_frame lk (snd pf) (fst pf) n)"]
    by (simp add: net_send_frame_def count_bus_load_def)
qed simp

lemma resting_sent [simp]: "resting n \<Longrightarrow> resting (send_each lk pfs n)"
  using send_each_captured [of n lk pfs] by (auto simp: resting_def net_ports_def)

lemma drain_sessions_idle:
  "\<forall>s \<in> set ss. \<not> is_cmdt_tx s \<Longrightarrow> drain_sessions ss = Some (ss, [])"
  by (induction ss) (simp_all add: drain_session_def)

lemma dispatch_completions_transmit:
  "\<forall>s \<in> set ss. ts_direction s \<noteq> Receive \<Longrightarrow> dispatch_completions lk ss n = n"
  by (induction ss arbitrary: n) simp_all

section \<open>Ticks\<close>

lemma set_engines_self [simp]: "net_set_tp (n_tp n) n = n" "net_set_etp (n_etp n) n = n"
  by (cases n; simp add: net_set_tp_def net_set_etp_def)+

lemma etp_idle:
  assumes "et_sessions e = []"
  shows "etp_update e ms = Some (e, [])" and "etp_get_pending_data_frames e = Some (e, [])"
  using assms by (cases e; simp add: etp_update_def etp_get_pending_data_frames_def)+

lemma tp_pending_idle:
  "\<forall>s \<in> set (tp_sessions e). \<not> is_cmdt_tx s \<Longrightarrow> tp_get_pending_data_frames e = Some (e, [])"
  by (cases e) (simp add: tp_get_pending_data_frames_def drain_sessions_idle)

lemma drive_transports_at_rest:
  assumes "net_inv n" and "resting n" and "tp_update (n_tp n) ms = Some (e, fs)"
    and "\<forall>s \<in> set (tp_sessions e). \<not> is_cmdt_tx s"
    and "\<forall>s \<in> set (drop (length (tp_on_complete (n_tp n))) (tp_on_complete e)). ts_direction s \<noteq> Receive"
  shows "\<exists>fp. drive_transports lk ms n = Some ((send_by_source lk fs (net_set_tp e n))
    \<lparr>n_fast_packet := fp, n_tp_completions := [], n_etp_completions := []\<rparr>)"
proof -
  let ?n1 = "send_by_source lk fs (net_set_tp e n)"
  obtain fp where fp: "fp_update (n_fast_packet n) ms = Some fp"
    using fp_update_eq [OF net_inv_parts(3) [OF assms(1)], of ms] by blast
  have n1: "n_tp ?n1 = e" "n_etp ?n1 = n_etp n" "n_fast_packet ?n1 = n_fast_packet n"
    "n_pending_transport_tx ?n1 = n_pending_transport_tx n" "n_etp_completions ?n1 = n_etp_completions n"
    "n_tp_completions ?n1 = n_tp_completions n @ drop (length (tp_on_complete (n_tp n))) (tp_on_complete e)"
    by (simp_all add: send_by_source_def net_set_tp_def)
  have self: "net_set_tp e ?n1 = ?n1" "net_set_etp (n_etp n) ?n1 = ?n1"
    using set_engines_self [of ?n1] n1(1,2) by simp_all
  have idle: "et_sessions (n_etp n) = []" "n_tp_completions n = []" "n_etp_completions n = []"
    "n_pending_transport_tx n = []" using assms(2) by (simp_all add: resting_def)
  have "drain_transport_completions lk (?n1\<lparr>n_fast_packet := fp\<rparr>)
      = ?n1\<lparr>n_fast_packet := fp, n_tp_completions := [], n_etp_completions := []\<rparr>"
    using dispatch_completions_transmit [OF assms(5)] idle n1(5,6) by (simp add: drain_transport_completions_def)
  then show ?thesis
    using assms(3) fp n1(1-4) self idle etp_idle [OF idle(1)] tp_pending_idle [OF assms(4)]
    by (intro exI [of _ fp]) (simp add: drive_transports_def start_ready_pending_transport_def send_by_source_def)
qed

lemma settled_update_cf:
  assumes "cf_settled icf c"
  shows "\<exists>c'. update_cf ms icf c = (icf, c', ([], [])) \<and> cf_settled icf c'"
  using assms
  by (auto simp: cf_settled_def update_cf_def claimer_update_def update_cannot_claim_def update_contest_def Let_def)

lemma settled_over_cfs:
  "list_all2 cf_settled cfs cs \<Longrightarrow> \<exists>cs' rs. over_cfs (update_cf ms) cfs cs = (cfs, cs', rs)
    \<and> list_all2 cf_settled cfs cs' \<and> concat (map fst rs) = [] \<and> concat (map snd rs) = []"
proof (induction rule: list_all2_induct)
  case (Cons icf cfs c cs)
  obtain c' where "update_cf ms icf c = (icf, c', ([], []))" "cf_settled icf c'"
    using settled_update_cf [OF Cons.hyps(1)] by blast
  then show ?case using Cons.IH by auto
qed simp

lemma settled_drive_claimers:
  assumes "settled n"
  shows "\<exists>cs. drive_claimers lk ms n = n\<lparr>n_claimers := cs\<rparr> \<and> list_all2 cf_settled (n_internal_cfs n) cs"
proof -
  obtain cs rs where "over_cfs (update_cf ms) (n_internal_cfs n) (n_claimers n) = (n_internal_cfs n, cs, rs)"
    "list_all2 cf_settled (n_internal_cfs n) cs" "concat (map fst rs) = []" "concat (map snd rs) = []"
    using settled_over_cfs assms unfolding settled_def by blast
  moreover have "n\<lparr>n_internal_cfs := n_internal_cfs n, n_claimers := cs\<rparr> = n\<lparr>n_claimers := cs\<rparr>" by (cases n) simp
  ultimately show ?thesis
    by (intro exI [of _ cs]) (simp add: drive_claimers_def net_over_cfs_def del: concat_eq_Nil_conv)
qed

lemma update_drives:
  assumes "link_runs_dry queued lk" and "net_inv n" and "resting n" and "tp_update (n_tp n) ms = Some (e, fs)"
    and "\<forall>s \<in> set (tp_sessions e). \<not> is_cmdt_tx s"
    and "\<forall>s \<in> set (drop (length (tp_on_complete (n_tp n))) (tp_on_complete e)). ts_direction s \<noteq> Receive"
  shows "\<exists>n2 loads n'. net_update lk ms n = Some n' \<and> n' = (drive_claimers lk ms n2)\<lparr>n_bus_loads := loads\<rparr>
    \<and> net_inv n' \<and> resting n2 \<and> n_internal_cfs n2 = n_internal_cfs n \<and> n_claimers n2 = n_claimers n \<and> n_tp n2 = e
    \<and> n_outbound n2 = n_outbound n @ map (\<lambda>f. (port_for_address n (frame_source f), f)) fs \<and> n_on_message n2 = n_on_message n"
proof -
  obtain n' where n': "net_update lk ms n = Some n'" "net_inv n'" using net_update_safe [OF assms(1,2)] by blast
  define n1 where "n1 = n\<lparr>n_partner_cfs := map (update_claim_validation ms) (n_partner_cfs n),
    n_recent_violations := age_violations ms (n_recent_violations n)\<rparr>"
  have n1: "net_inv n1" "resting n1" "n_tp n1 = n_tp n" "n_outbound n1 = n_outbound n" "n_claimers n1 = n_claimers n"
    "n_on_message n1 = n_on_message n" "n_internal_cfs n1 = n_internal_cfs n"
    using net_inv_aged [OF assms(2)] assms(3) by (simp_all add: n1_def resting_def net_ports_def)
  let ?out = "map (\<lambda>f. (port_for_address n (frame_source f), f)) fs"
  have port: "port_for_address (net_set_tp e n1) = port_for_address n"
    by (simp add: port_for_address_def net_set_tp_def n1(7) fun_eq_iff)
  obtain fp where fp: "drive_transports lk ms n1 = Some ((send_each lk ?out (net_set_tp e n1))
      \<lparr>n_fast_packet := fp, n_tp_completions := [], n_etp_completions := []\<rparr>)"
    using drive_transports_at_rest [OF n1(1,2), of ms e fs lk] assms(4-6) n1(3) by (auto simp: send_by_source_def port)
  define n2 where "n2 = (send_each lk ?out (net_set_tp e n1))
    \<lparr>n_fast_packet := fp, n_tp_completions := [], n_etp_completions := []\<rparr>"
  have cap: "n_capture_outbound (net_set_tp e n1)" using n1(2) by (simp add: resting_def net_set_tp_def)
  have n2: "resting n2" "n_internal_cfs n2 = n_internal_cfs n" "n_claimers n2 = n_claimers n" "n_tp n2 = e"
    "n_outbound n2 = n_outbound n @ ?out" "n_on_message n2 = n_on_message n"
    using n1 send_each_captured [OF cap, of lk ?out] by (simp_all add: n2_def net_set_tp_def resting_def net_ports_def)
  have ports: "net_ports n1 = []" using n1(2) by (simp add: resting_def)
  define n5 where "n5 = drive_claimers lk ms n2"
  have "n5\<lparr>n_bus_loads := n_bus_loads n5\<rparr> = n5" by (cases n5) simp
  then have "\<exists>loads. n' = n5\<lparr>n_bus_loads := loads\<rparr>"
    using n'(1) fp ports unfolding net_update_def n1_def [symmetric] n2_def [symmetric]
    by (cases "nc_enable_bus_load (n_config n5)")
      (auto simp: Let_def n5_def [symmetric] split: bind_splits intro: exI [of _ "n_bus_loads n5"])
  then show ?thesis using n' n2 unfolding n5_def by blast
qed

lemma update_at_rest:
  assumes "link_runs_dry queued lk" and "net_inv n" and "resting n" and "settled n" and "tp_update (n_tp n) ms = Some (e, fs)"
    and "\<forall>s \<in> set (tp_sessions e). \<not> is_cmdt_tx s"
    and "\<forall>s \<in> set (drop (length (tp_on_complete (n_tp n))) (tp_on_complete e)). ts_direction s \<noteq> Receive"
  shows "\<exists>n'. net_update lk ms n = Some n' \<and> moves n e (map (\<lambda>f. (port_for_address n (frame_source f), f)) fs) [] n'"
proof -
  obtain n2 loads n' where n': "net_update lk ms n = Some n'" "n' = (drive_claimers lk ms n2)\<lparr>n_bus_loads := loads\<rparr>" "net_inv n'"
    and n2: "resting n2" "n_internal_cfs n2 = n_internal_cfs n" "n_claimers n2 = n_claimers n" "n_tp n2 = e"
    "n_outbound n2 = n_outbound n @ map (\<lambda>f. (port_for_address n (frame_source f), f)) fs" "n_on_message n2 = n_on_message n"
    using update_drives [OF assms(1-3,5-7)] by blast
  have "settled n2" using assms(4) n2(2,3) by (simp add: settled_def)
  then obtain cs where "drive_claimers lk ms n2 = n2\<lparr>n_claimers := cs\<rparr>" "list_all2 cf_settled (n_internal_cfs n2) cs"
    using settled_drive_claimers by blast
  then have "moves n e (map (\<lambda>f. (port_for_address n (frame_source f), f)) fs) [] n'"
    using n2 n'(2,3) by (simp add: moves_def resting_def settled_def net_ports_def)
  then show ?thesis using n'(1) by blast
qed

section \<open>Received frames\<close>

lemma over_cfs_id:
  "\<lbrakk>\<And>icf c. icf \<in> set cfs \<Longrightarrow> g icf c = (icf, c, r); length cs = length cfs\<rbrakk> \<Longrightarrow>
   over_cfs g cfs cs = (cfs, cs, replicate (length cfs) r)"
proof (induction cfs arbitrary: cs)
  case (Cons icf cfs)
  then obtain c cs0 where "cs = c # cs0" by (cases cs) simp_all
  then show ?case using Cons.IH [of cs0] Cons.prems by simp
qed simp

lemma no_violation:
  assumes "length (n_claimers n) = length (n_internal_cfs n)" and "\<forall>icf \<in> set (n_internal_cfs n). icf_address icf \<noteq> frame_source f"
  shows "check_address_violation lk f port n = n"
proof -
  have "over_cfs (violation_cf (frame_source f) port) (n_internal_cfs n) (n_claimers n)
      = (n_internal_cfs n, n_claimers n, replicate (length (n_internal_cfs n)) ([], False))"
    using assms by (intro over_cfs_id) (auto simp: violation_cf_def)
  moreover have "n\<lparr>n_internal_cfs := n_internal_cfs n, n_claimers := n_claimers n\<rparr> = n" by (cases n) simp
  moreover have "\<not> list_ex snd (replicate k ([] :: frame list, False))" for k by (induction k) simp_all
  ultimately show ?thesis by (simp add: check_address_violation_def Let_def net_over_cfs_def)
qed

lemma dispatch_fields [simp]:
  "n_on_message (dispatch_message m n) = n_on_message n @ [m]" "resting (dispatch_message m n) = resting n"
  "settled (dispatch_message m n) = settled n" "n_tp (dispatch_message m n) = n_tp n"
  "n_outbound (dispatch_message m n) = n_outbound n"
  by (simp_all add: dispatch_message_def event_emit_def resting_def settled_def net_ports_def)

lemma dispatch_completions_received:
  "\<forall>s \<in> set ss. ts_direction s = Receive \<and> ts_pgn s \<noteq> PGN_COMMANDED_ADDRESS \<Longrightarrow>
   resting (dispatch_completions lk ss n) = resting n \<and> settled (dispatch_completions lk ss n) = settled n
   \<and> n_internal_cfs (dispatch_completions lk ss n) = n_internal_cfs n \<and> n_tp (dispatch_completions lk ss n) = n_tp n
   \<and> n_outbound (dispatch_completions lk ss n) = n_outbound n
   \<and> n_on_message (dispatch_completions lk ss n) = n_on_message n @ map completed_message ss"
proof (induction ss arbitrary: n)
  case (Cons s ss)
  then have "handle_commanded_address_message lk (completed_message s) (ts_can_port s) n = (n, False)"
    by (simp add: handle_commanded_address_message_def completed_message_def)
  then show ?case using Cons by simp
qed simp

lemma feed_at_rest:
  assumes "net_inv n" and "resting n" and "settled n" and "wf_frame f"
    and "\<forall>icf \<in> set (n_internal_cfs n). icf_address icf \<noteq> frame_source f"
    and "frame_pgn f = PGN_TP_CM \<or> frame_pgn f = PGN_TP_DT" and "frame_destination f = BROADCAST_ADDRESS"
    and "tp_process_frame (n_tp n) f port = Some (e, [])" and "tp_on_complete e = tp_on_complete (n_tp n) @ ss"
    and "\<forall>s \<in> set ss. ts_direction s = Receive \<and> ts_pgn s \<noteq> PGN_COMMANDED_ADDRESS"
  shows "\<exists>n'. net_feed lk f port n = Some n' \<and> moves n e [] (map completed_message ss) n'"
proof -
  obtain n' where n': "net_feed lk f port n = Some n'" "net_inv n'" using net_feed_safe [OF assms(1,4)] by blast
  let ?n1 = "counted f port n"
  have n1: "n_tp ?n1 = n_tp n" "n_tp_completions ?n1 = []" "n_etp_completions ?n1 = []" "n_outbound ?n1 = n_outbound n"
    "n_on_message ?n1 = n_on_message n" "resting ?n1" "settled ?n1" "length (n_claimers ?n1) = length (n_internal_cfs ?n1)"
    using assms(1-3) by (simp_all add: counted_def count_bus_load_def resting_def settled_def net_ports_def net_inv_def)
  have pgn: "frame_pgn f \<noteq> PGN_ADDRESS_CLAIMED" "frame_pgn f \<noteq> PGN_REQUEST" using assms(6) by (auto simp: pgn_consts)
  have "net_feed lk f port n = route_frame lk f port (check_address_violation lk f port ?n1)"
    using pgn by (simp add: net_feed_def net_process_frame_def counted_def Let_def)
  also have "check_address_violation lk f port ?n1 = ?n1" using assms(5) n1(8) by (intro no_violation) simp_all
  also have "route_frame lk f port ?n1 = Some (drain_transport_completions lk (net_set_tp e ?n1))"
    using assms(6-8) n1(1) by (simp add: route_frame_def is_transport_pgn_def is_addressed_to_us_def Let_def send_frames_best_effort_def)
  finally have eq: "n' = dispatch_completions lk ss (net_set_tp e ?n1\<lparr>n_tp_completions := [], n_etp_completions := []\<rparr>)"
    using n'(1) assms(9) n1(1-3) by (simp add: drain_transport_completions_def net_set_tp_def)
  have "resting (net_set_tp e ?n1\<lparr>n_tp_completions := [], n_etp_completions := []\<rparr>)"
    "settled (net_set_tp e ?n1\<lparr>n_tp_completions := [], n_etp_completions := []\<rparr>)"
    using n1(6,7) by (simp_all add: resting_def settled_def net_set_tp_def net_ports_def)
  then have "moves n e [] (map completed_message ss) n'"
    using n'(2) dispatch_completions_received [OF assms(10), of lk] n1(4,5)
    unfolding moves_def eq by (simp add: net_set_tp_def)
  then show ?thesis using n'(1) by blast
qed

section \<open>A broadcast between two managers\<close>

text \<open>One round of the bus: both managers are polled, and what the sender has queued reaches the receiver
on the port of the same number.\<close>

definition net_round :: "'ep link \<Rightarrow> u32 \<Rightarrow> 'ep iso_net \<times> 'ep iso_net \<Rightarrow> ('ep iso_net \<times> 'ep iso_net) option" where
  "net_round lk ms ab = do {
     a \<leftarrow> net_update lk ms (fst ab);
     b \<leftarrow> net_update lk ms (snd ab);
     b' \<leftarrow> process_received lk (n_outbound a) b;
     Some (a\<lparr>n_outbound := []\<rparr>, b')
   }"

primrec net_rounds :: "'ep link \<Rightarrow> u32 list \<Rightarrow> 'ep iso_net \<times> 'ep iso_net \<Rightarrow> ('ep iso_net \<times> 'ep iso_net) option" where
  "net_rounds lk [] ab = Some ab"
| "net_rounds lk (ms # mss) ab = do { ab' \<leftarrow> net_round lk ms ab; net_rounds lk mss ab' }"

definition net_broadcast ::
  "'ep link \<Rightarrow> transfer \<Rightarrow> priority \<Rightarrow> nat \<Rightarrow> u32 list \<Rightarrow> 'ep iso_net \<times> 'ep iso_net \<Rightarrow> ('ep iso_net \<times> 'ep iso_net) option" where
  "net_broadcast lk x prio h mss ab = do {
     (a, _) \<leftarrow> net_send lk (x_pgn x) (x_data x) h BROADCAST_ADDRESS prio (fst ab);
     b \<leftarrow> process_received lk (n_outbound a) (snd ab);
     net_rounds lk mss (a\<lparr>n_outbound := []\<rparr>, b)
   }"

definition sender_at :: "transfer \<Rightarrow> nat \<Rightarrow> 'ep iso_net \<Rightarrow> bool" where
  "sender_at x k a \<longleftrightarrow> net_inv a \<and> resting a \<and> settled a \<and> n_outbound a = []
     \<and> port_for_address a (x_src x) = x_port x \<and> (\<exists>s. tp_sessions (n_tp a) = [s] \<and> tx_at x k s)"

definition receiver_at :: "transfer \<Rightarrow> nat \<Rightarrow> 'ep iso_net \<Rightarrow> bool" where
  "receiver_at x k b \<longleftrightarrow> net_inv b \<and> resting b \<and> settled b \<and> (\<forall>icf \<in> set (n_internal_cfs b). icf_address icf \<noteq> x_src x)
     \<and> (\<exists>r. tp_sessions (n_tp b) = [r] \<and> rx_at x k r \<and> ts_timer_ms r = 0)"

definition arrives :: "transfer \<Rightarrow> message \<Rightarrow> bool" where
  "arrives x m \<longleftrightarrow> msg_pgn m = x_pgn x \<and> msg_data m = x_data x \<and> msg_source m = x_src x \<and> msg_destination m = x_dst x"

lemma emptied [simp]:
  "net_inv n \<Longrightarrow> net_inv (n\<lparr>n_outbound := []\<rparr>)" "resting (n\<lparr>n_outbound := []\<rparr>) = resting n"
  "settled (n\<lparr>n_outbound := []\<rparr>) = settled n" "port_for_address (n\<lparr>n_outbound := []\<rparr>) = port_for_address n"
  by (simp_all add: net_inv_def resting_def settled_def port_for_address_def net_ports_def fun_eq_iff)

lemma moves_port: "moves n e out msgs n' \<Longrightarrow> port_for_address n' a = port_for_address n a"
  by (simp add: moves_def port_for_address_def)

lemma broadcast_not_cmdt: "session_of x d s \<Longrightarrow> x_dst x = BROADCAST_ADDRESS \<Longrightarrow> \<not> is_cmdt_tx s"
  by (simp add: session_of_def is_cmdt_tx_def session_is_broadcast_def)

text \<open>The sender's half of a round.\<close>

lemma sender_round:
  assumes "link_runs_dry queued lk" and "valid_transfer x" and "x_dst x = BROADCAST_ADDRESS" and "sender_at x k a"
    and "TP_BAM_INTER_PACKET_MS \<le> ms"
  shows "k < x_packets x" and "\<exists>a'. net_update lk ms a = Some a' \<and> n_outbound a' = [(x_port x, x_dt x (Suc k))]
    \<and> (if Suc k = x_packets x then tp_sessions (n_tp a') = [] else sender_at x (Suc k) (a'\<lparr>n_outbound := []\<rparr>))"
proof -
  obtain s where s: "tp_sessions (n_tp a) = [s]" "tx_at x k s" using assms(4) by (auto simp: sender_at_def)
  note tick = bam_tx_tick [OF assms(2,3) s assms(5)]
  show "k < x_packets x" by (rule tick(1))
  obtain e where e: "tp_update (n_tp a) ms = Some (e, [x_dt x (Suc k)])"
    "if Suc k = x_packets x then completes x Transmit (n_tp a) e
     else \<exists>s'. goes_on (n_tp a) e s' \<and> tx_at x (Suc k) s'" using tick(2) by blast
  have "\<forall>s \<in> set (tp_sessions e). \<not> is_cmdt_tx s"
    "\<forall>s \<in> set (drop (length (tp_on_complete (n_tp a))) (tp_on_complete e)). ts_direction s \<noteq> Receive"
    using e(2) broadcast_not_cmdt [OF _ assms(3)]
    by (auto simp: completes_def goes_on_def tx_at_def session_of_def split: if_splits)
  then obtain a' where a': "net_update lk ms a = Some a'"
    "moves a e (map (\<lambda>f. (port_for_address a (frame_source f), f)) [x_dt x (Suc k)]) [] a'"
    using update_at_rest [OF assms(1) _ _ _ e(1)] assms(4) by (auto simp: sender_at_def)
  have "frame_source (x_dt x (Suc k)) = x_src x" by (simp add: x_dt_def)
  then have "n_outbound a' = [(x_port x, x_dt x (Suc k))]" using a'(2) assms(4) by (simp add: moves_def sender_at_def)
  moreover have "tp_sessions (n_tp a') = []" if "Suc k = x_packets x"
    using that e(2) a'(2) by (simp add: moves_def completes_def)
  moreover have "sender_at x (Suc k) (a'\<lparr>n_outbound := []\<rparr>)" if "Suc k \<noteq> x_packets x"
    using that e(2) a'(2) assms(4) moves_port [OF a'(2)] by (auto simp: moves_def sender_at_def goes_on_def)
  ultimately show "\<exists>a'. net_update lk ms a = Some a' \<and> n_outbound a' = [(x_port x, x_dt x (Suc k))]
    \<and> (if Suc k = x_packets x then tp_sessions (n_tp a') = [] else sender_at x (Suc k) (a'\<lparr>n_outbound := []\<rparr>))"
    using a'(1) by auto
qed

text \<open>The receiver's half.\<close>

lemma receiver_round:
  assumes "link_runs_dry queued lk" and "valid_transfer x" and "x_dst x = BROADCAST_ADDRESS" and "x_pgn x \<noteq> PGN_COMMANDED_ADDRESS"
    and "receiver_at x k b" and "k < x_packets x" and "ms < TP_TIMEOUT_T1_MS"
  shows "\<exists>b1 b2. net_update lk ms b = Some b1 \<and> process_received lk [(x_port x, x_dt x (Suc k))] b1 = Some b2
    \<and> (if Suc k = x_packets x
        then tp_sessions (n_tp b2) = [] \<and> (\<exists>m. n_on_message b2 = n_on_message b @ [m] \<and> arrives x m)
        else receiver_at x (Suc k) b2 \<and> n_on_message b2 = n_on_message b)"
proof -
  let ?f = "x_dt x (Suc k)"
  obtain r where r: "tp_sessions (n_tp b) = [r]" "rx_at x k r" "ts_timer_ms r = 0"
    using assms(5) by (auto simp: receiver_at_def)
  obtain e1 r1 where e1: "tp_update (n_tp b) ms = Some (e1, [])" "goes_on (n_tp b) e1 r1" "rx_at x k r1"
    using bam_rx_tick [OF assms(3) r assms(7)] by blast
  have "\<forall>s \<in> set (tp_sessions e1). \<not> is_cmdt_tx s"
    "\<forall>s \<in> set (drop (length (tp_on_complete (n_tp b))) (tp_on_complete e1)). ts_direction s \<noteq> Receive"
    using e1(2,3) broadcast_not_cmdt [OF _ assms(3)] by (auto simp: goes_on_def rx_at_def)
  then obtain b1 where b1: "net_update lk ms b = Some b1" "moves b e1 [] [] b1"
    using update_at_rest [OF assms(1) _ _ _ e1(1)] assms(5) by (fastforce simp: receiver_at_def)
  have t1: "tp_sessions e1 = [r1]" "n_tp b1 = e1" using e1(2) b1(2) by (simp_all add: goes_on_def moves_def)
  obtain e2 where e2: "tp_process_frame e1 ?f (x_port x) = Some (e2, [])"
    "if Suc k = x_packets x then completes x Receive e1 e2
     else \<exists>s'. goes_on e1 e2 s' \<and> rx_at x (Suc k) s' \<and> ts_timer_ms s' = 0"
    using bam_rx_frame [OF assms(2,3) t1(1) e1(3) assms(6)] by blast
  obtain ss where ss: "tp_on_complete e2 = tp_on_complete e1 @ ss"
    "if Suc k = x_packets x then \<exists>s. ss = [s] \<and> session_of x Receive s \<and> ts_data s = x_data x else ss = []"
    using e2(2) by (auto simp: completes_def goes_on_def split: if_splits)
  have f: "wf_frame ?f" "frame_source ?f = x_src x" "frame_pgn ?f = PGN_TP_DT" "frame_destination ?f = BROADCAST_ADDRESS"
    using assms(3) by (simp_all add: x_dt_def dt_frame_def wf_frame_def tp_frame_wire)
  have "\<forall>s \<in> set ss. ts_direction s = Receive \<and> ts_pgn s \<noteq> PGN_COMMANDED_ADDRESS"
    using ss(2) assms(4) by (auto simp: session_of_def split: if_splits)
  moreover have "\<forall>icf \<in> set (n_internal_cfs b1). icf_address icf \<noteq> frame_source ?f"
    using b1(2) assms(5) f(2) by (simp add: moves_def receiver_at_def)
  ultimately obtain b2 where b2: "net_feed lk ?f (x_port x) b1 = Some b2" "moves b1 e2 [] (map completed_message ss) b2"
    using feed_at_rest [of b1 ?f "x_port x" e2 ss lk] b1(2) f e2(1) ss(1) t1(2) by (auto simp: moves_def)
  have "process_received lk [(x_port x, ?f)] b1 = Some b2" using b2(1) by simp
  moreover have "tp_sessions (n_tp b2) = [] \<and> (\<exists>m. n_on_message b2 = n_on_message b @ [m] \<and> arrives x m)"
    if "Suc k = x_packets x"
    using that e2(2) ss(2) b1(2) b2(2) assms(3)
    by (auto simp: completes_def moves_def arrives_def completed_message_def session_of_def)
  moreover have "receiver_at x (Suc k) b2 \<and> n_on_message b2 = n_on_message b" if "Suc k \<noteq> x_packets x"
    using that e2(2) ss(2) b1(2) b2(2) assms(5) by (auto simp: moves_def receiver_at_def goes_on_def)
  ultimately show ?thesis using b1(1) by auto
qed

lemma net_rounds_deliver:
  assumes "link_runs_dry queued lk" and "valid_transfer x" and "x_dst x = BROADCAST_ADDRESS" and "x_pgn x \<noteq> PGN_COMMANDED_ADDRESS"
    and "sender_at x k a" and "receiver_at x k b"
    and "\<forall>ms \<in> set mss. TP_BAM_INTER_PACKET_MS \<le> ms \<and> ms < TP_TIMEOUT_T1_MS" and "k + length mss = x_packets x"
  shows "\<exists>a' b' m. net_rounds lk mss (a, b) = Some (a', b') \<and> tp_sessions (n_tp a') = [] \<and> tp_sessions (n_tp b') = []
    \<and> n_on_message b' = n_on_message b @ [m] \<and> arrives x m"
  using assms(5-8)
proof (induction mss arbitrary: k a b)
  case Nil
  obtain s where "tx_at x k s" using Nil.prems(1) by (auto simp: sender_at_def)
  then have "k < x_packets x" using sender_round(1) [OF assms(1-3) Nil.prems(1), of TP_BAM_INTER_PACKET_MS] by simp
  then show ?case using Nil.prems(4) by simp
next
  case (Cons ms mss)
  have ms: "TP_BAM_INTER_PACKET_MS \<le> ms" "ms < TP_TIMEOUT_T1_MS" using Cons.prems(3) by simp_all
  note lt = sender_round(1) [OF assms(1-3) Cons.prems(1) ms(1)]
  obtain a1 where a1: "net_update lk ms a = Some a1" "n_outbound a1 = [(x_port x, x_dt x (Suc k))]"
    "if Suc k = x_packets x then tp_sessions (n_tp a1) = [] else sender_at x (Suc k) (a1\<lparr>n_outbound := []\<rparr>)"
    using sender_round(2) [OF assms(1-3) Cons.prems(1) ms(1)] by blast
  obtain b1 b2 where b2: "net_update lk ms b = Some b1" "process_received lk [(x_port x, x_dt x (Suc k))] b1 = Some b2"
    "if Suc k = x_packets x
     then tp_sessions (n_tp b2) = [] \<and> (\<exists>m. n_on_message b2 = n_on_message b @ [m] \<and> arrives x m)
     else receiver_at x (Suc k) b2 \<and> n_on_message b2 = n_on_message b"
    using receiver_round [OF assms(1-4) Cons.prems(2) lt ms(2)] by blast
  have step: "net_rounds lk (ms # mss) (a, b) = net_rounds lk mss (a1\<lparr>n_outbound := []\<rparr>, b2)"
    using a1(1,2) b2(1,2) by (simp add: net_round_def del: process_received.simps)
  show ?case
  proof (cases "Suc k = x_packets x")
    case True
    moreover have "Suc k + length mss = x_packets x" using Cons.prems(4) by simp
    ultimately have "length mss = 0" by linarith
    then show ?thesis using \<open>Suc k = x_packets x\<close> step a1(3) b2(3) by auto
  next
    case False
    then show ?thesis using step a1(3) b2(3) Cons.IH [of "Suc k" "a1\<lparr>n_outbound := []\<rparr>" b2] Cons.prems(3,4) by simp
  qed
qed

lemma net_send_broadcast:
  assumes "valid_transfer x" and "x_dst x = BROADCAST_ADDRESS" and "\<not> is_fast_packet_pgn a (x_pgn x)"
    and "net_inv a" and "resting a" and "settled a" and "n_outbound a = []" and "port_for_address a (x_src x) = x_port x"
    and "h < length (n_internal_cfs a)" and "icf_address (n_internal_cfs a ! h) = x_src x"
    and "icf_port (n_internal_cfs a ! h) = x_port x" and "tp_sessions (n_tp a) = []" and "0 < tp_max_sessions (n_tp a)"
  shows "\<exists>a'. net_send lk (x_pgn x) (x_data x) h BROADCAST_ADDRESS prio a = Some (a', Inr ())
    \<and> n_outbound a' = [(x_port x, x_bam x)] \<and> sender_at x 0 (a'\<lparr>n_outbound := []\<rparr>)"
proof -
  let ?icf = "n_internal_cfs a ! h"
  have len: "9 \<le> length (x_data x)" "length (x_data x) \<le> 1785" "pgn_is_valid (x_pgn x)"
    using assms(1) by (simp_all add: valid_transfer_def)
  then have u: "unat (of_nat (length (x_data x)) :: u32) = length (x_data x)" by (simp add: unat_of_nat)
  obtain s where s: "x_send x prio (n_tp a) = (push_session s (n_tp a), Inr [make_bam s])" "tx_at x 0 s"
    using x_send_eq [OF assms(1,12,13), of prio] assms(2) by auto
  have "make_bam s = x_bam x" using x_bam_eq [OF assms(1)] s(2) by (simp add: tx_at_def)
  then have send: "tp_send (n_tp a) (x_pgn x) (x_data x) (x_src x) BROADCAST_ADDRESS (x_port x) prio
      = (push_session s (n_tp a), Inr [x_bam x])" using s(1) assms(2) by (simp add: x_send_def)
  have "cf_settled ?icf (n_claimers a ! h)" using assms(6,9) by (simp add: settled_def list_all2_conv_all_nth)
  then have st: "icf_claim_state ?icf = Claimed" "icf_is_online ?icf" by (simp_all add: cf_settled_def)
  moreover have "cf_ok ?icf" using assms(4,9) by (simp add: net_inv_def)
  ultimately have "cfn_address_valid (icf_cf ?icf)"
    by (simp add: cf_ok_def cfn_address_valid_def icf_address_def)
  then obtain a' where a': "net_send lk (x_pgn x) (x_data x) h BROADCAST_ADDRESS prio a = Some (a', Inr ())"
    "a' = fst (net_send_frame lk (x_bam x) (x_port x) (net_set_tp (push_session s (n_tp a)) a))"
    using len u st assms(3,5,9-11) send
    by (simp add: net_send_def Let_def limit_consts word_le_nat_alt send_or_queue_def net_send_transport_def
        net_send_frame_def resting_def net_set_tp_def)
  have "length (x_data x) < 2 ^ 32" using len(2) by simp
  then have "net_inv a'" using net_send_safe [OF assms(4)] a'(1) by (metis Pair_inject option.inject)
  moreover have "a' = send_each lk [(x_port x, x_bam x)] (net_set_tp (push_session s (n_tp a)) a)" using a'(2) by simp
  moreover have "n_capture_outbound (net_set_tp (push_session s (n_tp a)) a)" using assms(5) by (simp add: resting_def net_set_tp_def)
  moreover have "resting (net_set_tp (push_session s (n_tp a)) a)" "settled (net_set_tp (push_session s (n_tp a)) a)"
    using assms(5,6) by (simp_all add: resting_def settled_def net_set_tp_def net_ports_def push_session_def)
  ultimately show ?thesis
    using a'(1) s(2) assms(7,8,12) send_each_captured [of "net_set_tp (push_session s (n_tp a)) a" lk "[(x_port x, x_bam x)]"]
    by (simp add: sender_at_def net_set_tp_def settled_def port_for_address_def push_session_def del: send_each.simps)
qed

lemma receive_broadcast:
  assumes "valid_transfer x" and "x_dst x = BROADCAST_ADDRESS"
    and "net_inv b" and "resting b" and "settled b" and "\<forall>icf \<in> set (n_internal_cfs b). icf_address icf \<noteq> x_src x"
    and "tp_sessions (n_tp b) = []" and "0 < tp_max_sessions (n_tp b)" and "length (x_data x) \<le> unat (tp_max_receive_bytes (n_tp b))"
  shows "\<exists>b'. process_received lk [(x_port x, x_bam x)] b = Some b' \<and> receiver_at x 0 b' \<and> n_on_message b' = n_on_message b"
proof -
  have r: "tp_process_frame (n_tp b) (x_bam x) (x_port x) = Some (push_session (bam_session x) (n_tp b), [])"
    using process_bam [OF assms(1,2), of "n_tp b"] assms(7-9) by (simp add: receive_session_for_def)
  have "wf_frame (x_bam x)" "frame_source (x_bam x) = x_src x" "frame_pgn (x_bam x) = PGN_TP_CM"
    "frame_destination (x_bam x) = BROADCAST_ADDRESS"
    by (simp_all add: x_bam_def tp_frame_wire wf_frame_def pgn_bytes_def)
  then obtain b' where b': "net_feed lk (x_bam x) (x_port x) b = Some b'"
    "moves b (push_session (bam_session x) (n_tp b)) [] [] b'"
    using feed_at_rest [of b "x_bam x" "x_port x" _ "[]" lk, OF assms(3-5)] assms(6) r by (auto simp: push_session_def)
  then show ?thesis
    using bam_session_rx_at [OF assms(1,2)] assms(6,7) by (auto simp: moves_def receiver_at_def push_session_def)
qed

section \<open>Concrete managers\<close>

text \<open>A manager with control functions that hold an address each, one per entry of NAME, port and address.\<close>

definition held_claimer :: claimer where
  "held_claimer = \<lparr>ac_timeout_ms = 250, ac_rtxd_ms = 0, ac_attempted_claim = True, ac_claim_guard_timer_ms = 0,
     ac_cannot_claim_pending = False, ac_cannot_claim_delay_timer_ms = 0, ac_listen_pending = False,
     ac_listen_timer_ms = 0, ac_reclaim_pending = False, ac_reclaim_delay_timer_ms = 0,
     ac_reclaim_address = NULL_ADDRESS, ac_occupied_addresses = replicate CLAIMABLE_ADDRESS_COUNT False\<rparr>"

definition held_cf :: "device_name \<times> u8 \<times> address \<Rightarrow> internal_cf" where
  "held_cf d = icf_transition Claimed (icf_set_state Online (icf_new (fst d) (fst (snd d)) (snd (snd d))))"

definition node_with :: "(device_name \<times> u8 \<times> address) list \<Rightarrow> can_frame list iso_net" where
  "node_with ds = (net_new config_default)\<lparr>n_internal_cfs := map held_cf ds,
     n_claimers := map (\<lambda>_. held_claimer) ds, n_capture_outbound := True\<rparr>"

lemma held_cf_simps [simp]:
  "icf_name (held_cf d) = fst d" "icf_port (held_cf d) = fst (snd d)" "icf_address (held_cf d) = snd (snd d)"
  "icf_claim_state (held_cf d) = Claimed" "icf_is_online (held_cf d)"
  by (simp_all add: held_cf_def icf_new_def icf_access_defs icf_mutator_defs control_function_new_def)

lemma node_with_ok:
  assumes "distinct (map fst ds)" and "\<forall>d \<in> set ds. snd (snd d) \<le> MAX_ADDRESS"
  shows "net_inv (node_with ds)" and "resting (node_with ds)" and "settled (node_with ds)"
    and "n_internal_cfs (node_with ds) = map held_cf ds" and "n_tp (node_with ds) = tp_new"
    and "n_outbound (node_with ds) = []" and "n_config (node_with ds) = config_default" and "n_on_message (node_with ds) = []"
proof -
  have "net_inv (net_new config_default :: can_frame list iso_net)"
    by (rule net_new_inv) (simp add: config_default_def timeout_consts)
  moreover have "wf_claimer held_claimer" by (simp add: held_claimer_def wf_claimer_def timeout_consts)
  moreover have "map icf_name (map held_cf ds) = map fst ds" by simp
  ultimately show "net_inv (node_with ds)" using assms by (auto simp: node_with_def net_inv_def cf_ok_def comp_def)
  show "settled (node_with ds)"
    by (simp add: settled_def node_with_def cf_settled_def held_claimer_def list_all2_conv_all_nth)
qed (simp_all add: resting_def node_with_def net_ports_def net_new_def etp_new_def)

section \<open>Properties\<close>



end
