(* ===== verification/Net_Conflicts.thy ===== *)
theory Net_Conflicts
  imports Net_Transfers
begin

text \<open>
  Conflicts over addresses in the network manager.  An address lost to another node carries no transfer any
  more.  There are three places where the addresses of different control functions are confused: transfers
  are routed by source address alone, a claim of a third node tears down transfers with a peer, and two
  local control functions may end up with one address.
\<close>

section \<open>Lost addresses\<close>

text \<open>C9: When a received address claim makes an online control function leave its address -- it loses
arbitration, moves to another address, or goes offline because its NAME is duplicated -- no transfer
survives on that address: no session of either transport engine on that port has it as source or
destination, and no queued transfer is waiting to be sent from it.\<close>

theorem lost_address_carries_no_transfer:
  assumes "net_inv n" and "frame_pgn f = PGN_ADDRESS_CLAIMED" and "net_feed lk f port n = Some n'"
    and "i < length (n_internal_cfs n)" and "icf_port (n_internal_cfs n ! i) = port"
    and "icf_address (n_internal_cfs n ! i) = a" and "a \<le> MAX_ADDRESS" and "icf_is_online (n_internal_cfs n ! i)"
    and "icf_address (n_internal_cfs n' ! i) \<noteq> a \<or> \<not> icf_is_online (n_internal_cfs n' ! i)"
  shows "quiet_at port a n'"
proof -
  obtain m where n': "n' = dispatch_message m (net_handle_address_claim lk f port (counted f port n))"
    using feed_claim [OF assms(2,3)] .
  then have gone: "icf_address (n_internal_cfs (net_handle_address_claim lk f port (counted f port n)) ! i) \<noteq> a
    \<or> \<not> icf_is_online (n_internal_cfs (net_handle_address_claim lk f port (counted f port n)) ! i)"
    using assms(9) by simp
  show ?thesis
  proof (cases "\<exists>nm. name_from_bytes (frame_payload f) = Some nm \<and> frame_source f \<le> MAX_ADDRESS")
    case True
    then obtain nm where "name_from_bytes (frame_payload f) = Some nm" "frame_source f \<le> MAX_ADDRESS" by blast
    from claim_discontinues [of "counted f port n", OF _ this _ _ _ _ gone] show ?thesis using assms n' by simp
  next
    case False
    then have "n_internal_cfs (net_handle_address_claim lk f port (counted f port n)) = n_internal_cfs n"
      by (auto simp: net_handle_address_claim_def Let_def split: option.splits)
    then show ?thesis using gone assms(6,8) by simp
  qed
qed

lemma frame_ok_payload: "frame_ok f \<Longrightarrow> frame_payload f = fr_data f"
  by (simp add: frame_ok_def wf_frame_def frame_payload_def)

text \<open>A control function that broadcasts from 0x20 loses the address to a lower NAME.\<close>

definition losing_transfer :: transfer where
  "losing_transfer = sample_transfer\<lparr>x_dst := 0xFF\<rparr>"

definition losing_node :: "can_frame list iso_net" where
  "losing_node = net_set_tp (fst (x_send losing_transfer Default tp_new)) (node_with [(Name 9, 0, 0x20)])"

theorem lost_address_carries_no_transfer_witness:
  "tp_sessions (n_tp losing_node) \<noteq> []
   \<and> (\<exists>n'. net_feed list_link (make_claim_frame (Name 1) 0x20) 0 losing_node = Some n' \<and> quiet_at 0 0x20 n')"
proof -
  let ?f = "make_claim_frame (Name 1) 0x20"
  have x: "valid_transfer losing_transfer" "length (x_data losing_transfer) = 200"
    by (simp_all add: losing_transfer_def sample_transfer_def valid_transfer_def valid_tp_source_def
        valid_tp_destination_def address_consts pgn_is_valid_def)
  obtain s fs where s: "x_send losing_transfer Default tp_new = (push_session s tp_new, Inr fs)"
    using x_send_eq [OF x(1), of tp_new Default] by (auto simp: tp_new_def TP_DEFAULT_MAX_SESSIONS_def)
  have inv: "tp_inv (push_session s tp_new)" using tp_send_inv [OF tp_new_inv _ s [unfolded x_send_def]] x(2) by simp
  note ok = node_with_ok [of "[(Name 9, 0, 0x20)]"]
  have n: "net_inv losing_node" "n_internal_cfs losing_node = [held_cf (Name 9, 0, 0x20)]"
    "n_claimers losing_node = [held_claimer]" "n_tp losing_node = push_session s tp_new"
    using ok inv s by (simp_all add: losing_node_def net_set_tp_def net_inv_def address_consts node_with_def)
  have f: "frame_pgn ?f = PGN_ADDRESS_CLAIMED" "frame_source ?f = 0x20" "name_from_bytes (frame_payload ?f) = Some (Name 1)"
    by (simp_all add: frame_ok_payload)
  obtain n' where n': "net_feed list_link ?f 0 losing_node = Some n'" using net_feed_safe [OF n(1) claim_frame_wire(5)] by blast
  then obtain m where "n' = dispatch_message m (net_handle_address_claim list_link ?f 0 (counted ?f 0 losing_node))"
    using feed_claim [OF f(1)] by blast
  moreover have "n_claimers (counted ?f 0 losing_node) = [held_claimer]" using n(3) by (simp add: counted_def count_bus_load_def)
  ultimately have "\<not> icf_is_online (n_internal_cfs n' ! 0)"
    using n(2) f
    by (simp add: claim_cfs address_consts handle_duplicate_internal_name_def net_over_cfs_def duplicate_cf_def notify_cf_def
        handle_claim_def yield_address_def held_claimer_def less_device_name_def Let_def)
  then show ?thesis
    using lost_address_carries_no_transfer [OF n(1) f(1) n', of 0 "0x20"] n(2,4) n'
    by (simp add: push_session_def address_consts)
qed

section \<open>Ports\<close>

text \<open>C35: The data frames of a transfer leave on the port of the first control function that has the source
address, not on the port of the transfer.  When two control functions hold the same address on two buses,
the packets of a broadcast started on the second bus all go to the first bus.\<close>

theorem transfer_data_leaves_on_first_port:
  assumes "valid_transfer x" and "x_dst x = BROADCAST_ADDRESS" and "net_inv n" and "resting n"
    and "tp_sessions (n_tp n) = [s]" and "tx_at x k s" and "TP_BAM_INTER_PACKET_MS \<le> ms"
    and "n_internal_cfs n = icf # cfs" and "icf_address icf = x_src x" and "icf_port icf \<noteq> x_port x"
  shows "ts_can_port s = x_port x \<and> (\<exists>n'. drive_transports lk ms n = Some n'
    \<and> n_outbound n' = n_outbound n @ [(icf_port icf, x_dt x (Suc k))])"
proof -
  obtain e where e: "tp_update (n_tp n) ms = Some (e, [x_dt x (Suc k)])"
    "if Suc k = x_packets x then completes x Transmit (n_tp n) e
     else \<exists>s'. goes_on (n_tp n) e s' \<and> tx_at x (Suc k) s'"
    using bam_tx_tick(2) [OF assms(1,2,5-7)] by blast
  have "\<forall>s \<in> set (tp_sessions e). \<not> is_cmdt_tx s"
    "\<forall>s \<in> set (drop (length (tp_on_complete (n_tp n))) (tp_on_complete e)). ts_direction s \<noteq> Receive"
    using e(2) broadcast_not_cmdt [OF _ assms(2)]
    by (auto simp: completes_def goes_on_def tx_at_def session_of_def split: if_splits)
  from drive_transports_at_rest [OF assms(3,4) e(1) this, of lk]
  obtain fp where fp: "drive_transports lk ms n = Some ((send_by_source lk [x_dt x (Suc k)] (net_set_tp e n))
    \<lparr>n_fast_packet := fp, n_tp_completions := [], n_etp_completions := []\<rparr>)" by blast
  have "n_capture_outbound (net_set_tp e n)" using assms(4) by (simp add: resting_def net_set_tp_def)
  from send_each_captured [OF this, of lk] have "n_outbound (send_by_source lk [x_dt x (Suc k)] (net_set_tp e n))
      = n_outbound n @ [(icf_port icf, x_dt x (Suc k))]"
    using assms(8,9) by (simp add: send_by_source_def port_for_address_def net_set_tp_def x_dt_def del: send_each.simps)
  then show ?thesis using fp assms(6) by (simp add: tx_at_def session_of_def)
qed

text \<open>Control functions at 0x20 on ports 0 and 1; the second broadcasts.\<close>

definition two_port_transfer :: transfer where
  "two_port_transfer = sample_transfer\<lparr>x_dst := 0xFF, x_port := 1\<rparr>"

definition two_port_node :: "can_frame list iso_net" where
  "two_port_node = net_set_tp (fst (x_send two_port_transfer Default tp_new)) (node_with [(Name 1, 0, 0x20), (Name 2, 1, 0x20)])"

theorem transfer_data_leaves_on_first_port_witness:
  "\<exists>n'. drive_transports list_link 50 two_port_node = Some n' \<and> n_outbound n' = [(0, x_dt two_port_transfer 1)]"
proof -
  let ?ds = "[(Name 1, 0, 0x20), (Name 2, 1, 0x20)]"
  have x: "valid_transfer two_port_transfer" "x_dst two_port_transfer = BROADCAST_ADDRESS" "x_port two_port_transfer = 1"
    "x_src two_port_transfer = 0x20" "length (x_data two_port_transfer) = 200"
    by (simp_all add: two_port_transfer_def sample_transfer_def valid_transfer_def valid_tp_source_def
        valid_tp_destination_def address_consts pgn_is_valid_def)
  obtain s where s: "x_send two_port_transfer Default tp_new = (push_session s tp_new, Inr [make_bam s])" "tx_at two_port_transfer 0 s"
    using x_send_eq [OF x(1), of tp_new Default] x(2) by (auto simp: tp_new_def TP_DEFAULT_MAX_SESSIONS_def)
  have inv: "tp_inv (push_session s tp_new)"
    using tp_send_inv [OF tp_new_inv _ s(1) [unfolded x_send_def]] x(5) by simp
  note ok = node_with_ok [of ?ds]
  have n: "net_inv two_port_node" "resting two_port_node" "n_tp two_port_node = push_session s tp_new"
    "n_internal_cfs two_port_node = map held_cf ?ds" "n_outbound two_port_node = []"
    using ok inv s(1) by (simp_all add: two_port_node_def resting_def net_set_tp_def net_ports_def address_consts push_session_def net_inv_def)
  show ?thesis
    using transfer_data_leaves_on_first_port [OF x(1,2) n(1,2) _ s(2), of 50 "held_cf (Name 1, 0, 0x20)" _ list_link] n(3-5) x(3,4)
    by (simp add: push_session_def tp_new_def TP_BAM_INTER_PACKET_MS_def)
qed

section \<open>Claims of third nodes\<close>

text \<open>C36: While a local control function is not online, every address claim on its port ends the transfers that
any local control function runs with the node at the address that the offline one is going to claim.  The
claim may be for another address and by another NAME, and leaves the offline control function as it was.\<close>

theorem unrelated_claim_ends_transfers:
  assumes "net_inv n" and "frame_pgn f = PGN_ADDRESS_CLAIMED" and "name_from_bytes (frame_payload f) = Some nm"
    and "frame_source f \<le> MAX_ADDRESS" and "net_feed lk f port n = Some n'" and "i < length (n_internal_cfs n)"
    and "icf_port (n_internal_cfs n ! i) = port" and "\<not> icf_is_online (n_internal_cfs n ! i)"
    and "icf_address (n_internal_cfs n ! i) = a" and "a \<le> MAX_ADDRESS" and "a \<noteq> frame_source f"
    and "icf_name (n_internal_cfs n ! i) \<noteq> nm"
  shows "n_internal_cfs n' ! i = n_internal_cfs n ! i \<and> quiet_at port a n'"
proof -
  obtain m where n': "n' = dispatch_message m (net_handle_address_claim lk f port (counted f port n))"
    using feed_claim [OF assms(2,5)] .
  let ?n1 = "counted f port n"
  have same: "n_internal_cfs (net_handle_address_claim lk f port ?n1) ! i = n_internal_cfs ?n1 ! i"
    using assms by (intro claim_elsewhere) simp_all
  moreover have "quiet_at port a (net_handle_address_claim lk f port ?n1)"
    using same assms by (intro claim_discontinues [of ?n1 f nm i]) simp_all
  ultimately show ?thesis by (simp add: n')
qed

text \<open>A control function at 0x20 sends to the node at 0x30, which a second, starting one would like to be.\<close>

definition starting_node :: "can_frame list iso_net" where
  "starting_node = net_set_tp (fst (x_send sample_transfer Default tp_new))
     ((node_with [(Name 1, 0, 0x20)])\<lparr>n_internal_cfs := [held_cf (Name 1, 0, 0x20), icf_new (Name 2) 0 0x30],
        n_claimers := [held_claimer, held_claimer]\<rparr>)"

theorem unrelated_claim_ends_transfers_witness:
  "tp_sessions (n_tp starting_node) \<noteq> []
   \<and> (\<exists>n'. net_feed list_link (make_claim_frame (Name 7) 0x40) 0 starting_node = Some n' \<and> quiet_at 0 0x30 n')"
proof -
  let ?f = "make_claim_frame (Name 7) 0x40"
  have x: "valid_transfer sample_transfer" "length (x_data sample_transfer) = 200"
    by (simp_all add: sample_transfer_def valid_transfer_def valid_tp_source_def valid_tp_destination_def address_consts pgn_is_valid_def)
  obtain s fs where s: "x_send sample_transfer Default tp_new = (push_session s tp_new, Inr fs)"
    using x_send_eq [OF x(1), of tp_new Default] by (auto simp: tp_new_def TP_DEFAULT_MAX_SESSIONS_def)
  have inv: "tp_inv (push_session s tp_new)" using tp_send_inv [OF tp_new_inv _ s [unfolded x_send_def]] x(2) by simp
  have icf: "icf_name (icf_new nm port a) = nm" "icf_port (icf_new nm port a) = port" "icf_address (icf_new nm port a) = a"
    "\<not> icf_is_online (icf_new nm port a)" "cf_ok (icf_new nm port a)" for nm port a
    by (simp_all add: icf_new_def icf_access_defs control_function_new_def cf_ok_def sm_new_def)
  have "net_inv starting_node"
    using node_with_ok(1) [of "[(Name 1, 0, 0x20)]"] inv s icf
    by (simp add: starting_node_def net_set_tp_def net_inv_def address_consts node_with_def)
  moreover have "wf_frame ?f" using frame_ok_simps(1) by (simp add: frame_ok_def)
  ultimately obtain n' where n': "net_feed list_link ?f 0 starting_node = Some n'" using net_feed_safe by blast
  have f: "frame_pgn ?f = PGN_ADDRESS_CLAIMED" "frame_source ?f = 0x40" "name_from_bytes (frame_payload ?f) = Some (Name 7)"
    by (simp_all add: frame_ok_payload)
  show ?thesis
    using unrelated_claim_ends_transfers [OF \<open>net_inv starting_node\<close> f(1,3) _ n', of 1 "0x30"] n' f s icf
    by (simp add: starting_node_def net_set_tp_def address_consts push_session_def)
qed

section \<open>Siblings\<close>

text \<open>How far the control function \<open>nm\<close> at \<open>port\<close> is with an uncontested claim for its preferred address \<open>a\<close>.\<close>

definition claim_waits :: "device_name \<times> u8 \<Rightarrow> address \<Rightarrow> internal_cf \<Rightarrow> claimer \<Rightarrow> bool" where
  "claim_waits d a icf c \<longleftrightarrow> (\<exists>tmo \<le> 403. listening (fst d) a tmo 0 (c, icf)) \<and> (icf_name icf, icf_port icf) = d"

definition claim_contests :: "device_name \<times> u8 \<Rightarrow> address \<Rightarrow> internal_cf \<Rightarrow> claimer \<Rightarrow> bool" where
  "claim_contests d a icf c \<longleftrightarrow> (\<exists>tmo \<le> 403. contesting (fst d) a tmo 0 (c, icf)) \<and> (icf_name icf, icf_port icf) = d"

definition claim_holds :: "device_name \<times> u8 \<Rightarrow> address \<Rightarrow> internal_cf \<Rightarrow> bool" where
  "claim_holds d a icf \<longleftrightarrow> icf_claim_state icf = Claimed \<and> icf_is_online icf \<and> icf_address icf = a
     \<and> (icf_name icf, icf_port icf) = d"

lemma claim_step_update:
  "claim_step (Update ms) (c, icf) = Some (s', fs) \<Longrightarrow> \<exists>r. update_cf ms icf c = (snd s', fst s', r)"
  by (auto simp: claim_step_def update_cf_def Let_def split: prod.splits)

lemma update_keeps_identity:
  assumes "claim_inv nm a (c, icf)" and "cf_ok icf" and "update_cf ms icf c = (icf', c', r)"
  shows "icf_name icf' = icf_name icf \<and> icf_port icf' = icf_port icf \<and> cf_ok icf'"
  using good_bodyD [OF update_cf_good _ assms(2,3)] assms(1) by (simp add: claim_inv_def)

lemma waits_update:
  assumes "claim_waits d a icf c" and "cf_ok icf"
  shows "\<exists>icf' c' r. update_cf 500 icf c = (icf', c', r) \<and> claim_contests d a icf' c' \<and> cf_ok icf'"
proof -
  obtain tmo where tmo: "tmo \<le> 403" "listening (fst d) a tmo 0 (c, icf)" using assms(1) by (auto simp: claim_waits_def)
  obtain s' where s': "claim_step (Update 500) (c, icf) = Some (s', [make_claim_frame (fst d) a])" "contesting (fst d) a tmo 0 s'"
    using listening_ends [OF tmo(2), of 500] tmo(1) by auto
  then obtain r where r: "update_cf 500 icf c = (snd s', fst s', r)" using claim_step_update by blast
  have "claim_inv (fst d) a (c, icf)" using tmo(2) by (simp add: listening_def)
  from update_keeps_identity [OF this assms(2) r] show ?thesis
    using r s'(2) tmo(1) assms(1) by (cases s') (auto simp: claim_contests_def claim_waits_def)
qed

lemma contests_update:
  assumes "claim_contests d a icf c" and "cf_ok icf"
  shows "\<exists>icf' c' r. update_cf 500 icf c = (icf', c', r) \<and> claim_holds d a icf'"
proof -
  obtain tmo where tmo: "tmo \<le> 403" "contesting (fst d) a tmo 0 (c, icf)" using assms(1) by (auto simp: claim_contests_def)
  obtain s' where s': "claim_step (Update 500) (c, icf) = Some (s', [])" "icf_claim_state (snd s') = Claimed"
    "icf_is_online (snd s')" "icf_address (snd s') = a"
    using contesting_ends [OF tmo(2), of 500] tmo(1) by auto
  then obtain r where r: "update_cf 500 icf c = (snd s', fst s', r)" using claim_step_update by blast
  have "claim_inv (fst d) a (c, icf)" using tmo(2) by (simp add: contesting_def)
  from update_keeps_identity [OF this assms(2) r] show ?thesis
    using r s' assms(1) by (auto simp: claim_holds_def claim_contests_def)
qed

text \<open>A manager without any transfer, with the control functions \<open>cfs\<close> and their claimers.\<close>

definition idle_with :: "internal_cf list \<Rightarrow> claimer list \<Rightarrow> 'ep iso_net \<Rightarrow> bool" where
  "idle_with cfs cs n \<longleftrightarrow> resting n \<and> tp_sessions (n_tp n) = [] \<and> n_internal_cfs n = cfs \<and> n_claimers n = cs"

lemma idle_discontinue: "idle_with cfs cs n \<Longrightarrow> idle_with cfs cs (discontinue_each lk pas n)"
proof (induction pas arbitrary: n)
  case (Cons pa pas)
  obtain n1 fs where n1: "discontinue_address (fst pa) (snd pa) n = (n1, fs)" by fastforce
  then have "idle_with cfs cs n1" using Cons.prems
    by (auto simp: idle_with_def discontinue_address_def tp_abort_sessions_for_address_def
        etp_abort_sessions_for_address_def net_set_tp_def net_set_etp_def resting_def net_ports_def Let_def split: if_splits)
  then have "idle_with cfs cs (send_frames_best_effort lk fs (fst pa) n1)"
    by (simp add: idle_with_def send_frames_best_effort_def)
  then show ?case using Cons.IH n1 by simp
qed simp

lemma idle_update:
  assumes "link_runs_dry queued lk" and "net_inv n" and "idle_with cfs cs n" and "over_cfs (update_cf ms) cfs cs = (cfs', cs', rs)"
  shows "\<exists>n'. net_update lk ms n = Some n' \<and> net_inv n' \<and> idle_with cfs' cs' n'"
proof -
  have "tp_update (n_tp n) ms = Some (n_tp n, [])" using assms(3) by (simp add: idle_with_def tp_update_def)
  from update_drives [OF assms(1,2) _ this] assms(3)
  obtain n2 loads n' where n': "net_update lk ms n = Some n'" "n' = (drive_claimers lk ms n2)\<lparr>n_bus_loads := loads\<rparr>" "net_inv n'"
    and n2: "idle_with cfs cs n2" by (auto simp: idle_with_def)
  have "idle_with cfs' cs' (n2\<lparr>n_internal_cfs := cfs', n_claimers := cs'\<rparr>)"
    using n2 by (simp add: idle_with_def resting_def net_ports_def)
  then have "idle_with cfs' cs' (drive_claimers lk ms n2)"
    using idle_discontinue [of cfs' cs' "n2\<lparr>n_internal_cfs := cfs', n_claimers := cs'\<rparr>" lk] n2 assms(4)
    by (simp add: drive_claimers_def net_over_cfs_def idle_with_def)
  then have "idle_with cfs' cs' n'" by (simp add: n'(2) idle_with_def resting_def net_ports_def)
  then show ?thesis using n'(1,3) by blast
qed

lemma claimer_for:
  "\<exists>c. claimer_with_timeout 250 (rtxd_for_name nm) = Some c \<and> unat (ac_timeout_ms c) \<le> 403"
  using claimer_new_rtxd_for_name [of nm] rtxd_for_name_bounded [of nm]
  by (auto simp: claimer_new_def timeout_consts)

lemma start_cf_waits:
  assumes "claimer_with_timeout 250 (rtxd_for_name nm) = Some c" and "unat (ac_timeout_ms c) \<le> 403" and "a \<le> MAX_ADDRESS"
  shows "\<exists>icf' c' r. start_cf (icf_new nm port a) c = (icf', c', r) \<and> claim_waits (nm, port) a icf' c'"
proof -
  obtain c' icf' fs where st: "claimer_start c (icf_new nm port a) = (c', icf', fs)" by (rule prod_cases3)
  have icf: "cf_ok (icf_new nm port a)" "icf_name (icf_new nm port a) = nm" "icf_port (icf_new nm port a) = port"
    by (simp_all add: icf_new_def icf_access_defs control_function_new_def cf_ok_def sm_new_def)
  have "wf_claimer c" using claimer_with_timeout_inv [OF assms(1), of nm a port] by (simp add: claim_inv_def)
  from claimer_start_ok [OF this icf(1)] have "icf_name icf' = nm" "icf_port icf' = port"
    using st icf(2,3) by (simp_all add: claimed_ok_def)
  then show ?thesis
    using st start_listening [OF assms(1,3) st] assms(2) by (auto simp: start_cf_def claim_waits_def)
qed

lemma idle_create:
  assumes "net_inv n" and "idle_with cfs cs n" and "n_config n = config_default" and "nm \<notin> icf_name ` set cfs"
    and "claimer_with_timeout 250 (rtxd_for_name nm) = Some c"
  shows "\<exists>n'. net_step lk (NetCreateInternal nm port a) n = Some (n', []) \<and> net_inv n'
    \<and> idle_with (cfs @ [icf_new nm port a]) (cs @ [c]) n' \<and> n_config n' = config_default"
proof -
  obtain n' r where n': "net_create_internal nm port a n = Some (n', r)" "net_inv n'"
    using net_create_internal_safe [OF assms(1)] by blast
  have "\<not> list_ex (\<lambda>cf. icf_name cf = nm) (n_internal_cfs n)" using assms(2,4) by (auto simp: idle_with_def list_ex_iff)
  then have "n' = n\<lparr>n_internal_cfs := cfs @ [icf_new nm port a], n_claimers := cs @ [c]\<rparr>"
    using n'(1) assms(2,3,5) by (simp add: net_create_internal_def idle_with_def config_default_def timeout_consts)
  then show ?thesis
    using n' assms(2,3) by (auto simp: net_step_def idle_with_def resting_def net_ports_def)
qed

lemma idle_start:
  assumes "net_inv n" and "idle_with cfs cs n" and "cs \<noteq> []" and "over_cfs start_cf cfs cs = (cfs', cs', rs)"
  shows "\<exists>n'. net_step lk NetStart n = Some (n', []) \<and> net_inv n' \<and> idle_with cfs' cs' n'"
proof -
  let ?n1 = "n\<lparr>n_internal_cfs := cfs', n_claimers := cs'\<rparr>"
  have "fst (net_start_address_claiming lk n) = send_each lk (concat rs) ?n1"
    using assms(2-4) by (simp add: net_start_address_claiming_def net_over_cfs_def idle_with_def)
  moreover have "idle_with cfs' cs' ?n1" using assms(2) by (simp add: idle_with_def resting_def net_ports_def)
  then have "idle_with cfs' cs' (send_each lk (concat rs) ?n1)" by (simp add: idle_with_def)
  ultimately show ?thesis using net_start_safe [OF assms(1), of lk] by (simp add: net_step_def)
qed

text \<open>C37: Two control functions of one manager that prefer the same address both claim it: neither sees the
claim of the other.  After both guard windows each of them is online, in state Claimed, at the same address
on the same bus.\<close>

theorem siblings_claim_one_address:
  assumes "link_runs_dry queued lk" and "nm1 \<noteq> nm2" and "a \<le> MAX_ADDRESS"
  shows "\<exists>n. run_inputs (net_step lk) [NetCapture True, NetCreateInternal nm1 port a, NetCreateInternal nm2 port a,
      NetStart, NetUpdate 500, NetUpdate 500] (net_new config_default) = Some (n, [])
    \<and> map (\<lambda>icf. (icf_name icf, icf_port icf, icf_claim_state icf, icf_is_online icf, icf_address icf)) (n_internal_cfs n)
      = [(nm1, port, Claimed, True, a), (nm2, port, Claimed, True, a)]"
proof -
  let ?n0 = "net_set_capture_outbound True (net_new config_default)"
  obtain c1 c2 where c: "claimer_with_timeout 250 (rtxd_for_name nm1) = Some c1" "unat (ac_timeout_ms c1) \<le> 403"
    "claimer_with_timeout 250 (rtxd_for_name nm2) = Some c2" "unat (ac_timeout_ms c2) \<le> 403" using claimer_for by blast
  have "net_inv (net_new config_default)" by (rule net_new_inv) (simp add: config_default_def timeout_consts)
  then have inv: "net_inv ?n0" by (rule net_step_register)
  have n0: "idle_with [] [] ?n0" "n_config ?n0 = config_default"
    "net_step lk (NetCapture True) (net_new config_default) = Some (?n0, [])"
    by (simp_all add: idle_with_def resting_def net_set_capture_outbound_def net_new_def net_ports_def
        tp_new_def etp_new_def net_step_def)
  obtain n1 where n1: "net_step lk (NetCreateInternal nm1 port a) ?n0 = Some (n1, [])" "net_inv n1"
    "idle_with [icf_new nm1 port a] [c1] n1" "n_config n1 = config_default"
    using idle_create [OF inv n0(1,2) _ c(1), of lk port a] by auto
  have "icf_name (icf_new nm1 port a) = nm1" by (simp add: icf_new_def icf_access_defs control_function_new_def)
  then obtain n2 where n2: "net_step lk (NetCreateInternal nm2 port a) n1 = Some (n2, [])" "net_inv n2"
    "idle_with [icf_new nm1 port a, icf_new nm2 port a] [c1, c2] n2"
    using idle_create [OF n1(2-4) _ c(3), of lk port a] assms(2) by auto
  obtain i1 d1 r1 i2 d2 r2 where st: "start_cf (icf_new nm1 port a) c1 = (i1, d1, r1)" "claim_waits (nm1, port) a i1 d1"
    "start_cf (icf_new nm2 port a) c2 = (i2, d2, r2)" "claim_waits (nm2, port) a i2 d2"
    using start_cf_waits [OF c(1,2) assms(3)] start_cf_waits [OF c(3,4) assms(3)] by metis
  obtain n3 where n3: "net_step lk NetStart n2 = Some (n3, [])" "net_inv n3" "idle_with [i1, i2] [d1, d2] n3"
    using idle_start [OF n2(2,3)] st(1,3) by auto
  have "cf_ok i1" "cf_ok i2" using n3(2,3) by (simp_all add: net_inv_def idle_with_def)
  then obtain j1 e1 q1 j2 e2 q2 where up: "update_cf 500 i1 d1 = (j1, e1, q1)" "claim_contests (nm1, port) a j1 e1" "cf_ok j1"
    "update_cf 500 i2 d2 = (j2, e2, q2)" "claim_contests (nm2, port) a j2 e2" "cf_ok j2"
    using waits_update [OF st(2)] waits_update [OF st(4)] by metis
  obtain n4 where n4: "net_update lk 500 n3 = Some n4" "net_inv n4" "idle_with [j1, j2] [e1, e2] n4"
    using idle_update [OF assms(1) n3(2,3), of 500 "[j1, j2]" "[e1, e2]" "[q1, q2]"] up(1,4) by auto
  obtain k1 f1 p1 k2 f2 p2 where fin: "update_cf 500 j1 e1 = (k1, f1, p1)" "claim_holds (nm1, port) a k1"
    "update_cf 500 j2 e2 = (k2, f2, p2)" "claim_holds (nm2, port) a k2"
    using contests_update [OF up(2,3)] contests_update [OF up(5,6)] by metis
  obtain n5 where n5: "net_update lk 500 n4 = Some n5" "idle_with [k1, k2] [f1, f2] n5"
    using idle_update [OF assms(1) n4(2,3), of 500 "[k1, k2]" "[f1, f2]" "[p1, p2]"] fin(1,3) by auto
  have "net_step lk (NetUpdate 500) n3 = Some (n4, [])" "net_step lk (NetUpdate 500) n4 = Some (n5, [])"
    using n4(1) n5(1) by (simp_all add: net_step_def)
  then show ?thesis using n0(3) n1(1) n2(1) n3(1) n5(2) fin(2,4) by (auto simp: idle_with_def claim_holds_def)
qed

theorem siblings_claim_one_address_witness:
  "\<exists>n. run_inputs (net_step list_link) [NetCapture True, NetCreateInternal (Name 1) 0 0x20, NetCreateInternal (Name 2) 0 0x20,
      NetStart, NetUpdate 500, NetUpdate 500] (net_new config_default) = Some (n, [])
    \<and> map (\<lambda>icf. (icf_name icf, icf_port icf, icf_claim_state icf, icf_is_online icf, icf_address icf)) (n_internal_cfs n)
      = [(Name 1, 0, Claimed, True, 0x20), (Name 2, 0, Claimed, True, 0x20)]"
  by (rule siblings_claim_one_address [OF list_link_runs_dry]) (simp_all add: address_consts)

end
