(* ===== verification/Niu_Codec.thy ===== *)
theory Niu_Codec
  imports Control_Function Pgn_Table
begin

text \<open>
  The messages of a network interconnection unit (src/src/net/niu/niu_router_policy.rs) and the
  acknowledgment it answers with (src/src/j1939/acknowledgment.rs): filter rules, the network control
  message, the filter database, topology lists and connection requests, each with its wire form.
\<close>

section \<open>Enumerations\<close>

datatype forward_policy = Allow | Block | Monitor

definition forward_policy_as_u8 :: "forward_policy \<Rightarrow> u8" where
  "forward_policy_as_u8 p = (case p of Allow \<Rightarrow> 0 | Block \<Rightarrow> 1 | Monitor \<Rightarrow> 2)"

definition forward_policy_try_from_u8 :: "u8 \<Rightarrow> forward_policy option" where
  "forward_policy_try_from_u8 v = (if v = 0 then Some Allow else if v = 1 then Some Block else if v = 2 then Some Monitor else None)"

definition forward_policy_from_u8 :: "u8 \<Rightarrow> forward_policy" where
  "forward_policy_from_u8 v = (case forward_policy_try_from_u8 v of Some p \<Rightarrow> p | None \<Rightarrow> Monitor)"

datatype niu_filter_mode = BlockSpecific | PassSpecific

definition filter_mode_as_u8 :: "niu_filter_mode \<Rightarrow> u8" where
  "filter_mode_as_u8 m = (case m of BlockSpecific \<Rightarrow> 0 | PassSpecific \<Rightarrow> 1)"

definition filter_mode_try_from_u8 :: "u8 \<Rightarrow> niu_filter_mode option" where
  "filter_mode_try_from_u8 v = (if v = 0 then Some BlockSpecific else if v = 1 then Some PassSpecific else None)"

datatype niu_function =
    RequestFilterDb | FilterDbResponse | AddFilterEntry | DeleteFilterEntry | ClearFilterEntry
  | CreateFilterEntry | AddNameQualifiedEntries | RequestSourceAddressList | SourceAddressListResponse
  | RequestSourceAddressNameList | SourceAddressNameListResponse | RequestGeneralParametrics
  | GeneralParametricsResponse | ResetGeneralStatistics | RequestSpecificParametrics
  | SpecificParametricsResponse | ResetSpecificStatistics | OpenConnection | OpenConnectionResponse
  | CloseConnection | CloseConnectionResponse

definition niu_function_as_u8 :: "niu_function \<Rightarrow> u8" where
  "niu_function_as_u8 f =
     (case f of
        RequestFilterDb \<Rightarrow> 0 | FilterDbResponse \<Rightarrow> 1 | AddFilterEntry \<Rightarrow> 2 | DeleteFilterEntry \<Rightarrow> 3
      | ClearFilterEntry \<Rightarrow> 4 | CreateFilterEntry \<Rightarrow> 6 | AddNameQualifiedEntries \<Rightarrow> 7
      | RequestSourceAddressList \<Rightarrow> 64 | SourceAddressListResponse \<Rightarrow> 65
      | RequestSourceAddressNameList \<Rightarrow> 66 | SourceAddressNameListResponse \<Rightarrow> 67
      | RequestGeneralParametrics \<Rightarrow> 128 | GeneralParametricsResponse \<Rightarrow> 129 | ResetGeneralStatistics \<Rightarrow> 130
      | RequestSpecificParametrics \<Rightarrow> 131 | SpecificParametricsResponse \<Rightarrow> 132 | ResetSpecificStatistics \<Rightarrow> 133
      | OpenConnection \<Rightarrow> 192 | OpenConnectionResponse \<Rightarrow> 193 | CloseConnection \<Rightarrow> 194
      | CloseConnectionResponse \<Rightarrow> 195)"

definition niu_function_table :: "(u8 \<times> niu_function) list" where
  "niu_function_table =
     [(0, RequestFilterDb), (1, FilterDbResponse), (2, AddFilterEntry), (3, DeleteFilterEntry),
      (4, ClearFilterEntry), (6, CreateFilterEntry), (7, AddNameQualifiedEntries),
      (64, RequestSourceAddressList), (65, SourceAddressListResponse), (66, RequestSourceAddressNameList),
      (67, SourceAddressNameListResponse), (128, RequestGeneralParametrics), (129, GeneralParametricsResponse),
      (130, ResetGeneralStatistics), (131, RequestSpecificParametrics), (132, SpecificParametricsResponse),
      (133, ResetSpecificStatistics), (192, OpenConnection), (193, OpenConnectionResponse),
      (194, CloseConnection), (195, CloseConnectionResponse)]"

definition niu_function_try_from_u8 :: "u8 \<Rightarrow> niu_function option" where
  "niu_function_try_from_u8 v = map_of niu_function_table v"

definition niu_function_from_u8 :: "u8 \<Rightarrow> niu_function" where
  "niu_function_from_u8 v = (case niu_function_try_from_u8 v of Some f \<Rightarrow> f | None \<Rightarrow> RequestFilterDb)"

interpretation policy_wire: wire_enum forward_policy_as_u8 forward_policy_try_from_u8
  by unfold_locales (auto simp: forward_policy_as_u8_def forward_policy_try_from_u8_def split: forward_policy.splits if_splits)

interpretation filter_mode_wire: wire_enum filter_mode_as_u8 filter_mode_try_from_u8
  by unfold_locales (auto simp: filter_mode_as_u8_def filter_mode_try_from_u8_def split: niu_filter_mode.splits if_splits)

interpretation niu_function_wire: wire_enum niu_function_as_u8 niu_function_try_from_u8
  by unfold_locales (auto simp: niu_function_as_u8_def niu_function_try_from_u8_def niu_function_table_def
      split: niu_function.splits if_splits)

section \<open>Parameter groups in three bytes, 16-bit values in two\<close>

definition pgn_bytes18 :: "pgn \<Rightarrow> bytes" where
  "pgn_bytes18 p = [ucast (p AND 0xFF), ucast (drop_bit 8 p AND 0xFF), ucast (drop_bit 16 p AND 0x03)]"

definition pgn_from_bytes18 :: "u8 \<Rightarrow> u8 \<Rightarrow> u8 \<Rightarrow> pgn" where
  "pgn_from_bytes18 b0 b1 b2 = ucast b0 OR push_bit 8 (ucast b1) OR push_bit 16 (ucast (b2 AND 0x03))"

definition u16_bytes :: "u32 \<Rightarrow> bytes" where
  "u16_bytes w = [ucast (w AND 0xFF), ucast (drop_bit 8 w AND 0xFF)]"

definition u16_from_bytes :: "u8 \<Rightarrow> u8 \<Rightarrow> u32" where
  "u16_from_bytes lo hi = ucast lo OR push_bit 8 (ucast hi)"

definition niu_pgn_error :: "string \<Rightarrow> pgn \<Rightarrow> net_error" where
  "niu_pgn_error what p =
     error_invalid_data (what @ '' PGN '' @ hex_padded 0 (unat p) @ '' exceeds the 18-bit J1939/ISOBUS PGN range'')"

section \<open>Filter rules\<close>

record filter_rule =
  rl_pgn :: pgn
  rl_policy :: forward_policy
  rl_bidirectional :: bool
  rl_source_name :: "device_name option"
  rl_destination_name :: "device_name option"
  rl_max_frequency_ms :: u32
  rl_last_forward_time_ms :: "u32 option"
  rl_persistent :: bool

definition rule_new :: "pgn \<Rightarrow> forward_policy \<Rightarrow> bool \<Rightarrow> filter_rule" where
  "rule_new p policy bidirectional =
     \<lparr>rl_pgn = p, rl_policy = policy, rl_bidirectional = bidirectional, rl_source_name = None,
      rl_destination_name = None, rl_max_frequency_ms = 0, rl_last_forward_time_ms = None, rl_persistent = False\<rparr>"

definition rule_with_source_name :: "device_name \<Rightarrow> filter_rule \<Rightarrow> filter_rule" where
  "rule_with_source_name nm r = r\<lparr>rl_source_name := Some nm\<rparr>"

definition rule_with_destination_name :: "device_name \<Rightarrow> filter_rule \<Rightarrow> filter_rule" where
  "rule_with_destination_name nm r = r\<lparr>rl_destination_name := Some nm\<rparr>"

definition rule_with_max_frequency_ms :: "u32 \<Rightarrow> filter_rule \<Rightarrow> filter_rule" where
  "rule_with_max_frequency_ms ms r = r\<lparr>rl_max_frequency_ms := ms\<rparr>"

definition rule_persistent :: "bool \<Rightarrow> filter_rule \<Rightarrow> filter_rule" where
  "rule_persistent b r = r\<lparr>rl_persistent := b\<rparr>"

definition rule_flags :: "filter_rule \<Rightarrow> u8" where
  "rule_flags r = (forward_policy_as_u8 (rl_policy r) AND 0x03)
     OR (if rl_bidirectional r then 0x04 else 0) OR (if rl_persistent r then 0x08 else 0)
     OR (if rl_source_name r \<noteq> None then 0x10 else 0) OR (if rl_destination_name r \<noteq> None then 0x20 else 0)"

definition name_field_bytes :: "device_name option \<Rightarrow> bytes" where
  "name_field_bytes nm = (case nm of None \<Rightarrow> replicate 8 0xFF | Some n \<Rightarrow> name_to_bytes n)"

definition rule_encode :: "filter_rule \<Rightarrow> bytes net_result" where
  "rule_encode r =
     (if \<not> pgn_is_valid (rl_pgn r) then Inl (niu_pgn_error ''NIU filter'' (rl_pgn r))
      else if 0xFFFF < rl_max_frequency_ms r
      then Inl (error_invalid_data (''NIU filter max_frequency_ms '' @ show_base 10 (unat (rl_max_frequency_ms r))
             @ '' exceeds the 16-bit storage field''))
      else Inr (pgn_bytes18 (rl_pgn r) @ [rule_flags r] @ name_field_bytes (rl_source_name r)
             @ name_field_bytes (rl_destination_name r) @ u16_bytes (rl_max_frequency_ms r)))"

text \<open>A NAME field that is announced by its flag; \<open>unwrap\<close> panics on a field that is not eight bytes long.\<close>

definition optional_name :: "bool \<Rightarrow> bytes \<Rightarrow> device_name option option" where
  "optional_name present field = (if present then map_option Some (name_from_bytes field) else Some None)"

definition rule_decode :: "bytes \<Rightarrow> filter_rule net_result option" where
  "rule_decode data =
     (if length data \<noteq> 22 then Some (Inl (error_invalid_data ''filter rule must be exactly 22 bytes''))
      else if data ! 2 AND NOT 0x03 \<noteq> 0 then Some (Inl (error_invalid_data ''filter rule PGN high bits are reserved''))
      else
        let p = pgn_from_bytes18 (data ! 0) (data ! 1) (data ! 2); flags = data ! 3
        in if flags AND 0xC0 \<noteq> 0 then Some (Inl (error_invalid_data ''filter rule flags contain reserved bits''))
           else case forward_policy_try_from_u8 (flags AND 0x03) of
             None \<Rightarrow> Some (Inl (error_invalid_data ''filter rule policy is reserved''))
           | Some policy \<Rightarrow>
               let has_source = flags AND 0x10 \<noteq> 0; has_dest = flags AND 0x20 \<noteq> 0;
                   source = take 8 (drop 4 data); dest = take 8 (drop 12 data)
               in if \<not> has_source \<and> list_ex (\<lambda>b. b \<noteq> 0xFF) source
                  then Some (Inl (error_invalid_data ''filter rule absent source NAME must be padded with 0xFF''))
                  else if \<not> has_dest \<and> list_ex (\<lambda>b. b \<noteq> 0xFF) dest
                  then Some (Inl (error_invalid_data ''filter rule absent destination NAME must be padded with 0xFF''))
                  else do {
                    source_name \<leftarrow> optional_name has_source source;
                    destination_name \<leftarrow> optional_name has_dest dest;
                    Some (Inr \<lparr>rl_pgn = p, rl_policy = policy, rl_bidirectional = (flags AND 0x04 \<noteq> 0),
                      rl_source_name = source_name, rl_destination_name = destination_name,
                      rl_max_frequency_ms = u16_from_bytes (data ! 20) (data ! 21),
                      rl_last_forward_time_ms = None, rl_persistent = (flags AND 0x08 \<noteq> 0)\<rparr>)
                  })"

section \<open>The network control message\<close>

record niu_network_msg =
  nm_function :: niu_function
  nm_port_number :: u8
  nm_filter_pgn :: pgn
  nm_filter_mode :: niu_filter_mode
  nm_msgs_forwarded :: u32
  nm_msgs_blocked :: u32

definition niu_msg_default :: niu_network_msg where
  "niu_msg_default = \<lparr>nm_function = RequestFilterDb, nm_port_number = 0, nm_filter_pgn = 0,
     nm_filter_mode = BlockSpecific, nm_msgs_forwarded = 0, nm_msgs_blocked = 0\<rparr>"

definition niu_msg_encode :: "niu_network_msg \<Rightarrow> bytes net_result" where
  "niu_msg_encode m =
     (let head = [niu_function_as_u8 (nm_function m), nm_port_number m]
      in if nm_function m = AddFilterEntry \<or> nm_function m = DeleteFilterEntry
         then if \<not> pgn_is_valid (nm_filter_pgn m) then Inl (niu_pgn_error ''NIU filter'' (nm_filter_pgn m))
              else Inr (head @ pgn_bytes18 (nm_filter_pgn m) @ replicate 3 0xFF)
         else if nm_function m = GeneralParametricsResponse
         then Inr (head @ u16_bytes (min (nm_msgs_forwarded m) 0xFFFF) @ u16_bytes (min (nm_msgs_blocked m) 0xFFFF)
                @ replicate 2 0xFF)
         else Inr (head @ replicate 6 0xFF))"

definition niu_msg_decode :: "bytes \<Rightarrow> niu_network_msg option" where
  "niu_msg_decode data =
     (if length data \<noteq> 8 then None
      else case niu_function_try_from_u8 (data ! 0) of
        None \<Rightarrow> None
      | Some f \<Rightarrow>
          let m = niu_msg_default\<lparr>nm_function := f, nm_port_number := data ! 1\<rparr>
          in if f = AddFilterEntry \<or> f = DeleteFilterEntry
             then if data ! 4 AND 0xFC \<noteq> 0 \<or> list_ex (\<lambda>b. b \<noteq> 0xFF) (drop 5 data) then None
                  else Some (m\<lparr>nm_filter_pgn := pgn_from_bytes18 (data ! 2) (data ! 3) (data ! 4)\<rparr>)
             else if f = GeneralParametricsResponse
             then if list_ex (\<lambda>b. b \<noteq> 0xFF) (drop 6 data) then None
                  else Some (m\<lparr>nm_msgs_forwarded := u16_from_bytes (data ! 2) (data ! 3),
                                nm_msgs_blocked := u16_from_bytes (data ! 4) (data ! 5)\<rparr>)
             else if list_ex (\<lambda>b. b \<noteq> 0xFF) (drop 2 data) then None else Some m)"

section \<open>The filter database\<close>

record filter_db_response =
  fd_from_port :: u8
  fd_to_port :: u8
  fd_filter_mode :: u8
  fd_entries :: "pgn list"

primrec encode_pgns :: "pgn list \<Rightarrow> bytes net_result" where
  "encode_pgns [] = Inr []"
| "encode_pgns (p # ps) =
     (if \<not> pgn_is_valid p then Inl (niu_pgn_error ''NIU filter'' p)
      else case encode_pgns ps of Inl e \<Rightarrow> Inl e | Inr bs \<Rightarrow> Inr (pgn_bytes18 p @ bs))"

definition filter_db_encode :: "filter_db_response \<Rightarrow> bytes net_result" where
  "filter_db_encode d =
     (if 0x0F < fd_from_port d \<or> 0x0F < fd_to_port d
      then Inl (error_invalid_data ''NIU port numbers occupy one nibble each'')
      else case encode_pgns (fd_entries d) of
        Inl e \<Rightarrow> Inl e
      | Inr bs \<Rightarrow> Inr ([niu_function_as_u8 FilterDbResponse, push_bit 4 (fd_from_port d) OR fd_to_port d,
                fd_filter_mode d] @ bs))"

fun decode_pgns :: "bytes \<Rightarrow> pgn list option" where
  "decode_pgns (b0 # b1 # b2 # bs) =
     (if b2 AND 0xFC \<noteq> 0 then None
      else
        let p = pgn_from_bytes18 b0 b1 b2
        in if \<not> pgn_is_valid p then None else do { ps \<leftarrow> decode_pgns bs; Some (p # ps) })"
| "decode_pgns bs = Some []"

definition filter_db_decode :: "bytes \<Rightarrow> filter_db_response option" where
  "filter_db_decode data =
     (if length data < 3 \<or> data ! 0 \<noteq> niu_function_as_u8 FilterDbResponse then None
      else if length (drop 3 data) mod 3 \<noteq> 0 then None
      else do {
        entries \<leftarrow> decode_pgns (drop 3 data);
        Some \<lparr>fd_from_port = drop_bit 4 (data ! 1), fd_to_port = data ! 1 AND 0x0F, fd_filter_mode = data ! 2,
              fd_entries = entries\<rparr>
      })"

section \<open>Topology\<close>

record source_address_name =
  sa_address :: u8
  sa_name :: u64

record topology_msg =
  tm_function :: niu_function
  tm_port_number :: u8
  tm_entries :: "source_address_name list"

definition topology_request :: "u8 \<Rightarrow> topology_msg" where
  "topology_request port = \<lparr>tm_function = RequestSourceAddressNameList, tm_port_number = port, tm_entries = []\<rparr>"

definition topology_response :: "u8 \<Rightarrow> source_address_name list \<Rightarrow> topology_msg" where
  "topology_response port es = \<lparr>tm_function = SourceAddressNameListResponse, tm_port_number = port, tm_entries = es\<rparr>"

definition topology_encode :: "topology_msg \<Rightarrow> bytes net_result" where
  "topology_encode m =
     (if 14 < tm_port_number m then Inl (error_with_message InvalidData ''NIU topology port number must be 0..=14'')
      else if 255 < length (tm_entries m)
      then Inl (error_with_message InvalidData ''NIU topology entry count exceeds one byte'')
      else
        let head = [niu_function_as_u8 (tm_function m), 0xF0 OR (tm_port_number m AND 0x0F)]
        in if tm_function m = RequestSourceAddressNameList then Inr (head @ replicate 6 0xFF)
           else if tm_function m = SourceAddressNameListResponse
           then Inr (head @ [of_nat (length (tm_entries m))]
                  @ concat (map (\<lambda>e. sa_address e # to_le_bytes 8 (sa_name e)) (tm_entries m)))
           else Inl (error_with_message InvalidData ''not a NIU topology function''))"

primrec topology_entries :: "nat \<Rightarrow> bytes \<Rightarrow> source_address_name list" where
  "topology_entries 0 data = []"
| "topology_entries (Suc k) data =
     \<lparr>sa_address = data ! 0, sa_name = from_le_bytes (take 8 (drop 1 data))\<rparr> # topology_entries k (drop 9 data)"

definition topology_decode :: "bytes \<Rightarrow> topology_msg option" where
  "topology_decode data = do {
     b0 \<leftarrow> index_get data 0;
     f \<leftarrow> niu_function_try_from_u8 b0;
     port_byte \<leftarrow> index_get data 1;
     let port = port_byte AND 0x0F;
     if port_byte AND 0xF0 \<noteq> 0xF0 \<or> 14 < port then None
     else if f = RequestSourceAddressNameList
     then if length data \<noteq> 8 \<or> list_ex (\<lambda>b. b \<noteq> 0xFF) (drop 2 data) then None else Some (topology_request port)
     else if f = SourceAddressNameListResponse
     then do {
       c \<leftarrow> index_get data 2;
       if length data \<noteq> 3 + unat c * 9 then None
       else Some (topology_response port (topology_entries (unat c) (drop 3 data)))
     }
     else None
   }"

section \<open>Connections\<close>

datatype connection_failure_reason =
    CannotFindCfWithName | ConnectionsToNameExceeded | ConnectionsInNiuExceeded | ConnectionBusy
  | RequestTypeNotSupported | ReasonNotAvailable

definition failure_reason_as_u8 :: "connection_failure_reason \<Rightarrow> u8" where
  "failure_reason_as_u8 r =
     (case r of CannotFindCfWithName \<Rightarrow> 0 | ConnectionsToNameExceeded \<Rightarrow> 1 | ConnectionsInNiuExceeded \<Rightarrow> 2
      | ConnectionBusy \<Rightarrow> 3 | RequestTypeNotSupported \<Rightarrow> 4 | ReasonNotAvailable \<Rightarrow> 255)"

definition failure_reason_from_u8 :: "u8 \<Rightarrow> connection_failure_reason option" where
  "failure_reason_from_u8 v =
     map_of [(0, CannotFindCfWithName), (1, ConnectionsToNameExceeded), (2, ConnectionsInNiuExceeded),
       (3, ConnectionBusy), (4, RequestTypeNotSupported), (255, ReasonNotAvailable)] v"

record connection_request =
  cq_function :: niu_function
  cq_to_port :: u8
  cq_from_port :: u8
  cq_name :: u64

definition connection_request_encode :: "connection_request \<Rightarrow> bytes net_result" where
  "connection_request_encode r =
     (if cq_function r \<noteq> OpenConnection \<and> cq_function r \<noteq> CloseConnection
      then Inl (error_with_message InvalidData ''not a NIU connection request function'')
      else if 15 < cq_to_port r \<or> 15 < cq_from_port r
      then Inl (error_with_message InvalidData ''NIU port numbers are 4-bit'')
      else Inr ([niu_function_as_u8 (cq_function r), push_bit 4 (cq_from_port r) OR (cq_to_port r AND 0x0F)]
             @ to_le_bytes 8 (cq_name r)))"

definition connection_request_decode :: "bytes \<Rightarrow> connection_request option" where
  "connection_request_decode data =
     (if length data \<noteq> 10 then None
      else case niu_function_try_from_u8 (data ! 0) of
        None \<Rightarrow> None
      | Some f \<Rightarrow>
          if f \<noteq> OpenConnection \<and> f \<noteq> CloseConnection then None
          else Some \<lparr>cq_function = f, cq_to_port = data ! 1 AND 0x0F, cq_from_port = drop_bit 4 (data ! 1),
                     cq_name = from_le_bytes (drop 2 data)\<rparr>)"

record connection_response =
  cr_function :: niu_function
  cr_to_port :: u8
  cr_from_port :: u8
  cr_success :: bool
  cr_reason :: connection_failure_reason

definition connection_response_encode :: "connection_response \<Rightarrow> bytes net_result" where
  "connection_response_encode r =
     (if cr_function r \<noteq> OpenConnectionResponse \<and> cr_function r \<noteq> CloseConnectionResponse
      then Inl (error_with_message InvalidData ''not a NIU connection response function'')
      else if 15 < cr_to_port r \<or> 15 < cr_from_port r
      then Inl (error_with_message InvalidData ''NIU port numbers are 4-bit'')
      else Inr [niu_function_as_u8 (cr_function r), push_bit 4 (cr_from_port r) OR (cr_to_port r AND 0x0F),
             0xFC OR (if cr_success r then 1 else 0), failure_reason_as_u8 (cr_reason r), 0xFF, 0xFF, 0xFF, 0xFF])"

definition connection_response_decode :: "bytes \<Rightarrow> connection_response option" where
  "connection_response_decode data =
     (if length data \<noteq> 8 then None
      else do {
        f \<leftarrow> niu_function_try_from_u8 (data ! 0);
        if f \<noteq> OpenConnectionResponse \<and> f \<noteq> CloseConnectionResponse then None
        else do {
          reason \<leftarrow> failure_reason_from_u8 (data ! 3);
          Some \<lparr>cr_function = f, cr_to_port = data ! 1 AND 0x0F, cr_from_port = drop_bit 4 (data ! 1),
                cr_success = (data ! 2 AND 0x03 = 0x01), cr_reason = reason\<rparr>
        }
      })"

section \<open>Acknowledgments\<close>

datatype ack_control = PositiveAck | NegativeAck | AccessDenied | CannotRespond

definition ack_control_as_u8 :: "ack_control \<Rightarrow> u8" where
  "ack_control_as_u8 c = (case c of PositiveAck \<Rightarrow> 0 | NegativeAck \<Rightarrow> 1 | AccessDenied \<Rightarrow> 2 | CannotRespond \<Rightarrow> 3)"

definition ack_control_try_from_u8 :: "u8 \<Rightarrow> ack_control option" where
  "ack_control_try_from_u8 v =
     map_of [(0, PositiveAck), (1, NegativeAck), (2, AccessDenied), (3, CannotRespond)] v"

record acknowledgment =
  ak_control :: ack_control
  ak_group_function :: u8
  ak_acknowledged_pgn :: pgn
  ak_address :: address

definition ack_for :: "ack_control \<Rightarrow> pgn \<Rightarrow> address \<Rightarrow> acknowledgment" where
  "ack_for c p a = \<lparr>ak_control = c, ak_group_function = 0xFF, ak_acknowledged_pgn = p, ak_address = a\<rparr>"

definition ack_encode :: "acknowledgment \<Rightarrow> bytes net_result" where
  "ack_encode a =
     (if \<not> pgn_is_valid (ak_acknowledged_pgn a) then Inl (niu_pgn_error ''acknowledged'' (ak_acknowledged_pgn a))
      else Inr [ack_control_as_u8 (ak_control a), ak_group_function a, 0xFF, 0xFF, ak_address a,
             ucast (ak_acknowledged_pgn a AND 0xFF), ucast (drop_bit 8 (ak_acknowledged_pgn a) AND 0xFF),
             ucast (drop_bit 16 (ak_acknowledged_pgn a) AND 0xFF)])"

definition ack_decode :: "bytes \<Rightarrow> acknowledgment option" where
  "ack_decode data =
     (if length data \<noteq> 8 \<or> data ! 2 \<noteq> 0xFF \<or> data ! 3 \<noteq> 0xFF then None
      else do {
        c \<leftarrow> ack_control_try_from_u8 (data ! 0);
        let p = ucast (data ! 5) OR push_bit 8 (ucast (data ! 6)) OR push_bit 16 (ucast (data ! 7));
        if \<not> pgn_is_valid p then None
        else Some \<lparr>ak_control = c, ak_group_function = data ! 1, ak_acknowledged_pgn = p, ak_address = data ! 4\<rparr>
      })"

section \<open>Round trips of the parts\<close>

lemma take_bit_fits: "take_bit n w = (w :: 'a::len word) \<longleftrightarrow> unat w < 2 ^ n"
proof -
  have "take_bit n w = w \<longleftrightarrow> unat (take_bit n w) = unat w"
    by (simp only: word_unat_eq_iff)
  then show ?thesis
    by (simp add: unsigned_take_bit_eq take_bit_nat_eq_self_iff)
qed

lemma pgn_from_pgn_bytes18:
  assumes "pgn_is_valid p"
  shows "pgn_from_bytes18 (ucast (p AND 0xFF)) (ucast (drop_bit 8 p AND 0xFF)) (ucast (drop_bit 16 p AND 0x03)) = p"
proof -
  have "take_bit 18 p = p"
    using assms by (simp add: pgn_is_valid_def take_bit_fits word_le_nat_alt)
  then have top: "k < 18" if "bit p k" for k
    using that by (metis bit_take_bit_iff)
  have three: "(0x03 :: 'b::len word) = mask 2"
    by (simp add: mask_eq_exp_minus_1)
  show ?thesis
    unfolding pgn_from_bytes18_def mask_literals three
  proof (rule bit_word_eqI)
    fix n :: nat
    show "bit (ucast (ucast (p AND mask 8) :: u8) OR push_bit 8 (ucast (ucast (drop_bit 8 p AND mask 8) :: u8))
        OR push_bit 16 (ucast ((ucast (drop_bit 16 p AND mask 2) :: u8) AND mask 2)) :: u32) n = bit p n"
      by (cases "16 \<le> n") (auto simp: bit_simps dest: top)
  qed
qed

lemma u16_from_u16_bytes:
  assumes "w \<le> 0xFFFF"
  shows "u16_from_bytes (ucast (w AND 0xFF)) (ucast (drop_bit 8 w AND 0xFF)) = w"
proof -
  have "take_bit 16 w = w"
    using assms by (simp add: take_bit_fits word_le_nat_alt)
  then have top: "k < 16" if "bit w k" for k
    using that by (metis bit_take_bit_iff)
  show ?thesis
    unfolding u16_from_bytes_def mask_literals
    by (rule bit_word_eqI) (auto simp: bit_simps dest: top)
qed

lemma pgn_bytes18_from_bytes:
  assumes "b2 AND NOT 0x03 = 0"
  shows "pgn_bytes18 (pgn_from_bytes18 b0 b1 b2) = [b0, b1, b2]" "pgn_is_valid (pgn_from_bytes18 b0 b1 b2)"
proof -
  have three: "(0x03 :: 'b::len word) = mask 2"
    by (simp add: mask_eq_exp_minus_1)
  have high: "k < 2" if "bit b2 k" for k
  proof (rule ccontr)
    assume "\<not> k < 2"
    then have "bit (b2 AND NOT 0x03) k"
      using that bit_u8 [OF that] unfolding three by (simp add: bit_simps)
    then show False
      using assms by simp
  qed
  show "pgn_bytes18 (pgn_from_bytes18 b0 b1 b2) = [b0, b1, b2]"
    unfolding pgn_bytes18_def pgn_from_bytes18_def mask_literals three list.inject
    by (intro conjI refl; rule bit_word_eqI) (use high in \<open>auto simp: bit_simps dest: bit_u8\<close>)
  have "take_bit 18 (pgn_from_bytes18 b0 b1 b2) = pgn_from_bytes18 b0 b1 b2"
    unfolding pgn_from_bytes18_def three
    by (rule bit_word_eqI) (auto simp: bit_simps dest: bit_u8)
  then show "pgn_is_valid (pgn_from_bytes18 b0 b1 b2)"
    by (simp add: pgn_is_valid_def take_bit_fits word_le_nat_alt)
qed

lemma u16_bytes_from_bytes:
  "u16_bytes (u16_from_bytes lo hi) = [lo, hi]" "u16_from_bytes lo hi \<le> 0xFFFF"
proof -
  show "u16_bytes (u16_from_bytes lo hi) = [lo, hi]"
    unfolding u16_bytes_def u16_from_bytes_def mask_literals list.inject
    by (intro conjI refl; rule bit_word_eqI) (auto simp: bit_simps dest: bit_u8)
  have "take_bit 16 (u16_from_bytes lo hi) = u16_from_bytes lo hi"
    unfolding u16_from_bytes_def by (rule bit_word_eqI) (auto simp: bit_simps dest: bit_u8)
  then show "u16_from_bytes lo hi \<le> 0xFFFF"
    by (simp add: take_bit_fits word_le_nat_alt)
qed

lemma single_flag:
  fixes f :: u8
  shows "(if f AND 0x04 \<noteq> 0 then 0x04 else 0) = f AND 0x04" "(if f AND 0x08 \<noteq> 0 then 0x08 else 0) = f AND 0x08"
    "(if f AND 0x10 \<noteq> 0 then 0x10 else 0) = f AND 0x10" "(if f AND 0x20 \<noteq> 0 then 0x20 else 0) = f AND 0x20"
proof -
  have one: "(if f AND 2 ^ n \<noteq> 0 then 2 ^ n else 0) = f AND 2 ^ n" for n
    by (cases "bit f n") (auto simp: and_exp_eq_0_iff_not_bit bit_simps intro!: bit_word_eqI)
  show "(if f AND 0x04 \<noteq> 0 then 0x04 else 0) = f AND 0x04" using one [of 2] by (simp split: if_splits)
  show "(if f AND 0x08 \<noteq> 0 then 0x08 else 0) = f AND 0x08" using one [of 3] by (simp split: if_splits)
  show "(if f AND 0x10 \<noteq> 0 then 0x10 else 0) = f AND 0x10" using one [of 4] by (simp split: if_splits)
  show "(if f AND 0x20 \<noteq> 0 then 0x20 else 0) = f AND 0x20" using one [of 5] by (simp split: if_splits)
qed

lemma rule_flags_facts:
  "rule_flags r AND 0xC0 = 0" "rule_flags r AND 0x03 = forward_policy_as_u8 (rl_policy r)"
  "rule_flags r AND 0x04 \<noteq> 0 \<longleftrightarrow> rl_bidirectional r" "rule_flags r AND 0x08 \<noteq> 0 \<longleftrightarrow> rl_persistent r"
  "rule_flags r AND 0x10 \<noteq> 0 \<longleftrightarrow> rl_source_name r \<noteq> None"
  "rule_flags r AND 0x20 \<noteq> 0 \<longleftrightarrow> rl_destination_name r \<noteq> None"
  by (auto simp: rule_flags_def forward_policy_as_u8_def split: forward_policy.splits)

lemma flags_as_parts:
  fixes f :: u8
  assumes "f AND 0xC0 = 0"
  shows "(f AND 0x03) AND 0x03 OR (f AND 0x04) OR (f AND 0x08) OR (f AND 0x10) OR (f AND 0x20) = f"
proof -
  have "f AND mask 8 = f"
    by (rule bit_word_eqI) (auto simp: bit_simps)
  then have "f = f AND (0xC0 OR 0x03 OR 0x04 OR 0x08 OR 0x10 OR 0x20)"
    by (simp add: mask_eq_exp_minus_1)
  also have "\<dots> = (f AND 0x03) OR (f AND 0x04) OR (f AND 0x08) OR (f AND 0x10) OR (f AND 0x20)"
    unfolding bit.conj_disj_distrib assms by simp
  finally show ?thesis
    by (simp add: and.assoc)
qed

lemma length_name_field_bytes [simp]: "length (name_field_bytes nm) = 8"
  by (simp add: name_field_bytes_def split: option.splits)

lemma optional_name_of_bytes:
  "optional_name (nm \<noteq> None) (name_field_bytes nm) = Some nm"
  by (auto simp: optional_name_def name_field_bytes_def split: option.splits)

lemma bytes_of_optional_name:
  assumes got: "optional_name present field = Some nm" and len: "length field = 8"
    and pad: "\<not> (\<not> present \<and> list_ex (\<lambda>b. b \<noteq> 0xFF) field)"
  shows "name_field_bytes nm = field \<and> (nm \<noteq> None \<longleftrightarrow> present)"
proof (cases present)
  case True
  then obtain n where "nm = Some n" "name_from_bytes field = Some n"
    using got by (auto simp: optional_name_def)
  with True show ?thesis
    by (simp add: name_field_bytes_def name_from_bytes_eq_Some)
next
  case False
  then have "field = replicate 8 0xFF"
    using pad len by (intro replicate_eqI) (auto simp: list_ex_iff)
  with False got show ?thesis
    by (simp add: optional_name_def name_field_bytes_def)
qed

section \<open>The stored form of a filter rule\<close>

lemma rule_decode_stored:
  assumes "length s = 8" "length d = 8"
  shows "rule_decode ([b0, b1, b2, f] @ s @ d @ [lo, hi]) =
     (if b2 AND NOT 0x03 \<noteq> 0 then Some (Inl (error_invalid_data ''filter rule PGN high bits are reserved''))
      else if f AND 0xC0 \<noteq> 0 then Some (Inl (error_invalid_data ''filter rule flags contain reserved bits''))
      else case forward_policy_try_from_u8 (f AND 0x03) of
        None \<Rightarrow> Some (Inl (error_invalid_data ''filter rule policy is reserved''))
      | Some policy \<Rightarrow>
          if f AND 0x10 = 0 \<and> list_ex (\<lambda>b. b \<noteq> 0xFF) s
          then Some (Inl (error_invalid_data ''filter rule absent source NAME must be padded with 0xFF''))
          else if f AND 0x20 = 0 \<and> list_ex (\<lambda>b. b \<noteq> 0xFF) d
          then Some (Inl (error_invalid_data ''filter rule absent destination NAME must be padded with 0xFF''))
          else do {
            source_name \<leftarrow> optional_name (f AND 0x10 \<noteq> 0) s;
            destination_name \<leftarrow> optional_name (f AND 0x20 \<noteq> 0) d;
            Some (Inr \<lparr>rl_pgn = pgn_from_bytes18 b0 b1 b2, rl_policy = policy, rl_bidirectional = (f AND 0x04 \<noteq> 0),
              rl_source_name = source_name, rl_destination_name = destination_name,
              rl_max_frequency_ms = u16_from_bytes lo hi,
              rl_last_forward_time_ms = None, rl_persistent = (f AND 0x08 \<noteq> 0)\<rparr>)
          })"
proof -
  define data where "data = [b0, b1, b2, f] @ s @ d @ [lo, hi]"
  have "length data = 22" "data ! 0 = b0" "data ! 1 = b1" "data ! 2 = b2" "data ! 3 = f"
    "take 8 (drop 4 data) = s" "take 8 (drop 12 data) = d"
    using assms by (simp_all add: data_def)
  moreover have "data ! 20 = lo" "data ! 21 = hi"
    using assms by (simp_all add: data_def nth_append nth_Cons')
  ultimately show ?thesis
    unfolding data_def [symmetric] rule_decode_def Let_def by (simp only: simp_thms if_True if_False)
qed

lemma stored_rule_shape:
  assumes "length data = 22"
  obtains b0 b1 b2 f s d lo hi where "data = [b0, b1, b2, f] @ s @ d @ [lo, hi]" "length s = 8" "length d = 8"
proof -
  obtain b0 b1 b2 f rest where head: "data = b0 # b1 # b2 # f # rest" and rest: "length rest = 18"
    using assms by (auto simp: length_Suc_conv eval_nat_numeral)
  have "length (drop 16 rest) = Suc (Suc 0)"
    using rest by simp
  then obtain lo hi where tail: "drop 16 rest = [lo, hi]"
    unfolding length_Suc_conv by auto
  have "rest = take 8 rest @ take 8 (drop 8 rest) @ drop 16 rest"
    using append_take_drop_id [of 8 rest] append_take_drop_id [of 8 "drop 8 rest"] by simp
  then show thesis
    using that [of b0 b1 b2 f "take 8 rest" "take 8 (drop 8 rest)" lo hi] head rest tail by simp
qed

lemma rule_decode_encoded:
  assumes "rule_encode r = Inr bs"
  shows "rule_decode bs = Some (Inr (r\<lparr>rl_last_forward_time_ms := None\<rparr>))"
proof -
  have valid: "pgn_is_valid (rl_pgn r)" "rl_max_frequency_ms r \<le> 0xFFFF"
    and bs: "bs = [ucast (rl_pgn r AND 0xFF), ucast (drop_bit 8 (rl_pgn r) AND 0xFF),
        ucast (drop_bit 16 (rl_pgn r) AND 0x03), rule_flags r]
      @ name_field_bytes (rl_source_name r) @ name_field_bytes (rl_destination_name r)
      @ [ucast (rl_max_frequency_ms r AND 0xFF), ucast (drop_bit 8 (rl_max_frequency_ms r) AND 0xFF)]"
    using assms by (auto simp: rule_encode_def pgn_bytes18_def u16_bytes_def not_less split: if_splits)
  have low: "(ucast (drop_bit 16 (rl_pgn r) AND 0x03) :: u8) AND NOT 0x03 = 0"
    by (rule bit_word_eqI) (auto simp: bit_simps)
  have pad: "nm = None \<longrightarrow> \<not> list_ex (\<lambda>b. b \<noteq> 0xFF) (name_field_bytes nm)" for nm
    by (auto simp: name_field_bytes_def list_ex_iff)
  have name: "optional_name (rule_flags r AND 0x10 \<noteq> 0) (name_field_bytes (rl_source_name r)) = Some (rl_source_name r)"
    "optional_name (rule_flags r AND 0x20 \<noteq> 0) (name_field_bytes (rl_destination_name r)) = Some (rl_destination_name r)"
    unfolding rule_flags_facts by (rule optional_name_of_bytes)+
  have absent: "\<not> (rule_flags r AND 0x10 = 0 \<and> list_ex (\<lambda>b. b \<noteq> 0xFF) (name_field_bytes (rl_source_name r)))"
    "\<not> (rule_flags r AND 0x20 = 0 \<and> list_ex (\<lambda>b. b \<noteq> 0xFF) (name_field_bytes (rl_destination_name r)))"
    using pad rule_flags_facts(5,6) [of r] by auto
  show ?thesis
    unfolding bs rule_decode_stored [OF length_name_field_bytes length_name_field_bytes] low absent
      rule_flags_facts(1-4) policy_wire.decode_encode
    by (simp add: name absent pgn_from_pgn_bytes18 [OF valid(1)] u16_from_u16_bytes [OF valid(2)])
qed

lemma rule_encode_decoded:
  assumes got: "rule_decode bs = Some (Inr r)"
  shows "rule_encode r = Inr bs \<and> rl_last_forward_time_ms r = None"
proof -
  have "length bs = 22"
    using got by (auto simp: rule_decode_def split: if_splits)
  then obtain b0 b1 b2 f s d lo hi where bs: "bs = [b0, b1, b2, f] @ s @ d @ [lo, hi]"
    and len: "length s = 8" "length d = 8"
    by (rule stored_rule_shape)
  note dec = got [unfolded bs rule_decode_stored [OF len]]
  have high: "b2 AND NOT 0x03 = 0"
    by (rule ccontr) (use dec in simp)
  have flags: "f AND 0xC0 = 0"
    by (rule ccontr) (use dec high in simp)
  obtain policy where policy: "forward_policy_try_from_u8 (f AND 0x03) = Some policy"
    using dec high flags by (cases "forward_policy_try_from_u8 (f AND 0x03)") simp_all
  note dec' = dec [unfolded high flags policy, simplified]
  have pad1: "\<not> (f AND 0x10 = 0 \<and> list_ex (\<lambda>b. b \<noteq> 0xFF) s)"
    by (rule notI) (use dec' in simp)
  have pad2: "\<not> (f AND 0x20 = 0 \<and> list_ex (\<lambda>b. b \<noteq> 0xFF) d)"
    by (rule notI) (use dec' pad1 in simp)
  obtain sn dn where names: "optional_name (f AND 0x10 \<noteq> 0) s = Some sn" "optional_name (f AND 0x20 \<noteq> 0) d = Some dn"
    and r: "r = \<lparr>rl_pgn = pgn_from_bytes18 b0 b1 b2, rl_policy = policy, rl_bidirectional = (f AND 0x04 \<noteq> 0),
      rl_source_name = sn, rl_destination_name = dn, rl_max_frequency_ms = u16_from_bytes lo hi,
      rl_last_forward_time_ms = None, rl_persistent = (f AND 0x08 \<noteq> 0)\<rparr>"
    using dec' pad1 pad2 by (auto simp: bind_eq_Some_conv)
  have fields: "name_field_bytes sn = s \<and> (sn \<noteq> None \<longleftrightarrow> f AND 0x10 \<noteq> 0)"
    "name_field_bytes dn = d \<and> (dn \<noteq> None \<longleftrightarrow> f AND 0x20 \<noteq> 0)"
    using bytes_of_optional_name [OF names(1) len(1)] bytes_of_optional_name [OF names(2) len(2)] pad1 pad2 by simp_all
  have "rule_flags r = f"
    unfolding rule_flags_def r filter_rule.select_convs policy_wire.encode_decode [OF policy]
      fields(1) [THEN conjunct2] fields(2) [THEN conjunct2] single_flag
    by (rule flags_as_parts [OF flags])
  then show ?thesis
    using fields pgn_bytes18_from_bytes [OF high, of b0 b1] u16_bytes_from_bytes [of lo hi]
    by (simp add: rule_encode_def r bs not_less)
qed

lemma rule_decode_returns: "rule_decode bs \<noteq> None"
proof (cases "length bs = 22")
  case True
  have name: "\<exists>nm. optional_name b xs = Some nm" if "length xs = 8" for b xs
    using that by (simp add: optional_name_def name_from_bytes_def)
  from True obtain b0 b1 b2 f s d lo hi where bs: "bs = [b0, b1, b2, f] @ s @ d @ [lo, hi]"
    and len: "length s = 8" "length d = 8"
    by (rule stored_rule_shape)
  obtain sn dn where names: "optional_name (f AND 0x10 \<noteq> 0) s = Some sn" "optional_name (f AND 0x20 \<noteq> 0) d = Some dn"
    using name len by blast
  show ?thesis
    unfolding bs rule_decode_stored [OF len] names by (simp split: option.split)
qed (simp add: rule_decode_def)

text \<open>C38: a filter rule's stored form is canonical. Decoding never panics, and it yields a rule
  exactly on the bytes that rule encodes to: every rule that can be stored is read back as it was (its
  rate-limit clock cleared), and no second byte string is accepted for the same rule.\<close>

theorem filter_rule_stored_form:
  "rule_decode bs \<noteq> None \<and>
   (rule_decode bs = Some (Inr r) \<longleftrightarrow> rule_encode r = Inr bs \<and> rl_last_forward_time_ms r = None)"
  using rule_decode_returns rule_encode_decoded rule_decode_encoded [of r bs] by auto

section \<open>Round trips of the other messages\<close>

interpretation failure_reason_wire: wire_enum failure_reason_as_u8 failure_reason_from_u8
  by unfold_locales (auto simp: failure_reason_as_u8_def failure_reason_from_u8_def
      split: connection_failure_reason.splits if_splits)

interpretation ack_control_wire: wire_enum ack_control_as_u8 ack_control_try_from_u8
  by unfold_locales (auto simp: ack_control_as_u8_def ack_control_try_from_u8_def split: ack_control.splits if_splits)

lemma port_pair:
  fixes hi lo :: u8
  assumes "hi \<le> 15" "lo \<le> 15"
  shows "drop_bit 4 (push_bit 4 hi) OR drop_bit 4 lo = hi" "(push_bit 4 hi OR lo) AND 0x0F = lo" "lo AND 0x0F = lo"
proof -
  have "take_bit 4 hi = hi" "take_bit 4 lo = lo"
    using assms by (simp_all add: take_bit_fits word_le_nat_alt)
  then have low: "bit hi k \<Longrightarrow> k < 4" "bit lo k \<Longrightarrow> k < 4" for k
    by (metis bit_take_bit_iff)+
  have f: "(0x0F :: u8) = mask 4"
    by (simp add: mask_eq_exp_minus_1)
  show "drop_bit 4 (push_bit 4 hi) OR drop_bit 4 lo = hi"
    by (rule bit_word_eqI) (auto simp: bit_simps dest: low)
  show "(push_bit 4 hi OR lo) AND 0x0F = lo" "lo AND 0x0F = lo"
    unfolding f by (rule bit_word_eqI, auto simp: bit_simps dest: low)+
qed

lemma connection_request_round_trip:
  "connection_request_encode r = Inr bs \<Longrightarrow> connection_request_decode bs = Some r"
  by (auto simp: connection_request_encode_def connection_request_decode_def not_less port_pair
      niu_function_wire.decode_encode split: if_splits)

lemma connection_response_round_trip:
  "connection_response_encode r = Inr bs \<Longrightarrow> connection_response_decode bs = Some r"
  by (auto simp: connection_response_encode_def connection_response_decode_def not_less port_pair
      niu_function_wire.decode_encode failure_reason_wire.decode_encode split: if_splits)

lemma high_bits_clear: "(ucast (drop_bit 16 (p :: u32) AND 0x03) :: u8) AND 0xFC = 0"
proof -
  have high: "(0xFC :: u8) = NOT (mask 2)" and low: "(0x03 :: u32) = mask 2"
    by (simp_all add: mask_eq_exp_minus_1)
  show ?thesis
    unfolding high low by (rule bit_word_eqI) (auto simp: bit_simps)
qed

lemma decode_encoded_pgns: "encode_pgns ps = Inr bs \<Longrightarrow> decode_pgns bs = Some ps \<and> length bs = 3 * length ps"
proof (induction ps arbitrary: bs)
  case (Cons p ps)
  then obtain rest where p: "pgn_is_valid p" and rest: "encode_pgns ps = Inr rest" and bs: "bs = pgn_bytes18 p @ rest"
    by (auto split: if_splits sum.splits)
  show ?case
    using Cons.IH [OF rest] p by (simp add: bs pgn_bytes18_def high_bits_clear pgn_from_pgn_bytes18 [OF p])
qed simp

lemma filter_db_round_trip: "filter_db_encode d = Inr bs \<Longrightarrow> filter_db_decode bs = Some d"
  using decode_encoded_pgns [of "fd_entries d"]
  by (auto simp: filter_db_encode_def filter_db_decode_def not_less port_pair split: if_splits sum.splits)

lemma topology_entries_round_trip:
  "topology_entries (length es) (concat (map (\<lambda>e. sa_address e # to_le_bytes 8 (sa_name e)) es)) = es"
  by (induction es) simp_all

lemma length_topology_entries:
  "length (concat (map (\<lambda>e. sa_address e # to_le_bytes 8 (sa_name e)) es)) = length es * 9"
  by (induction es) simp_all

lemma topology_response_round_trip:
  assumes "topology_encode (topology_response port es) = Inr bs"
  shows "topology_decode bs = Some (topology_response port es)"
proof -
  have port: "port \<le> 14" and n: "length es \<le> 255"
    and bs: "bs = [67, 0xF0 OR (port AND 0x0F), of_nat (length es)]
      @ concat (map (\<lambda>e. sa_address e # to_le_bytes 8 (sa_name e)) es)"
    using assms by (auto simp: topology_encode_def topology_response_def Let_def niu_function_as_u8_def not_less split: if_splits)
  have "(push_bit 4 15 OR port :: u8) = 0xF0 OR port"
    by simp
  then have "port AND 0x0F = port" "(0xF0 OR port) AND 0x0F = port"
    using port_pair [of 15 port] port by (auto simp: word_le_nat_alt)
  moreover have "(0xF0 OR port) AND 0xF0 = (0xF0 :: u8)"
    by (simp add: bit.conj_disj_distrib2 and.commute)
  moreover have "unat (of_nat (length es) :: u8) = length es"
    using n by (simp add: unat_of_nat take_bit_nat_eq_self)
  ultimately show ?thesis
    using port length_topology_entries [of es] topology_entries_round_trip [of es]
    by (simp add: bs topology_decode_def niu_function_try_from_u8_def niu_function_table_def Let_def index_get_def
        not_less)
qed

end
