(* ===== verification/Niu_Filter.thy ===== *)
theory Niu_Filter
  imports Niu_Codec
begin

text \<open>
  The network interconnection unit itself (\<open>Niu\<close> in src/src/net/niu/niu_router_policy.rs): the filter
  table with its rate limits, the loop guard that remembers what was forwarded, and the control
  messages that change the table. An event of the source is the list of the values it was given.
\<close>

section \<open>State\<close>

datatype side = Tractor | Implement

definition side_other :: "side \<Rightarrow> side" where
  "side_other s = (case s of Tractor \<Rightarrow> Implement | Implement \<Rightarrow> Tractor)"

record frame_signature =
  sg_raw_id :: u32
  sg_length :: u8
  sg_data :: bytes

definition signature_from_frame :: "frame \<Rightarrow> frame_signature" where
  "signature_from_frame f =
     (let len = min (fr_length f) 8; n = unat len
      in \<lparr>sg_raw_id = raw (fr_id f), sg_length = len, sg_data = take n (fr_data f) @ replicate (8 - n) 0\<rparr>)"

record recent_forward =
  rf_target_side :: side
  rf_signature :: frame_signature
  rf_forwarded_at_ms :: u32

datatype niu_state = NiuInactive | NiuActive | NiuError

definition DEFAULT_LOOP_GUARD_WINDOW_MS :: u32 where "DEFAULT_LOOP_GUARD_WINDOW_MS = 250"
definition DEFAULT_LOOP_GUARD_MAX_RECENT_FORWARDS :: nat where "DEFAULT_LOOP_GUARD_MAX_RECENT_FORWARDS = 256"

record niu_config =
  nc_name :: string
  nc_forward_global_by_default :: bool
  nc_forward_specific_by_default :: bool
  nc_filter_mode :: niu_filter_mode
  nc_loop_guard_max_recent_forwards :: nat
  nc_loop_guard_window_ms :: u32
  nc_persistence_file :: "string option"

definition niu_config_default :: niu_config where
  "niu_config_default = \<lparr>nc_name = ''NIU'', nc_forward_global_by_default = True,
     nc_forward_specific_by_default = True, nc_filter_mode = BlockSpecific,
     nc_loop_guard_max_recent_forwards = DEFAULT_LOOP_GUARD_MAX_RECENT_FORWARDS,
     nc_loop_guard_window_ms = DEFAULT_LOOP_GUARD_WINDOW_MS, nc_persistence_file = None\<rparr>"

record niu =
  nu_config :: niu_config
  nu_filters :: "filter_rule list"
  nu_observed_names :: "side \<times> address \<rightharpoonup> device_name"
  nu_recent_forwards :: "recent_forward list"
  nu_state :: niu_state
  nu_forwarded_count :: u32
  nu_blocked_count :: u32
  nu_rate_limited_count :: u32
  nu_on_forwarded :: "(frame \<times> side) list"
  nu_on_blocked :: "(frame \<times> side) list"
  nu_on_monitored :: "(frame \<times> side) list"
  nu_on_niu_message :: "(niu_network_msg \<times> address) list"

definition niu_new :: "niu_config \<Rightarrow> niu" where
  "niu_new cfg = \<lparr>nu_config = cfg, nu_filters = [], nu_observed_names = Map.empty, nu_recent_forwards = [],
     nu_state = NiuInactive, nu_forwarded_count = 0, nu_blocked_count = 0, nu_rate_limited_count = 0,
     nu_on_forwarded = [], nu_on_blocked = [], nu_on_monitored = [], nu_on_niu_message = []\<rparr>"

definition add_filter :: "filter_rule \<Rightarrow> niu \<Rightarrow> niu" where
  "add_filter r u = u\<lparr>nu_filters := nu_filters u @ [r]\<rparr>"

definition allow_pgn :: "pgn \<Rightarrow> bool \<Rightarrow> niu \<Rightarrow> niu" where
  "allow_pgn p bidirectional = add_filter (rule_new p Allow bidirectional)"

definition block_pgn :: "pgn \<Rightarrow> bool \<Rightarrow> niu \<Rightarrow> niu" where
  "block_pgn p bidirectional = add_filter (rule_new p Block bidirectional)"

definition monitor_pgn :: "pgn \<Rightarrow> bool \<Rightarrow> niu \<Rightarrow> niu" where
  "monitor_pgn p bidirectional = add_filter (rule_new p Monitor bidirectional)"

definition allow_pgn_rate_limited :: "pgn \<Rightarrow> u32 \<Rightarrow> bool \<Rightarrow> niu \<Rightarrow> niu" where
  "allow_pgn_rate_limited p min_interval_ms bidirectional =
     add_filter (rule_with_max_frequency_ms min_interval_ms (rule_new p Allow bidirectional))"

definition clear_filters :: "niu \<Rightarrow> niu" where
  "clear_filters u = u\<lparr>nu_filters := filter rl_persistent (nu_filters u)\<rparr>"

definition clear_observed_names :: "niu \<Rightarrow> niu" where
  "clear_observed_names u = u\<lparr>nu_observed_names := Map.empty\<rparr>"

definition clear_loop_guard :: "niu \<Rightarrow> niu" where
  "clear_loop_guard u = u\<lparr>nu_recent_forwards := []\<rparr>"

definition observed_name :: "niu \<Rightarrow> side \<Rightarrow> address \<Rightarrow> device_name option" where
  "observed_name u s a = nu_observed_names u (s, a)"

definition set_filter_mode :: "niu_filter_mode \<Rightarrow> niu \<Rightarrow> niu" where
  "set_filter_mode m u =
     (let pass = (m = BlockSpecific)
      in u\<lparr>nu_config := (nu_config u)\<lparr>nc_filter_mode := m, nc_forward_global_by_default := pass,
            nc_forward_specific_by_default := pass\<rparr>\<rparr>)"

definition niu_start :: "niu \<Rightarrow> niu" where
  "niu_start u = u\<lparr>nu_state := NiuActive\<rparr>"

definition niu_stop :: "niu \<Rightarrow> niu" where
  "niu_stop u = u\<lparr>nu_state := NiuInactive\<rparr>"

section \<open>The loop guard\<close>

definition guard_on :: "niu \<Rightarrow> bool" where
  "guard_on u \<longleftrightarrow> nc_loop_guard_window_ms (nu_config u) \<noteq> 0 \<and> nc_loop_guard_max_recent_forwards (nu_config u) \<noteq> 0"

definition expire_forwards :: "u32 \<Rightarrow> niu \<Rightarrow> niu" where
  "expire_forwards now u = u\<lparr>nu_recent_forwards :=
     filter (\<lambda>e. now - rf_forwarded_at_ms e \<le> nc_loop_guard_window_ms (nu_config u)) (nu_recent_forwards u)\<rparr>"

definition is_loop_echo :: "frame \<Rightarrow> side \<Rightarrow> u32 \<Rightarrow> niu \<Rightarrow> niu \<times> bool" where
  "is_loop_echo f origin now u =
     (if \<not> guard_on u then (u, False)
      else
        let u1 = expire_forwards now u; sig = signature_from_frame f
        in (u1, list_ex (\<lambda>e. rf_target_side e = origin \<and> rf_signature e = sig) (nu_recent_forwards u1)))"

text \<open>The entry of a frame already remembered is refreshed where it stands; \<open>None\<close> when there is none.\<close>

primrec refresh_forward :: "side \<Rightarrow> frame_signature \<Rightarrow> u32 \<Rightarrow> recent_forward list \<Rightarrow> recent_forward list option" where
  "refresh_forward s sig now [] = None"
| "refresh_forward s sig now (e # es) =
     (if rf_target_side e = s \<and> rf_signature e = sig then Some (e\<lparr>rf_forwarded_at_ms := now\<rparr> # es)
      else map_option ((#) e) (refresh_forward s sig now es))"

definition remember_forwarded_frame :: "frame \<Rightarrow> side \<Rightarrow> u32 \<Rightarrow> niu \<Rightarrow> niu" where
  "remember_forwarded_frame f target now u =
     (if \<not> guard_on u then u
      else
        let u1 = expire_forwards now u; es = nu_recent_forwards u1; sig = signature_from_frame f;
            capacity = nc_loop_guard_max_recent_forwards (nu_config u)
        in case refresh_forward target sig now es of
             Some es' \<Rightarrow> u1\<lparr>nu_recent_forwards := es'\<rparr>
           | None \<Rightarrow> u1\<lparr>nu_recent_forwards := drop (Suc (length es) - capacity) es
                 @ [\<lparr>rf_target_side = target, rf_signature = sig, rf_forwarded_at_ms = now\<rparr>]\<rparr>)"

section \<open>Filtering\<close>

definition rule_matches :: "pgn \<Rightarrow> side \<Rightarrow> device_name option \<Rightarrow> device_name option \<Rightarrow> filter_rule \<Rightarrow> bool" where
  "rule_matches p origin source_name destination_name r \<longleftrightarrow>
     (rl_pgn r = 0 \<or> rl_pgn r = p) \<and> (rl_bidirectional r \<or> origin = Tractor)
     \<and> (rl_source_name r = None \<or> source_name = rl_source_name r)
     \<and> (rl_destination_name r = None \<or> destination_name = rl_destination_name r)"

text \<open>The first matching rule decides; its last forwarding time moves unless its rate limit holds the frame back.\<close>

primrec resolve_rules :: "(filter_rule \<Rightarrow> bool) \<Rightarrow> u32 \<Rightarrow> filter_rule list \<Rightarrow> filter_rule list \<times> (forward_policy \<times> bool) option" where
  "resolve_rules matches now [] = ([], None)"
| "resolve_rules matches now (r # rs) =
     (if \<not> matches r then (let (rs', d) = resolve_rules matches now rs in (r # rs', d))
      else if 0 < rl_max_frequency_ms r
      then case rl_last_forward_time_ms r of
          Some prev \<Rightarrow>
            if saturating_sub now prev < rl_max_frequency_ms r then (r # rs, Some (rl_policy r, True))
            else (r\<lparr>rl_last_forward_time_ms := Some now\<rparr> # rs, Some (rl_policy r, False))
        | None \<Rightarrow> (r\<lparr>rl_last_forward_time_ms := Some now\<rparr> # rs, Some (rl_policy r, False))
      else (r # rs, Some (rl_policy r, False)))"

definition default_policy :: "niu_config \<Rightarrow> bool \<Rightarrow> forward_policy" where
  "default_policy cfg is_broadcast =
     (case nc_filter_mode cfg of
        PassSpecific \<Rightarrow> Block
      | BlockSpecific \<Rightarrow>
          if (if is_broadcast then nc_forward_global_by_default cfg else nc_forward_specific_by_default cfg)
          then Allow else Block)"

definition resolve_policy :: "frame \<Rightarrow> side \<Rightarrow> u32 \<Rightarrow> niu \<Rightarrow> niu \<times> forward_policy \<times> bool" where
  "resolve_policy f origin now u =
     (let is_broadcast = frame_is_broadcast f;
          source_name = observed_name u origin (frame_source f);
          destination_name = (if is_broadcast then None else observed_name u origin (frame_destination f));
          (rs, decision) = resolve_rules (rule_matches (frame_pgn f) origin source_name destination_name) now (nu_filters u)
      in (u\<lparr>nu_filters := rs\<rparr>,
          case decision of Some d \<Rightarrow> d | None \<Rightarrow> (default_policy (nu_config u) is_broadcast, False)))"

definition observe_address_claim :: "frame \<Rightarrow> side \<Rightarrow> niu \<Rightarrow> niu" where
  "observe_address_claim f origin u =
     (if frame_pgn f \<noteq> PGN_ADDRESS_CLAIMED \<or> frame_source f = NULL_ADDRESS then u
      else case name_from_bytes (frame_payload f) of
        None \<Rightarrow> u
      | Some nm \<Rightarrow> u\<lparr>nu_observed_names := (nu_observed_names u)((origin, frame_source f) \<mapsto> nm)\<rparr>)"

definition count_blocked :: "frame \<Rightarrow> side \<Rightarrow> niu \<Rightarrow> niu" where
  "count_blocked f origin u = u\<lparr>nu_blocked_count := saturating_add (nu_blocked_count u) 1,
     nu_on_blocked := nu_on_blocked u @ [(f, origin)]\<rparr>"

definition count_forwarded :: "frame \<Rightarrow> side \<Rightarrow> niu \<Rightarrow> niu" where
  "count_forwarded f origin u = u\<lparr>nu_forwarded_count := saturating_add (nu_forwarded_count u) 1,
     nu_on_forwarded := nu_on_forwarded u @ [(f, origin)]\<rparr>"

definition process_frame_inner :: "frame \<Rightarrow> side \<Rightarrow> u32 \<Rightarrow> bool \<Rightarrow> niu \<Rightarrow> niu \<times> frame option" where
  "process_frame_inner f origin now remember_on_forward u =
     (if nu_state u \<noteq> NiuActive then (u, None)
      else if frame_source f = BROADCAST_ADDRESS
              \<or> frame_source f = NULL_ADDRESS \<and> frame_pgn f \<noteq> PGN_ADDRESS_CLAIMED
      then (count_blocked f origin u, None)
      else
        let (u1, echo) = is_loop_echo f origin now u
        in if echo then (count_blocked f origin u1, None)
           else
             let (u2, policy, rate_limited) = resolve_policy f origin now (observe_address_claim f origin u1);
                 remember = (\<lambda>v. if remember_on_forward then remember_forwarded_frame f (side_other origin) now v else v)
             in if rate_limited
                then ((count_blocked f origin u2)
                        \<lparr>nu_rate_limited_count := saturating_add (nu_rate_limited_count u2) 1\<rparr>, None)
                else case policy of
                    Allow \<Rightarrow> (remember (count_forwarded f origin u2), Some f)
                  | Block \<Rightarrow> (count_blocked f origin u2, None)
                  | Monitor \<Rightarrow>
                      (remember ((count_forwarded f origin u2)
                         \<lparr>nu_on_monitored := nu_on_monitored u2 @ [(f, origin)]\<rparr>), Some f))"

definition niu_process_frame :: "frame \<Rightarrow> side \<Rightarrow> u32 \<Rightarrow> niu \<Rightarrow> niu \<times> frame option" where
  "niu_process_frame f origin now u = process_frame_inner f origin now True u"

section \<open>Control messages\<close>

definition PGN_NIU_NETWORK_MSG :: pgn where "PGN_NIU_NETWORK_MSG = 0xED00"

definition niu_acknowledgment :: "bool \<Rightarrow> message \<Rightarrow> message" where
  "niu_acknowledgment positive request =
     (let ack = ack_for (if positive then PositiveAck else NegativeAck) PGN_NIU_NETWORK_MSG (msg_source request);
          payload = (case ack_encode ack of Inr bs \<Rightarrow> bs | Inl _ \<Rightarrow> replicate 8 0xFF)
      in message_with_addressing PGN_ACKNOWLEDGMENT payload (msg_destination request) (msg_source request) Default)"

definition emit_niu_message :: "niu_network_msg \<Rightarrow> address \<Rightarrow> niu \<Rightarrow> niu" where
  "emit_niu_message m a u = u\<lparr>nu_on_niu_message := nu_on_niu_message u @ [(m, a)]\<rparr>"

primrec remove_first_pgn :: "pgn \<Rightarrow> filter_rule list \<Rightarrow> filter_rule list" where
  "remove_first_pgn p [] = []"
| "remove_first_pgn p (r # rs) = (if rl_pgn r = p then rs else r # remove_first_pgn p rs)"

definition handle_niu_message :: "message \<Rightarrow> niu \<Rightarrow> niu \<times> message option" where
  "handle_niu_message m u =
     (if msg_pgn m \<noteq> PGN_NIU_NETWORK_MSG then (u, None)
      else if \<not> message_has_usable_source m \<or> msg_destination m = NULL_ADDRESS \<or> msg_destination m = BROADCAST_ADDRESS
      then (u, None)
      else case niu_msg_decode (msg_data m) of
        None \<Rightarrow> (u, Some (niu_acknowledgment False m))
      | Some nm \<Rightarrow>
          if nm_function nm = AddFilterEntry
          then if nm_filter_pgn nm = 0 then (u, Some (niu_acknowledgment False m))
               else
                 let policy = (case nc_filter_mode (nu_config u) of BlockSpecific \<Rightarrow> Block | PassSpecific \<Rightarrow> Allow)
                 in (emit_niu_message nm (msg_source m) (add_filter (rule_new (nm_filter_pgn nm) policy True) u),
                     Some (niu_acknowledgment True m))
          else if nm_function nm = DeleteFilterEntry
          then (emit_niu_message nm (msg_source m) (u\<lparr>nu_filters := remove_first_pgn (nm_filter_pgn nm) (nu_filters u)\<rparr>),
                Some (niu_acknowledgment True m))
          else if nm_function nm = ClearFilterEntry
          then (emit_niu_message nm (msg_source m) (clear_filters u), Some (niu_acknowledgment True m))
          else if nm_function nm = RequestGeneralParametrics
          then (emit_niu_message (niu_msg_default\<lparr>nm_function := GeneralParametricsResponse,
                   nm_port_number := nm_port_number nm, nm_msgs_forwarded := nu_forwarded_count u,
                   nm_msgs_blocked := nu_blocked_count u\<rparr>) (msg_source m) u, Some (niu_acknowledgment True m))
          else (emit_niu_message nm (msg_source m) u, Some (niu_acknowledgment True m)))"

section \<open>Runs of the filter\<close>

text \<open>Frames arriving one after the other, each with its side and time; the answers are collected in order.\<close>

primrec niu_frames :: "(frame \<times> side \<times> u32) list \<Rightarrow> niu \<Rightarrow> niu \<times> frame option list" where
  "niu_frames [] u = (u, [])"
| "niu_frames (x # xs) u =
     (case x of (f, origin, now) \<Rightarrow>
        let (u1, out) = niu_process_frame f origin now u; (u2, outs) = niu_frames xs u1
        in (u2, out # outs))"

lemma side_other_neq [simp]: "side_other (side_other s) = s" "side_other s \<noteq> s" "s \<noteq> side_other s"
  by (cases s; simp add: side_other_def)+

lemma guard_keeps [simp]:
  "nu_config (expire_forwards now u) = nu_config u" "nu_state (expire_forwards now u) = nu_state u"
  "guard_on (expire_forwards now u) = guard_on u"
  "nu_config (remember_forwarded_frame f s now u) = nu_config u"
  "nu_state (remember_forwarded_frame f s now u) = nu_state u"
  by (auto simp: expire_forwards_def guard_on_def remember_forwarded_frame_def Let_def split: option.split)

lemma observe_keeps [simp]:
  "nu_config (observe_address_claim f s u) = nu_config u" "nu_state (observe_address_claim f s u) = nu_state u"
  "nu_recent_forwards (observe_address_claim f s u) = nu_recent_forwards u"
  "nu_filters (observe_address_claim f s u) = nu_filters u"
  by (auto simp: observe_address_claim_def split: option.split)

lemma count_keeps [simp]:
  "nu_config (count_blocked f s u) = nu_config u" "nu_state (count_blocked f s u) = nu_state u"
  "nu_recent_forwards (count_blocked f s u) = nu_recent_forwards u"
  "nu_config (count_forwarded f s u) = nu_config u" "nu_state (count_forwarded f s u) = nu_state u"
  "nu_recent_forwards (count_forwarded f s u) = nu_recent_forwards u"
  by (simp_all add: count_blocked_def count_forwarded_def)

lemma resolve_policy_keeps:
  "resolve_policy f s now u = (u', d) \<Longrightarrow> \<exists>rs. u' = u\<lparr>nu_filters := rs\<rparr>"
  by (auto simp: resolve_policy_def Let_def split: prod.splits)

lemma remember_cong:
  "\<lbrakk>nu_config u = nu_config v; nu_recent_forwards u = nu_recent_forwards v\<rbrakk> \<Longrightarrow>
   nu_recent_forwards (remember_forwarded_frame f s now u) = nu_recent_forwards (remember_forwarded_frame f s now v)"
  by (simp add: remember_forwarded_frame_def guard_on_def expire_forwards_def Let_def split: option.split)

lemma expire_idem [simp]: "expire_forwards now (expire_forwards now u) = expire_forwards now u"
  by (simp add: expire_forwards_def)

lemma loop_echo_state:
  assumes "is_loop_echo f s now u = (u1, echo)"
  shows "u1 = (if guard_on u then expire_forwards now u else u)"
  using assms by (auto simp: is_loop_echo_def Let_def split: if_splits)

lemma remember_after_echo:
  assumes "is_loop_echo f s now u = (u1, echo)"
  shows "remember_forwarded_frame g t now u1 = remember_forwarded_frame g t now u"
  using loop_echo_state [OF assms] by (auto simp: remember_forwarded_frame_def Let_def)

text \<open>What one frame does to the unit: the configuration stays, a frame that passes passes unchanged and is
  remembered for the far side, and any other frame at most expires entries of the loop guard.\<close>

lemma process_frame_guard:
  assumes "niu_process_frame f origin now u = (u', out)"
  shows "nu_config u' = nu_config u \<and> nu_state u' = nu_state u \<and>
    (case out of
       None \<Rightarrow> nu_recent_forwards u' \<in> {nu_recent_forwards u, nu_recent_forwards (expire_forwards now u)}
     | Some f' \<Rightarrow> f' = f \<and> nu_state u = NiuActive \<and>
         nu_recent_forwards u' = nu_recent_forwards (remember_forwarded_frame f (side_other origin) now u))"
proof -
  obtain u1 echo where echo: "is_loop_echo f origin now u = (u1, echo)"
    by fastforce
  obtain u2 policy limited where res: "resolve_policy f origin now (observe_address_claim f origin u1) = (u2, policy, limited)"
    by (metis prod_cases3)
  obtain rs where u2: "u2 = (observe_address_claim f origin u1)\<lparr>nu_filters := rs\<rparr>"
    using resolve_policy_keeps [OF res] by blast
  have u1: "nu_config u1 = nu_config u" "nu_state u1 = nu_state u"
    "nu_recent_forwards u1 \<in> {nu_recent_forwards u, nu_recent_forwards (expire_forwards now u)}"
    using loop_echo_state [OF echo] by auto
  have kept: "nu_recent_forwards (remember_forwarded_frame f (side_other origin) now v) =
      nu_recent_forwards (remember_forwarded_frame f (side_other origin) now u)"
    if "nu_config v = nu_config u1" "nu_recent_forwards v = nu_recent_forwards u1" for v
    using remember_cong [OF that] remember_after_echo [OF echo] by simp
  show ?thesis
    using assms u1 unfolding niu_process_frame_def process_frame_inner_def echo res Let_def prod.case
    by (simp add: u2 split: if_split_asm forward_policy.split_asm; (elim conjE)?; hypsubst; simp add: kept)
qed

section \<open>What the loop guard remembers\<close>

text \<open>The frame is remembered for a side, last refreshed at most \<open>d\<close> milliseconds after \<open>t0\<close>.\<close>

definition recalled :: "side \<Rightarrow> frame_signature \<Rightarrow> u32 \<Rightarrow> u32 \<Rightarrow> niu \<Rightarrow> bool" where
  "recalled s sig t0 d u \<longleftrightarrow> list_ex (\<lambda>e. rf_target_side e = s \<and> rf_signature e = sig
     \<and> rf_forwarded_at_ms e - t0 \<le> d) (nu_recent_forwards u)"

abbreviation guard_window :: "niu \<Rightarrow> u32" where
  "guard_window u \<equiv> nc_loop_guard_window_ms (nu_config u)"

abbreviation guard_capacity :: "niu \<Rightarrow> nat" where
  "guard_capacity u \<equiv> nc_loop_guard_max_recent_forwards (nu_config u)"

lemma elapsed_between:
  fixes a t0 now :: u32
  assumes "a - t0 \<le> now - t0"
  shows "now - a \<le> now - t0"
  using assms word_sub_le [of "a - t0" "now - t0"] by (simp add: algebra_simps)

lemma recalled_expire:
  assumes "recalled s sig t0 d u" "d \<le> now - t0" "now - t0 \<le> guard_window u"
  shows "recalled s sig t0 d (expire_forwards now u)"
proof -
  obtain e where e: "e \<in> set (nu_recent_forwards u)" "rf_target_side e = s" "rf_signature e = sig"
    and at: "rf_forwarded_at_ms e - t0 \<le> d"
    using assms(1) by (auto simp: recalled_def list_ex_iff)
  have "now - rf_forwarded_at_ms e \<le> guard_window u"
    using elapsed_between [OF order_trans [OF at assms(2)]] assms(3) by simp
  with e at show ?thesis
    by (auto simp: recalled_def list_ex_iff expire_forwards_def)
qed

lemma recalled_later: "recalled s sig t0 d u \<Longrightarrow> d \<le> d' \<Longrightarrow> recalled s sig t0 d' u"
  by (auto simp: recalled_def list_ex_iff intro: order_trans)

lemma refresh_forward_shape:
  "refresh_forward s sig now es = Some es' \<Longrightarrow>
   \<exists>xs e ys. es = xs @ e # ys \<and> es' = xs @ e\<lparr>rf_forwarded_at_ms := now\<rparr> # ys \<and> rf_target_side e = s \<and> rf_signature e = sig"
proof (induction es arbitrary: es')
  case (Cons e es)
  show ?case
  proof (cases "rf_target_side e = s \<and> rf_signature e = sig")
    case True
    with Cons.prems show ?thesis by (intro exI [of _ "[]"]) auto
  next
    case False
    then obtain es1 where "refresh_forward s sig now es = Some es1" "es' = e # es1"
      using Cons.prems by auto
    with Cons.IH [of es1] show ?thesis
      by (metis append_Cons)
  qed
qed simp

lemma remember_records:
  assumes "guard_on u"
  shows "recalled s (signature_from_frame f) t0 (now - t0) (remember_forwarded_frame f s now u)"
proof -
  define es where "es = nu_recent_forwards (expire_forwards now u)"
  show ?thesis
  proof (cases "refresh_forward s (signature_from_frame f) now es")
    case (Some es')
    with assms refresh_forward_shape [OF Some] show ?thesis
      by (auto simp: remember_forwarded_frame_def recalled_def Let_def es_def [symmetric])
  qed (use assms in \<open>simp add: remember_forwarded_frame_def recalled_def Let_def es_def\<close>)
qed

lemma remember_length:
  "length (nu_recent_forwards (remember_forwarded_frame f s now u)) \<le> Suc (length (nu_recent_forwards u))"
proof (cases "guard_on u")
  case True
  define es where "es = nu_recent_forwards (expire_forwards now u)"
  have "length es \<le> length (nu_recent_forwards u)"
    by (simp add: es_def expire_forwards_def)
  then show ?thesis
    using True by (auto simp: remember_forwarded_frame_def Let_def es_def [symmetric]
        dest!: refresh_forward_shape split: option.split)
qed (simp add: remember_forwarded_frame_def)

lemma recalled_remember:
  assumes rec: "recalled s sig t0 d u" and time: "d \<le> now - t0" "now - t0 \<le> guard_window u"
    and room: "length (nu_recent_forwards u) < guard_capacity u"
  shows "recalled s sig t0 (now - t0) (remember_forwarded_frame f s' now u)"
proof (cases "guard_on u")
  case False
  then show ?thesis
    using recalled_later [OF rec time(1)] by (simp add: remember_forwarded_frame_def)
next
  case True
  define es where "es = nu_recent_forwards (expire_forwards now u)"
  have "length es \<le> length (nu_recent_forwards u)"
    by (simp add: es_def expire_forwards_def)
  then have fits: "Suc (length es) - guard_capacity u = 0"
    using room by simp
  have "recalled s sig t0 (now - t0) (expire_forwards now u)"
    using recalled_later [OF recalled_expire [OF rec time] time(1)] .
  then have es: "list_ex (\<lambda>e. rf_target_side e = s \<and> rf_signature e = sig \<and> rf_forwarded_at_ms e - t0 \<le> now - t0) es"
    by (simp add: recalled_def es_def)
  show ?thesis
  proof (cases "refresh_forward s' (signature_from_frame f) now es")
    case None
    with True fits es show ?thesis
      by (simp add: remember_forwarded_frame_def recalled_def Let_def es_def [symmetric])
  next
    case (Some es')
    with True es refresh_forward_shape [OF Some] show ?thesis
      by (auto simp: remember_forwarded_frame_def recalled_def Let_def es_def [symmetric])
  qed
qed

lemma recalled_step:
  assumes step: "niu_process_frame g s' now u = (u', out)"
    and rec: "recalled s sig t0 d u" and time: "d \<le> now - t0" "now - t0 \<le> guard_window u"
    and room: "length (nu_recent_forwards u) < guard_capacity u"
  shows "recalled s sig t0 (now - t0) u' \<and> nu_config u' = nu_config u \<and> nu_state u' = nu_state u
    \<and> length (nu_recent_forwards u') \<le> Suc (length (nu_recent_forwards u))"
proof -
  note did = process_frame_guard [OF step]
  have same: "recalled s sig t0 (now - t0) u'" if "nu_recent_forwards u' = nu_recent_forwards v"
      "recalled s sig t0 (now - t0) v" for v
    using that by (simp add: recalled_def)
  have expired: "length (nu_recent_forwards (expire_forwards now u)) \<le> length (nu_recent_forwards u)"
    by (simp add: expire_forwards_def)
  note later = recalled_later [OF rec time(1)] recalled_later [OF recalled_expire [OF rec time] time(1)]
    recalled_remember [OF rec time room, of g "side_other s'"]
  show ?thesis
  proof (cases out)
    case None
    then show ?thesis using did later same expired by auto
  next
    case (Some h)
    then show ?thesis using did later same remember_length [of g "side_other s'" now u] by auto
  qed
qed

lemma recalled_run:
  assumes "recalled s sig t0 d u" "sorted (d # map (\<lambda>(f, s, t). t - t0) xs @ [dn])" "dn \<le> guard_window u"
    and "length (nu_recent_forwards u) + length xs \<le> guard_capacity u"
  shows "recalled s sig t0 dn (fst (niu_frames xs u)) \<and> nu_config (fst (niu_frames xs u)) = nu_config u
    \<and> nu_state (fst (niu_frames xs u)) = nu_state u"
  using assms
proof (induction xs arbitrary: u d)
  case Nil
  then show ?case by (simp add: recalled_later)
next
  case (Cons x xs)
  obtain g s' now where x: "x = (g, s', now)"
    by (rule prod_cases3)
  obtain u1 out where step: "niu_process_frame g s' now u = (u1, out)"
    by fastforce
  have time: "d \<le> now - t0" "now - t0 \<le> dn" "sorted ((now - t0) # map (\<lambda>(f, s, t). t - t0) xs @ [dn])"
    using Cons.prems(2) by (auto simp: x)
  have one: "recalled s sig t0 (now - t0) u1 \<and> nu_config u1 = nu_config u \<and> nu_state u1 = nu_state u
    \<and> length (nu_recent_forwards u1) \<le> Suc (length (nu_recent_forwards u))"
    by (rule recalled_step [OF step Cons.prems(1) time(1)]) (use time(2) Cons.prems(3,4) in auto)
  have "recalled s sig t0 dn (fst (niu_frames xs u1)) \<and> nu_config (fst (niu_frames xs u1)) = nu_config u1
    \<and> nu_state (fst (niu_frames xs u1)) = nu_state u1"
    by (rule Cons.IH [OF _ time(3)]) (use one Cons.prems(3,4) in auto)
  then show ?case
    using one by (simp add: x step Let_def split_beta)
qed

lemma passed_frame:
  assumes "niu_process_frame f origin now u = (u', Some f')"
  shows "nu_state u = NiuActive" "f' = f"
    "\<not> (frame_source f = BROADCAST_ADDRESS \<or> frame_source f = NULL_ADDRESS \<and> frame_pgn f \<noteq> PGN_ADDRESS_CLAIMED)"
  using process_frame_guard [OF assms] assms
  by (auto simp: niu_process_frame_def process_frame_inner_def split: if_splits)

lemma recalled_blocks:
  assumes "recalled s (signature_from_frame f) t0 (now - t0) u" "now - t0 \<le> guard_window u" "guard_on u"
    and "nu_state u = NiuActive"
    and "\<not> (frame_source f = BROADCAST_ADDRESS \<or> frame_source f = NULL_ADDRESS \<and> frame_pgn f \<noteq> PGN_ADDRESS_CLAIMED)"
  shows "niu_process_frame f s now u = (count_blocked f s (expire_forwards now u), None)"
proof -
  have "recalled s (signature_from_frame f) t0 (now - t0) (expire_forwards now u)"
    using recalled_expire assms(1,2) by simp
  then have "is_loop_echo f s now u = (expire_forwards now u, True)"
    using assms(3) by (auto simp: is_loop_echo_def recalled_def list_ex_iff Let_def)
  with assms(4,5) show ?thesis
    by (auto simp: niu_process_frame_def process_frame_inner_def)
qed

text \<open>C16: the loop guard stops an echo. When a unit forwards a frame at \<open>t0\<close> and the same frame comes
  back from the far side within the guard's window, it is blocked, whatever other frames were processed in
  between, as long as they fit the guard's memory; times wrap around like the clock does.\<close>

theorem loop_guard_blocks_echo:
  assumes sent: "niu_process_frame f origin t0 u = (u1, Some f')" and guard: "guard_on u"
    and room: "length (nu_recent_forwards u) + length xs < guard_capacity u"
    and times: "sorted (map (\<lambda>(g, s, t). t - t0) xs @ [now - t0])" "now - t0 \<le> guard_window u"
  shows "let v = fst (niu_frames xs u1); (v', out) = niu_process_frame f (side_other origin) now v
    in out = None \<and> nu_on_blocked v' = nu_on_blocked v @ [(f, side_other origin)]
       \<and> nu_on_forwarded v' = nu_on_forwarded v"
proof -
  note first = process_frame_guard [OF sent] passed_frame [OF sent]
  have rec: "recalled (side_other origin) (signature_from_frame f) t0 0 u1"
    using remember_records [OF guard, of "side_other origin" f t0 t0] first(1) by (simp add: recalled_def)
  have len: "length (nu_recent_forwards u1) + length xs \<le> guard_capacity u1"
    using first(1) remember_length [of f "side_other origin" t0 u] room by simp
  have "sorted (0 # map (\<lambda>(f, s, t). t - t0) xs @ [now - t0])"
    using times(1) by simp
  from recalled_run [OF rec this _ len] have
    run: "recalled (side_other origin) (signature_from_frame f) t0 (now - t0) (fst (niu_frames xs u1))"
      "nu_config (fst (niu_frames xs u1)) = nu_config u" "nu_state (fst (niu_frames xs u1)) = NiuActive"
    using times(2) first by auto
  show ?thesis
    using recalled_blocks [OF run(1) _ _ run(3) first(4)] times(2) guard run(2)
    by (simp add: guard_on_def Let_def count_blocked_def expire_forwards_def)
qed

definition sample_unit :: niu where
  "sample_unit = niu_start (niu_new niu_config_default)"

definition sample_frame :: "u32 \<Rightarrow> frame" where
  "sample_frame i = frame8 (id_from_raw i) [1, 2, 3, 4, 5, 6, 7, 8]"

lemma sample_unit_forwards:
  assumes "frame_source f \<noteq> BROADCAST_ADDRESS" "frame_source f \<noteq> NULL_ADDRESS"
  shows "snd (process_frame_inner f origin now keep sample_unit) = Some f"
  using assms
  by (simp add: process_frame_inner_def sample_unit_def niu_start_def niu_new_def
      niu_config_default_def is_loop_echo_def expire_forwards_def resolve_policy_def default_policy_def Let_def
      split_beta split: if_splits option.splits)

theorem loop_guard_blocks_echo_witness:
  "let u1 = fst (niu_process_frame (sample_frame 0x18FEF180) Tractor 0xFFFFFFFE sample_unit);
       v = fst (niu_frames [(sample_frame 0x18FEF126, Implement, 5)] u1);
       (v', out) = niu_process_frame (sample_frame 0x18FEF180) (side_other Tractor) 100 v
   in out = None \<and> nu_on_blocked v' = nu_on_blocked v @ [(sample_frame 0x18FEF180, side_other Tractor)]
      \<and> nu_on_forwarded v' = nu_on_forwarded v"
proof -
  have "snd (niu_process_frame (sample_frame 0x18FEF180) Tractor 0xFFFFFFFE sample_unit) = Some (sample_frame 0x18FEF180)"
    unfolding niu_process_frame_def
    by (rule sample_unit_forwards) (simp_all add: sample_frame_def frame8_def frame_source_def id_source_def
        id_from_raw_def BROADCAST_ADDRESS_def NULL_ADDRESS_def)
  then have sent: "niu_process_frame (sample_frame 0x18FEF180) Tractor 0xFFFFFFFE sample_unit =
      (fst (niu_process_frame (sample_frame 0x18FEF180) Tractor 0xFFFFFFFE sample_unit), Some (sample_frame 0x18FEF180))"
    by (metis prod.collapse)
  have conf: "nu_config sample_unit = niu_config_default" "nu_recent_forwards sample_unit = []"
    by (simp_all add: sample_unit_def niu_start_def niu_new_def)
  show ?thesis
    unfolding Let_def
    by (rule loop_guard_blocks_echo [OF sent, of "[(sample_frame 0x18FEF126, Implement, 5)]" 100, unfolded Let_def])
      (simp_all add: conf guard_on_def niu_config_default_def DEFAULT_LOOP_GUARD_WINDOW_MS_def
        DEFAULT_LOOP_GUARD_MAX_RECENT_FORWARDS_def)
qed

section \<open>The rate limit and the clock\<close>

lemma resolve_rules_limited:
  assumes "\<forall>q\<in>set pre. \<not> matches q" "matches r" "rl_last_forward_time_ms r = Some prev"
    and "saturating_sub now prev < rl_max_frequency_ms r"
  shows "resolve_rules matches now (pre @ r # post) = (pre @ r # post, Some (rl_policy r, True))"
  using assms by (induction pre) (auto simp: word_neq_0_conv [symmetric])

lemma niu_limited_step:
  assumes fs: "nu_filters u = pre @ r # post" and pre: "\<forall>q\<in>set pre. rl_pgn q \<noteq> 0 \<and> rl_pgn q \<noteq> frame_pgn f"
    and r: "rl_pgn r = frame_pgn f" "rl_bidirectional r" "rl_source_name r = None" "rl_destination_name r = None"
    and limit: "rl_last_forward_time_ms r = Some prev" "0 < rl_max_frequency_ms r" "now < prev"
    and step: "niu_process_frame f origin now u = (u', out)"
  shows "out = None \<and> nu_filters u' = nu_filters u"
proof -
  obtain u1 echo where echo: "is_loop_echo f origin now u = (u1, echo)"
    by fastforce
  have u1: "nu_filters u1 = nu_filters u"
    using loop_echo_state [OF echo] by (simp add: expire_forwards_def)
  have res: "resolve_rules (rule_matches (frame_pgn f) origin a b) now (pre @ r # post) =
      (pre @ r # post, Some (rl_policy r, True))" for a b
    by (rule resolve_rules_limited) (use pre r limit in \<open>auto simp: rule_matches_def saturating_sub_def\<close>)
  have "resolve_policy f origin now (observe_address_claim f origin u1) =
      ((observe_address_claim f origin u1)\<lparr>nu_filters := pre @ r # post\<rparr>, rl_policy r, True)"
    using fs u1 by (simp add: resolve_policy_def Let_def res)
  with step u1 fs show ?thesis
    unfolding niu_process_frame_def process_frame_inner_def echo Let_def
    by (auto simp: count_blocked_def split: if_splits)
qed

text \<open>C39: a rate-limited rule stalls when the millisecond clock wraps. Once the time of a rule's last forwarded
  frame lies ahead of the wrapped clock, no frame of its parameter group passes at any time before the clock
  comes round to that value again, however long the configured interval has been exceeded, and the rule's
  recorded time does not move either.\<close>

theorem rate_limit_stalls_after_wrap:
  assumes "nu_filters u = pre @ r # post" "\<forall>q\<in>set pre. rl_pgn q \<noteq> 0 \<and> rl_pgn q \<noteq> rl_pgn r"
    and "rl_bidirectional r" "rl_source_name r = None" "rl_destination_name r = None"
    and "rl_last_forward_time_ms r = Some prev" "0 < rl_max_frequency_ms r"
    and "\<forall>(f, s, t)\<in>set xs. frame_pgn f = rl_pgn r \<and> t < prev"
  shows "set (snd (niu_frames xs u)) \<subseteq> {None} \<and> nu_filters (fst (niu_frames xs u)) = pre @ r # post"
  using assms
proof (induction xs arbitrary: u)
  case (Cons x xs)
  obtain f s t where x: "x = (f, s, t)"
    by (rule prod_cases3)
  obtain u1 out where step: "niu_process_frame f s t u = (u1, out)"
    by fastforce
  have one: "out = None \<and> nu_filters u1 = nu_filters u"
    by (rule niu_limited_step [OF Cons.prems(1) _ _ Cons.prems(3-7) _ step]) (use Cons.prems(2,8) x in auto)
  have "set (snd (niu_frames xs u1)) \<subseteq> {None} \<and> nu_filters (fst (niu_frames xs u1)) = pre @ r # post"
    by (rule Cons.IH [OF _ Cons.prems(2-7)]) (use one Cons.prems(1,8) in auto)
  then show ?case
    using one by (simp add: x step Let_def split_beta)
qed simp

theorem rate_limit_stalls_after_wrap_witness:
  "let r = (rule_with_max_frequency_ms 100 (rule_new 0xFEF1 Allow True))\<lparr>rl_last_forward_time_ms := Some 0xFFFFFFF0\<rparr>;
       u = sample_unit\<lparr>nu_filters := [r]\<rparr>;
       xs = [(sample_frame 0x18FEF180, Tractor, 200), (sample_frame 0x18FEF180, Tractor, 86400000)]
   in set (snd (niu_frames xs u)) \<subseteq> {None} \<and> nu_filters (fst (niu_frames xs u)) = [] @ r # []"
  unfolding Let_def
  by (rule rate_limit_stalls_after_wrap [where prev = "0xFFFFFFF0"])
    (simp_all add: rule_with_max_frequency_ms_def rule_new_def sample_frame_def frame8_def frame_pgn_def id_pgn_def
      id_pdu_format_def id_pdu_specific_def id_is_pdu2_def id_data_page_def id_extended_data_page_def id_from_raw_def Let_def)

end
