(* ===== verification/Niu_Router.thy ===== *)
theory Niu_Router
  imports Niu_Filter
begin

text \<open>
  Address translation between the two sides of a router (\<open>AddressTranslationDb\<close> and \<open>Router\<close> in
  src/src/net/niu/niu_router_policy.rs): the database of translations, the rewriting of a frame's
  addresses after the filter has passed it, and what a conversation across the router looks like.
\<close>

section \<open>The translation database\<close>

record address_translation =
  at_name :: device_name
  at_tractor_address :: address
  at_implement_address :: address
  at_active :: bool

definition translation_new :: "device_name \<Rightarrow> address \<Rightarrow> address \<Rightarrow> address_translation" where
  "translation_new nm tractor implement =
     \<lparr>at_name = nm, at_tractor_address = tractor, at_implement_address = implement, at_active = True\<rparr>"

definition translation_translate :: "address_translation \<Rightarrow> address \<Rightarrow> side \<Rightarrow> address option" where
  "translation_translate t addr from_side =
     (case from_side of
        Tractor \<Rightarrow> if addr = at_tractor_address t then Some (at_implement_address t) else None
      | Implement \<Rightarrow> if addr = at_implement_address t then Some (at_tractor_address t) else None)"

definition validate_translation_address :: "address \<Rightarrow> unit net_result" where
  "validate_translation_address addr = (if addr \<le> MAX_ADDRESS then Inr () else Inl (error_invalid_address addr))"

definition address_conflict :: "string \<Rightarrow> address \<Rightarrow> device_name \<Rightarrow> device_name \<Rightarrow> net_error" where
  "address_conflict side_name addr existing requested =
     error_with_message AddressConflict
       (side_name @ ''-side address '' @ hex_padded 2 (unat addr) @ '' already belongs to NAME ''
        @ hex_padded 16 (unat (name_raw existing)) @ '', requested by NAME ''
        @ hex_padded 16 (unat (name_raw requested)))"

primrec ensure_side_addresses_available ::
  "address_translation list \<Rightarrow> device_name \<Rightarrow> address \<Rightarrow> address \<Rightarrow> unit net_result" where
  "ensure_side_addresses_available [] nm tractor implement = Inr ()"
| "ensure_side_addresses_available (t # ts) nm tractor implement =
     (if at_active t \<and> at_name t \<noteq> nm \<and> at_tractor_address t = tractor
      then Inl (address_conflict ''tractor'' tractor (at_name t) nm)
      else if at_active t \<and> at_name t \<noteq> nm \<and> at_implement_address t = implement
      then Inl (address_conflict ''implement'' implement (at_name t) nm)
      else ensure_side_addresses_available ts nm tractor implement)"

primrec update_translation ::
  "device_name \<Rightarrow> address \<Rightarrow> address \<Rightarrow> address_translation list \<Rightarrow> address_translation list option" where
  "update_translation nm tractor implement [] = None"
| "update_translation nm tractor implement (t # ts) =
     (if at_name t = nm
      then Some (t\<lparr>at_tractor_address := tractor, at_implement_address := implement, at_active := True\<rparr> # ts)
      else map_option ((#) t) (update_translation nm tractor implement ts))"

definition db_add ::
  "device_name \<Rightarrow> address \<Rightarrow> address \<Rightarrow> address_translation list \<Rightarrow> address_translation list \<times> unit net_result" where
  "db_add nm tractor implement db =
     (case validate_translation_address tractor of
        Inl e \<Rightarrow> (db, Inl e)
      | Inr _ \<Rightarrow>
     (case validate_translation_address implement of
        Inl e \<Rightarrow> (db, Inl e)
      | Inr _ \<Rightarrow>
     (case ensure_side_addresses_available db nm tractor implement of
        Inl e \<Rightarrow> (db, Inl e)
      | Inr _ \<Rightarrow>
     (case update_translation nm tractor implement db of
        Some db' \<Rightarrow> (db', Inr ())
      | None \<Rightarrow> (db @ [translation_new nm tractor implement], Inr ())))))"

primrec db_remove :: "device_name \<Rightarrow> address_translation list \<Rightarrow> address_translation list" where
  "db_remove nm [] = []"
| "db_remove nm (t # ts) = (if at_name t = nm then ts else t # db_remove nm ts)"

primrec db_translate :: "address_translation list \<Rightarrow> address \<Rightarrow> side \<Rightarrow> address option" where
  "db_translate [] addr from_side = None"
| "db_translate (t # ts) addr from_side =
     (if at_active t
      then case translation_translate t addr from_side of
          Some a \<Rightarrow> Some a
        | None \<Rightarrow> db_translate ts addr from_side
      else db_translate ts addr from_side)"

definition db_lookup_by_address :: "address_translation list \<Rightarrow> address \<Rightarrow> side \<Rightarrow> address_translation option" where
  "db_lookup_by_address db addr s =
     find (\<lambda>t. at_active t \<and> (case s of Tractor \<Rightarrow> at_tractor_address t = addr | Implement \<Rightarrow> at_implement_address t = addr)) db"

definition db_lookup_by_name :: "address_translation list \<Rightarrow> device_name \<Rightarrow> address_translation option" where
  "db_lookup_by_name db nm = find (\<lambda>t. at_active t \<and> at_name t = nm) db"

definition db_is_address_available :: "address_translation list \<Rightarrow> address \<Rightarrow> side \<Rightarrow> bool" where
  "db_is_address_available db addr s \<longleftrightarrow>
     (case validate_translation_address addr of Inr _ \<Rightarrow> True | Inl _ \<Rightarrow> False) \<and> db_lookup_by_address db addr s = None"

section \<open>The router\<close>

record router =
  ro_niu :: niu
  ro_db :: "address_translation list"
  ro_forward_address_claims :: bool

definition router_new :: "niu_config \<Rightarrow> router" where
  "router_new cfg = \<lparr>ro_niu = niu_new cfg, ro_db = [], ro_forward_address_claims = False\<rparr>"

definition forward_address_claims :: "bool \<Rightarrow> router \<Rightarrow> router" where
  "forward_address_claims b ro = ro\<lparr>ro_forward_address_claims := b\<rparr>"

definition add_translation :: "device_name \<Rightarrow> address \<Rightarrow> address \<Rightarrow> router \<Rightarrow> router \<times> unit net_result" where
  "add_translation nm tractor implement ro =
     (let (db, res) = db_add nm tractor implement (ro_db ro) in (ro\<lparr>ro_db := db\<rparr>, res))"

definition remove_translation :: "device_name \<Rightarrow> router \<Rightarrow> router" where
  "remove_translation nm ro = ro\<lparr>ro_db := db_remove nm (ro_db ro)\<rparr>"

definition translate_address_claim_source :: "router \<Rightarrow> frame \<Rightarrow> side \<Rightarrow> address option option" where
  "translate_address_claim_source ro f origin =
     (if frame_source f = NULL_ADDRESS then Some None
      else do {
        claimed_name \<leftarrow> name_from_bytes (frame_payload f);
        case db_lookup_by_address (ro_db ro) (frame_source f) origin of
          Some entry \<Rightarrow>
            if at_name entry \<noteq> claimed_name then None
            else Some (translation_translate entry (frame_source f) origin)
        | None \<Rightarrow> if db_lookup_by_name (ro_db ro) claimed_name \<noteq> None then None else Some None
      })"

definition block_translated_frame :: "frame \<Rightarrow> side \<Rightarrow> router \<Rightarrow> router" where
  "block_translated_frame f origin ro = ro\<lparr>ro_niu := count_blocked f origin (ro_niu ro)\<rparr>"

definition router_send :: "frame \<Rightarrow> side \<Rightarrow> u32 \<Rightarrow> address option \<Rightarrow> address option \<Rightarrow> router \<Rightarrow> router \<times> frame option" where
  "router_send f origin now translated_source translated_dest ro =
     (let new_source = (case translated_source of Some a \<Rightarrow> a | None \<Rightarrow> frame_source f);
          new_dest = (case translated_dest of Some a \<Rightarrow> a | None \<Rightarrow> frame_destination f);
          g = (if new_source = frame_source f \<and> new_dest = frame_destination f then f
               else f\<lparr>fr_id := id_encode (frame_priority f) (frame_pgn f) new_source new_dest\<rparr>)
      in (ro\<lparr>ro_niu := remember_forwarded_frame g (side_other origin) now (ro_niu ro)\<rparr>, Some g))"

definition router_process_frame :: "frame \<Rightarrow> side \<Rightarrow> u32 \<Rightarrow> router \<Rightarrow> router \<times> frame option" where
  "router_process_frame f0 origin now ro0 =
     (let (u1, passed) = process_frame_inner f0 origin now False (ro_niu ro0); ro = ro0\<lparr>ro_niu := u1\<rparr>
      in case passed of
        None \<Rightarrow> (ro, None)
      | Some f \<Rightarrow>
          if frame_pgn f = PGN_ADDRESS_CLAIMED \<and> \<not> ro_forward_address_claims ro
          then (block_translated_frame f origin ro, None)
          else
            case (if frame_pgn f = PGN_ADDRESS_CLAIMED then translate_address_claim_source ro f origin
                  else Some (db_translate (ro_db ro) (frame_source f) origin)) of
              None \<Rightarrow> (block_translated_frame f origin ro, None)
            | Some translated_source \<Rightarrow>
                let translated_dest = (if frame_is_broadcast f then None
                                       else db_translate (ro_db ro) (frame_destination f) origin)
                in if \<not> frame_is_broadcast f \<and> translated_dest = None
                   then (block_translated_frame f origin ro, None)
                   else router_send f origin now translated_source translated_dest ro)"

section \<open>Histories of the database\<close>

datatype db_op = DbAdd device_name address address | DbRemove device_name | DbClear

primrec db_apply :: "db_op \<Rightarrow> address_translation list \<Rightarrow> address_translation list" where
  "db_apply (DbAdd nm tractor implement) db = fst (db_add nm tractor implement db)"
| "db_apply (DbRemove nm) db = db_remove nm db"
| "db_apply DbClear db = []"

definition db_inv :: "address_translation list \<Rightarrow> bool" where
  "db_inv db \<longleftrightarrow> distinct (map at_name db) \<and> distinct (map at_tractor_address db)
     \<and> distinct (map at_implement_address db)
     \<and> list_all (\<lambda>t. at_active t \<and> at_tractor_address t \<le> MAX_ADDRESS \<and> at_implement_address t \<le> MAX_ADDRESS) db"

lemma ensure_available:
  "ensure_side_addresses_available db nm tractor implement = Inr x \<Longrightarrow> t \<in> set db \<Longrightarrow> at_active t \<Longrightarrow>
   at_name t \<noteq> nm \<Longrightarrow> at_tractor_address t \<noteq> tractor \<and> at_implement_address t \<noteq> implement"
  by (induction db) (auto split: if_splits)

lemma update_translation_shape:
  "update_translation nm tractor implement db = Some db' \<Longrightarrow>
   \<exists>xs t ys. db = xs @ t # ys \<and> at_name t = nm
     \<and> db' = xs @ t\<lparr>at_tractor_address := tractor, at_implement_address := implement, at_active := True\<rparr> # ys"
proof (induction db arbitrary: db')
  case (Cons t db)
  show ?case
  proof (cases "at_name t = nm")
    case True
    with Cons.prems show ?thesis by (intro exI [of _ "[]"]) auto
  next
    case False
    then obtain db1 where "update_translation nm tractor implement db = Some db1" "db' = t # db1"
      using Cons.prems by auto
    with Cons.IH [of db1] show ?thesis
      by (metis append_Cons)
  qed
qed simp

lemma update_translation_none: "update_translation nm tractor implement db = None \<Longrightarrow> nm \<notin> at_name ` set db"
  by (induction db) (auto split: if_splits)

lemma db_inv_replace:
  assumes "db_inv (xs @ t # ys)" "at_name t = nm" "tractor \<le> MAX_ADDRESS" "implement \<le> MAX_ADDRESS"
    and free: "\<And>q. q \<in> set (xs @ t # ys) \<Longrightarrow> at_name q \<noteq> nm \<Longrightarrow> at_tractor_address q \<noteq> tractor \<and> at_implement_address q \<noteq> implement"
  shows "db_inv (xs @ t\<lparr>at_tractor_address := tractor, at_implement_address := implement, at_active := True\<rparr> # ys)"
proof -
  have "nm \<notin> at_name ` (set xs \<union> set ys)"
    using assms(1,2) by (auto simp: db_inv_def)
  then have others: "at_tractor_address q \<noteq> tractor \<and> at_implement_address q \<noteq> implement" if "q \<in> set xs \<union> set ys" for q
    using that by (intro free) auto
  then have "tractor \<notin> at_tractor_address ` (set xs \<union> set ys)" "implement \<notin> at_implement_address ` (set xs \<union> set ys)"
    by auto
  with assms(1-4) show ?thesis
    by (simp add: db_inv_def image_Un)
qed

lemma db_inv_append:
  assumes "db_inv db" "nm \<notin> at_name ` set db" "tractor \<le> MAX_ADDRESS" "implement \<le> MAX_ADDRESS"
    and "\<And>q. q \<in> set db \<Longrightarrow> at_tractor_address q \<noteq> tractor \<and> at_implement_address q \<noteq> implement"
  shows "db_inv (db @ [translation_new nm tractor implement])"
  using assms by (auto simp: db_inv_def translation_new_def)

lemma db_inv_add:
  assumes inv: "db_inv db"
  shows "db_inv (fst (db_add nm tractor implement db))"
proof (cases "tractor \<le> MAX_ADDRESS \<and> implement \<le> MAX_ADDRESS
    \<and> ensure_side_addresses_available db nm tractor implement = Inr ()")
  case False
  then show ?thesis
    using inv by (auto simp: db_add_def validate_translation_address_def split: sum.splits)
next
  case True
  have active: "at_active q" if "q \<in> set db" for q
    using inv that by (simp add: db_inv_def list_all_iff)
  note free = ensure_available [OF True [THEN conjunct2, THEN conjunct2] _ active]
  show ?thesis
  proof (cases "update_translation nm tractor implement db")
    case None
    from update_translation_none [OF this] have "at_name q \<noteq> nm" if "q \<in> set db" for q
      using that by auto
    with None True db_inv_append [OF inv update_translation_none [OF None]] free show ?thesis
      by (simp add: db_add_def validate_translation_address_def)
  next
    case (Some db')
    from update_translation_shape [OF this] obtain xs t ys where shape: "db = xs @ t # ys" "at_name t = nm"
      "db' = xs @ t\<lparr>at_tractor_address := tractor, at_implement_address := implement, at_active := True\<rparr> # ys"
      by blast
    have "db_inv db'"
      unfolding shape(3) by (rule db_inv_replace) (use inv shape True free in auto)
    with Some True show ?thesis
      by (simp add: db_add_def validate_translation_address_def)
  qed
qed

lemma set_db_remove: "set (db_remove nm db) \<subseteq> set db"
  by (induction db) auto

lemma db_inv_remove: "db_inv db \<Longrightarrow> db_inv (db_remove nm db)"
proof (induction db)
  case (Cons t db)
  then have "db_inv db"
    by (simp add: db_inv_def)
  with Cons.IH have "db_inv (db_remove nm db)" .
  with Cons.prems \<open>db_inv db\<close> set_db_remove [of nm db] show ?case
    by (auto simp: db_inv_def)
qed simp

lemma db_inv_history: "db_inv (foldl (\<lambda>db op. db_apply op db) [] ops)"
proof (induction ops rule: rev_induct)
  case (snoc op ops)
  then show ?case
    by (cases op) (simp_all add: db_inv_add db_inv_remove, simp add: db_inv_def)
qed (simp add: db_inv_def)

lemma db_translate_iff:
  assumes "db_inv db"
  shows "db_translate db a s = Some b \<longleftrightarrow>
    (\<exists>t\<in>set db. (case s of Tractor \<Rightarrow> at_tractor_address t = a \<and> at_implement_address t = b
                 | Implement \<Rightarrow> at_implement_address t = a \<and> at_tractor_address t = b))"
  using assms
proof (induction db)
  case (Cons t db)
  then have "db_inv db" "at_active t"
    "\<And>q. q \<in> set db \<Longrightarrow> at_tractor_address q \<noteq> at_tractor_address t"
    "\<And>q. q \<in> set db \<Longrightarrow> at_implement_address q \<noteq> at_implement_address t"
    by (auto simp: db_inv_def rev_image_eqI)
  with Cons.IH show ?case
    by (cases s) (auto simp: translation_translate_def)
qed simp

text \<open>C11: whatever sequence of additions, removals and clearings builds the translation database, it maps
  the addresses of the two sides one to one: an address translates to another exactly when that one
  translates back, each NAME has at most one entry, and every address in use can be claimed by a node.\<close>

theorem translations_stay_one_to_one:
  "let db = foldl (\<lambda>db op. db_apply op db) [] ops
   in (db_translate db a s = Some b \<longleftrightarrow> db_translate db b (side_other s) = Some a)
      \<and> distinct (map at_name db)
      \<and> list_all (\<lambda>t. at_tractor_address t \<le> MAX_ADDRESS \<and> at_implement_address t \<le> MAX_ADDRESS) db"
  using db_inv_history [of ops] db_translate_iff [OF db_inv_history [of ops]]
  by (cases s) (auto simp: Let_def side_other_def db_inv_def list_all_iff conj_commute)

section \<open>Frames that cross the router\<close>

definition readdressed :: "frame \<Rightarrow> address \<Rightarrow> address \<Rightarrow> frame \<Rightarrow> bool" where
  "readdressed f src dst g \<longleftrightarrow> frame_source g = src \<and> frame_destination g = dst \<and> frame_pgn g = frame_pgn f
     \<and> frame_priority g = frame_priority f \<and> frame_is_broadcast g = frame_is_broadcast f
     \<and> frame_payload g = frame_payload f \<and> fr_timestamp_us g = fr_timestamp_us f"

lemma inner_passes_unchanged:
  "snd (process_frame_inner f origin now keep u) \<noteq> None \<Longrightarrow> snd (process_frame_inner f origin now keep u) = Some f"
  by (auto simp: process_frame_inner_def Let_def split_beta split: if_splits forward_policy.splits)

lemma pgn_of_identifier:
  "pgn_is_pdu2 (id_pgn i) = id_is_pdu2 i" "pgn_normalize (id_pgn i) = id_pgn i"
proof -
  have "pgn_pdu_format (id_pgn i) = id_pdu_format i"
    unfolding pgn_pdu_format_def id_pdu_format_def mask_literals
    by (rule bit_word_eqI) (auto simp: bit_simps bit_id_pgn ac_simps)
  then show pdu2: "pgn_is_pdu2 (id_pgn i) = id_is_pdu2 i"
    by (simp add: pgn_is_pdu2_def id_is_pdu2_def)
  show "pgn_normalize (id_pgn i) = id_pgn i"
    by (rule bit_word_eqI) (auto simp: bit_pgn_normalize bit_id_pgn pdu2)
qed

lemma readdress_encode:
  assumes "frame_is_broadcast f \<longrightarrow> dst = frame_destination f"
    and "\<not> frame_is_broadcast f \<longrightarrow> dst \<noteq> BROADCAST_ADDRESS"
  shows "readdressed f src dst (f\<lparr>fr_id := id_encode (frame_priority f) (frame_pgn f) src dst\<rparr>)"
  using assms
  by (auto simp: readdressed_def frame_accessors frame_payload_def frame_is_broadcast_def id_pgn_encode
      pgn_of_identifier id_is_broadcast_encode) (auto simp: id_is_broadcast_def id_destination_def)

lemma router_send_readdresses:
  assumes "frame_is_broadcast f \<longrightarrow> d = None" "\<not> frame_is_broadcast f \<longrightarrow> (\<exists>b. d = Some b \<and> b \<noteq> BROADCAST_ADDRESS)"
  shows "\<exists>g. snd (router_send f origin now a d ro) = Some g
    \<and> readdressed f (case a of Some x \<Rightarrow> x | None \<Rightarrow> frame_source f) (case d of Some x \<Rightarrow> x | None \<Rightarrow> frame_destination f) g"
proof (cases "(case a of Some x \<Rightarrow> x | None \<Rightarrow> frame_source f) = frame_source f
    \<and> (case d of Some x \<Rightarrow> x | None \<Rightarrow> frame_destination f) = frame_destination f")
  case True
  then show ?thesis
    by (simp add: router_send_def Let_def readdressed_def)
next
  case False
  with assms readdress_encode [of f "case d of Some x \<Rightarrow> x | None \<Rightarrow> frame_destination f"
      "case a of Some x \<Rightarrow> x | None \<Rightarrow> frame_source f"]
  show ?thesis
    by (auto simp: router_send_def Let_def)
qed

lemma db_translate_claimable:
  assumes "db_inv db" "db_translate db a s = Some b"
  shows "a \<noteq> BROADCAST_ADDRESS \<and> b \<noteq> BROADCAST_ADDRESS"
  using assms unfolding db_translate_iff [OF assms(1)]
  by (cases s) (auto simp: db_inv_def list_all_iff MAX_ADDRESS_def BROADCAST_ADDRESS_def)

lemma specific_destination: "frame_destination f \<noteq> BROADCAST_ADDRESS \<Longrightarrow> \<not> frame_is_broadcast f"
  by (simp add: frame_destination_def frame_is_broadcast_def id_is_broadcast_def id_destination_def split: if_splits)

lemma router_crosses:
  assumes inv: "db_inv (ro_db ro)" and claim: "frame_pgn f \<noteq> PGN_ADDRESS_CLAIMED"
    and src: "db_translate (ro_db ro) (frame_source f) origin = Some a"
    and dst: "db_translate (ro_db ro) (frame_destination f) origin = Some b"
    and passes: "snd (process_frame_inner f origin now False (ro_niu ro)) \<noteq> None"
  shows "\<exists>g. snd (router_process_frame f origin now ro) = Some g \<and> readdressed f a b g"
proof -
  note plain = db_translate_claimable [OF inv dst]
  obtain u1 where pass: "process_frame_inner f origin now False (ro_niu ro) = (u1, Some f)"
    using inner_passes_unchanged [OF passes] by (metis prod.collapse)
  have "\<not> frame_is_broadcast f"
    using plain by (simp add: specific_destination)
  then show ?thesis
    using router_send_readdresses [of f "Some b" origin now "Some a" "ro\<lparr>ro_niu := u1\<rparr>"] plain claim src dst
    by (simp add: router_process_frame_def pass Let_def)
qed

text \<open>C10: two nodes on different sides can talk through a router. When both have a translation and the filter
  passes their frames, a frame arrives on the far side with both addresses translated and its group, priority,
  payload and time unchanged, and an answer sent to the address the frame appeared to come from arrives back
  with exactly the two addresses of the original frame, swapped.\<close>

theorem router_carries_conversation:
  assumes "ro_db ro = foldl (\<lambda>db op. db_apply op db) [] ops" "ro_db ro' = ro_db ro"
    and "db_translate (ro_db ro) (frame_source f) origin = Some a"
    and "db_translate (ro_db ro) (frame_destination f) origin = Some b"
    and "frame_pgn f \<noteq> PGN_ADDRESS_CLAIMED" "snd (process_frame_inner f origin now False (ro_niu ro)) \<noteq> None"
    and "frame_source h = b" "frame_destination h = a"
    and "frame_pgn h \<noteq> PGN_ADDRESS_CLAIMED"
    and "snd (process_frame_inner h (side_other origin) now' False (ro_niu ro')) \<noteq> None"
  shows "\<exists>g k. snd (router_process_frame f origin now ro) = Some g \<and> readdressed f a b g
    \<and> snd (router_process_frame h (side_other origin) now' ro') = Some k
    \<and> readdressed h (frame_destination f) (frame_source f) k"
proof -
  have inv: "db_inv (ro_db ro)" "db_inv (ro_db ro')"
    using assms(1,2) db_inv_history by simp_all
  have inverse: "db_translate (ro_db ro') y (side_other origin) = Some x"
    if "db_translate (ro_db ro) x origin = Some y" for x y
    using that assms(2) db_translate_iff [OF inv(1)] by (cases origin) (auto simp: side_other_def)
  show ?thesis
    using router_crosses [OF inv(1) assms(5,3,4,6)] router_crosses [OF inv(2) assms(9) _ _ assms(10)]
      inverse [OF assms(3)] inverse [OF assms(4)] assms(7,8) by blast
qed

definition sample_router :: router where
  "sample_router = \<lparr>ro_niu = sample_unit,
     ro_db = foldl (\<lambda>db op. db_apply op db) [] [DbAdd (Name 1) 0x80 0x81, DbAdd (Name 2) 0x20 0x26],
     ro_forward_address_claims = False\<rparr>"

lemmas sample_frame_simps = sample_frame_def frame8_def frame_source_def frame_destination_def frame_pgn_def
  frame_is_broadcast_def id_source_def id_destination_def id_pgn_def id_is_broadcast_def id_pdu_format_def
  id_pdu_specific_def id_is_pdu2_def id_from_raw_def BROADCAST_ADDRESS_def NULL_ADDRESS_def PGN_ADDRESS_CLAIMED_def

lemma sample_router_db:
  "ro_db sample_router = [translation_new (Name 1) 0x80 0x81, translation_new (Name 2) 0x20 0x26]"
  by (simp add: sample_router_def db_add_def validate_translation_address_def MAX_ADDRESS_def translation_new_def)

theorem router_carries_conversation_witness:
  "\<exists>g k. snd (router_process_frame (sample_frame 0x18EF2080) Tractor 10 sample_router) = Some g
    \<and> readdressed (sample_frame 0x18EF2080) 0x81 0x26 g
    \<and> snd (router_process_frame (sample_frame 0x18EF8126) (side_other Tractor) 20 sample_router) = Some k
    \<and> readdressed (sample_frame 0x18EF8126) (frame_destination (sample_frame 0x18EF2080))
        (frame_source (sample_frame 0x18EF2080)) k"
proof (rule router_carries_conversation
    [where ops = "[DbAdd (Name 1) 0x80 0x81, DbAdd (Name 2) 0x20 0x26]"])
  show "snd (process_frame_inner (sample_frame 0x18EF2080) Tractor 10 False (ro_niu sample_router)) \<noteq> None"
    "snd (process_frame_inner (sample_frame 0x18EF8126) (side_other Tractor) 20 False (ro_niu sample_router)) \<noteq> None"
    by (simp_all add: sample_router_def sample_unit_forwards sample_frame_simps)
  show "ro_db sample_router = foldl (\<lambda>db op. db_apply op db) [] [DbAdd (Name 1) 0x80 0x81, DbAdd (Name 2) 0x20 0x26]"
    by (simp only: sample_router_def router.select_convs)
qed (simp_all add: sample_router_db translation_translate_def translation_new_def sample_frame_simps)

lemma inner_counts:
  assumes "process_frame_inner f origin now False u = (u1, Some g)"
  shows "nu_on_forwarded u1 = nu_on_forwarded u @ [(f, origin)] \<and> nu_on_blocked u1 = nu_on_blocked u
    \<and> nu_forwarded_count u1 = saturating_add (nu_forwarded_count u) 1 \<and> nu_blocked_count u1 = nu_blocked_count u"
proof -
  obtain v echo where echo: "is_loop_echo f origin now u = (v, echo)"
    by fastforce
  obtain w policy limited where res: "resolve_policy f origin now (observe_address_claim f origin v) = (w, policy, limited)"
    by (metis prod_cases3)
  obtain rs where w: "w = (observe_address_claim f origin v)\<lparr>nu_filters := rs\<rparr>"
    using resolve_policy_keeps [OF res] by blast
  have v: "nu_on_forwarded w = nu_on_forwarded u \<and> nu_on_blocked w = nu_on_blocked u
    \<and> nu_forwarded_count w = nu_forwarded_count u \<and> nu_blocked_count w = nu_blocked_count u"
    unfolding w using loop_echo_state [OF echo]
    by (simp add: observe_address_claim_def expire_forwards_def split: option.split)
  have "u1 = count_forwarded f origin w \<or> u1 = (count_forwarded f origin w)\<lparr>nu_on_monitored := nu_on_monitored w @ [(f, origin)]\<rparr>"
    using assms unfolding process_frame_inner_def echo res Let_def prod.case
    by (simp split: if_split_asm forward_policy.split_asm; (elim conjE)?; hypsubst; simp)
  with v show ?thesis
    by (auto simp: count_forwarded_def)
qed

text \<open>C40: the router keeps address claims and untranslatable destinations on their own side, but its
  statistics say otherwise: the frame it then blocks has already been counted and announced as forwarded,
  so one dropped frame raises both counters and appears on both events.\<close>

theorem router_counts_blocked_as_forwarded:
  assumes passes: "snd (process_frame_inner f origin now False (ro_niu ro)) \<noteq> None"
    and stays: "if frame_pgn f = PGN_ADDRESS_CLAIMED then \<not> ro_forward_address_claims ro
       else \<not> frame_is_broadcast f \<and> db_translate (ro_db ro) (frame_destination f) origin = None"
  shows "let (ro', out) = router_process_frame f origin now ro; u = ro_niu ro; u' = ro_niu ro'
    in out = None
       \<and> nu_on_forwarded u' = nu_on_forwarded u @ [(f, origin)] \<and> nu_on_blocked u' = nu_on_blocked u @ [(f, origin)]
       \<and> nu_forwarded_count u' = saturating_add (nu_forwarded_count u) 1
       \<and> nu_blocked_count u' = saturating_add (nu_blocked_count u) 1"
proof -
  obtain u1 where pass: "process_frame_inner f origin now False (ro_niu ro) = (u1, Some f)"
    using inner_passes_unchanged [OF passes] by (metis prod.collapse)
  have "router_process_frame f origin now ro = (block_translated_frame f origin (ro\<lparr>ro_niu := u1\<rparr>), None)"
    using stays by (simp add: router_process_frame_def pass Let_def split: if_splits)
  with inner_counts [OF pass] show ?thesis
    by (simp add: Let_def block_translated_frame_def count_blocked_def)
qed

theorem router_counts_blocked_as_forwarded_witness:
  "let (ro', out) = router_process_frame (sample_frame 0x18EF2180) Tractor 10 sample_router;
       u = ro_niu sample_router; u' = ro_niu ro'
   in out = None
      \<and> nu_on_forwarded u' = nu_on_forwarded u @ [(sample_frame 0x18EF2180, Tractor)]
      \<and> nu_on_blocked u' = nu_on_blocked u @ [(sample_frame 0x18EF2180, Tractor)]
      \<and> nu_forwarded_count u' = saturating_add (nu_forwarded_count u) 1
      \<and> nu_blocked_count u' = saturating_add (nu_blocked_count u) 1"
proof (rule router_counts_blocked_as_forwarded)
  show "snd (process_frame_inner (sample_frame 0x18EF2180) Tractor 10 False (ro_niu sample_router)) \<noteq> None"
    by (simp add: sample_router_def sample_unit_forwards sample_frame_simps)
qed (simp add: sample_router_db translation_translate_def translation_new_def sample_frame_simps)

end
