(* ===== verification/Spec2Isabelle.thy ===== *)
theory Spec2Isabelle
  imports Pgn_Table Timers Claim_Protocol TP_Capacity TP_Broadcast Fixed_Buffers Fast_Packet_Transfer
    ETP_Transfer Net_Conflicts Niu_Router
begin

text \<open>
  A verification development of the network core of machbus, a Rust stack for ISO 11783 / J1939 /
  NMEA 2000 networks (crate sources under \<open>src/src\<close>).

  \<^bold>\<open>The program.\<close>  A node turns application messages into CAN frames with 29-bit identifiers.  It
  first claims an address: its 64-bit NAME arbitrates against the NAMEs of other nodes.  Messages of up
  to eight bytes travel in one frame.  Longer ones are cut up by the transport protocol (up to 1785
  bytes, connection mode or broadcast), the extended transport protocol (up to 117440505 bytes) or the
  fast-packet protocol (up to 223 bytes).
  A network manager holds the control functions of a node, its partners and the protocol engines, and
  drives them from one poll loop.  An interconnection unit filters the frames between two buses, and a
  router translates their addresses on the way.
  An allocation-free build keeps queues and session tables in fixed arrays.

  \<^bold>\<open>Conventions.\<close>  An \<open>uN\<close> is an \<open>N word\<close>, a \<open>usize\<close> a \<open>nat\<close>, a \<open>Vec\<close>, slice or array a list, a struct a
  record, an enum a datatype.  A function that can panic (index out of range, overflow in checked
  arithmetic, \<open>expect\<close>) returns an option, with \<open>None\<close> for the panic; a Rust \<open>Result\<close> is a sum with the
  error on the left.  \<open>Event<T>\<close> fields are the lists of the values emitted so far.  Tracing is omitted.
  The hosted build is modelled where the two builds differ, unless stated otherwise.

  \<^bold>\<open>Theories.\<close>

  \<^item> \<open>Prelude\<close>: machine arithmetic (checked, saturating), \<open>swap_remove\<close>, \<open>position\<close>, copy loops, and the
    locales \<open>safe_system\<close> (an invariant kept by every step of a state machine, hence by every run) and
    \<open>timed_phase\<close> (a phase that lasts until a deadline).
  \<^item> \<open>Net_Base\<close>: \<open>types.rs\<close>, \<open>constants.rs\<close>, \<open>error.rs\<close>.
  \<^item> \<open>Byte_Access\<close>: \<open>bitfield.rs\<close> and \<open>data_span.rs\<close>; field writes read back and leave other bits alone.
  \<^item> \<open>Can_Identifier\<close>, \<open>Pgn_Table\<close>: \<open>pgn.rs\<close>, \<open>identifier.rs\<close>, \<open>pgn_defs.rs\<close>; the identifier codec is
    a bijection on canonical fields, the table a map of canonical PGNs.
  \<^item> \<open>Device_Name\<close>: \<open>name.rs\<close>; each field is an instance of the locale \<open>name_field\<close>.
  \<^item> \<open>Can_Frame\<close>: \<open>frame.rs\<close>, \<open>can_adapter.rs\<close>, \<open>message.rs\<close>.
  \<^item> \<open>Timers\<close>: \<open>timer.rs\<close>.
  \<^item> \<open>Control_Function\<close>, \<open>Address_Claim\<close>, \<open>Claim_Protocol\<close>: \<open>state_machine.rs\<close>, \<open>control_function.rs\<close>,
    \<open>internal_cf.rs\<close>, \<open>address_claimer.rs\<close>; every run of the claimer keeps its invariant, an uncontested
    claim completes, a contest has one winner, a failed claim stays failed.
  \<^item> \<open>Transport_Session\<close>, \<open>TP_Engine\<close>: \<open>session.rs\<close> and \<open>tp/\<close>; \<open>TP_Segmentation\<close> relates the frames
    of a transfer to its payload, \<open>TP_Invariant\<close> and \<open>TP_Safety\<close> show that no call panics and sessions stay
    well formed, \<open>TP_Capacity\<close> that the table stays within its limit, \<open>TP_Transfer\<close> and \<open>TP_Broadcast\<close>
    that a lossless link delivers the payload.
  \<^item> \<open>ETP_Engine\<close>: \<open>etp/\<close>; \<open>ETP_Safety\<close> and \<open>ETP_Runs\<close> show that no call panics and sessions stay well
    formed, \<open>ETP_Transfer\<close> that a lossless link delivers the payload.
  \<^item> \<open>Session_Table\<close>, \<open>Window_Exchange\<close>: what the three protocols share: tables of sessions with distinct
    keys and the index loop over them (locale \<open>tick_loop\<close>), and the exchange of windows and clearances
    between two engines (locale \<open>windowed_link\<close>).
  \<^item> \<open>Fixed_Storage\<close>, \<open>Fixed_Buffers\<close>: \<open>fixed.rs\<close>; the ring queue refines a bounded FIFO (locale
    \<open>bounded_fifo\<close>), the slot table a vector (locale \<open>slot_table\<close>).
  \<^item> \<open>Fast_Packet\<close>, \<open>Fast_Packet_Transfer\<close>: \<open>fast_packet.rs\<close>; no call panics, and a packet is delivered
    whatever other traffic it is mixed with.
  \<^item> \<open>Bus_Load\<close>, \<open>Partner_Cf\<close>: \<open>bus_load.rs\<close> (the sampling loop ends for every elapsed time) and
    \<open>partner_cf.rs\<close>.
  \<^item> \<open>Net_Manager\<close>, \<open>Net_Routing\<close>: \<open>network_manager/iso_network_manager.rs\<close>: the state of \<open>IsoNet\<close>, sending and
    queueing, the routing of a received frame, address claims and the poll loop \<open>update\<close>.  \<open>Net_Safety\<close>
    and \<open>Net_Runs\<close> show that no sequence of calls panics or hangs and that everything the manager
    holds stays well formed, on top of the safety of the engines and the claimer.  \<open>Net_Addresses\<close> and
    \<open>Net_Transfers\<close> follow an address and a broadcast through the managers of two nodes;
    \<open>Net_Conflicts\<close> holds what happens to transfers when addresses are lost or held twice.
  \<^item> \<open>Niu_Codec\<close>, \<open>Niu_Filter\<close>, \<open>Niu_Router\<close>: \<open>niu/niu_router_policy.rs\<close> and \<open>acknowledgment.rs\<close>: the
    messages and the stored filter rules with their round trips, the unit with its filter table, rate
    limits and loop guard, and the router with its translation database, which stays one to one and
    carries a conversation both ways.

  \<^bold>\<open>Bounds and fuel.\<close>  The index loops over session tables (\<open>tp_update_loop\<close>, \<open>etp_update_loop\<close>,
  \<open>fp_update_loop\<close>, \<open>fs_retain_loop\<close>) take one unit of fuel per session: each round removes a session or advances the
  index.  Running out of fuel is \<open>None\<close>, and the lemmas \<open>tp_update_eq\<close>, \<open>etp_update_eq\<close> and
  \<open>fp_update_eq\<close> show it does not
  happen.  The address search makes as many rounds as the code's own loop.  The two loops without such a bound,
  \<open>bl_sample_loop\<close> and \<open>recv_loop\<close>, are partial functions: the first is shown to end always, the second for
  every endpoint that runs dry (\<open>link_runs_dry\<close>).  An endpoint of the manager is not part of the crate's core
  and is a parameter, given by its send and receive functions.  The frame counters of the manager are
  \<open>nat\<close>, as a 64-bit counter of frames does not wrap in practice.  Payload lengths are assumed below
  \<open>2 ^ 32\<close> where the code casts a length to \<open>u32\<close>.

  \<^bold>\<open>Not modelled.\<close>  Floating-point values (\<open>Timer::progress\<close>, session progress, the bus-load percentage), CAN
  drivers and other I/O, the failure of a memory allocation; of the interconnection unit the policy
  snapshots, the persisted text form, the learning address table and the profile descriptions; the
  scheduler and the node management services that the network manager does not call; the ISOBUS, NMEA
  and J1939 application layers, the session layer, the foreign-function and Python bindings, the
  command-line tools and the examples.
\<close>

end
